theory Spec2Isabelle
  imports Main "HOL-Library.AList" "HOL-Library.List_Lexorder" "HOL-Library.Char_ord"
begin

section \<open>Python strings\<close>

text \<open>
  The string operations \<^verbatim>\<open>core.py\<close> uses, on \<open>string\<close> (a list of characters):
  \<^verbatim>\<open>s.upper()\<close> (ASCII letters), \<^verbatim>\<open>s.startswith(p)\<close>, \<^verbatim>\<open>s.endswith(p)\<close>, \<^verbatim>\<open>p in s\<close>,
  \<^verbatim>\<open>sep.join(xs)\<close>, \<^verbatim>\<open>s.rstrip(chars)\<close> and \<^verbatim>\<open>str(n)\<close> of a non-negative integer.
\<close>

definition upper_char :: "char \<Rightarrow> char" where
  "upper_char c =
     (case map_of (zip ''abcdefghijklmnopqrstuvwxyz'' ''ABCDEFGHIJKLMNOPQRSTUVWXYZ'') c of
        None \<Rightarrow> c
      | Some u \<Rightarrow> u)"

definition upper :: "string \<Rightarrow> string" where
  "upper s = map upper_char s"

fun startswith :: "string \<Rightarrow> string \<Rightarrow> bool" where
  "startswith s [] = True"
| "startswith [] (p # ps) = False"
| "startswith (c # cs) (p # ps) = (c = p \<and> startswith cs ps)"

definition endswith :: "string \<Rightarrow> string \<Rightarrow> bool" where
  "endswith s p = startswith (rev s) (rev p)"

fun contains :: "string \<Rightarrow> string \<Rightarrow> bool" where
  "contains [] p = (p = [])"
| "contains (c # cs) p = (startswith (c # cs) p \<or> contains cs p)"

fun join :: "string \<Rightarrow> string list \<Rightarrow> string" where
  "join sep [] = []"
| "join sep [x] = x"
| "join sep (x # y # ys) = x @ sep @ join sep (y # ys)"

definition rstrip :: "string \<Rightarrow> string \<Rightarrow> string" where
  "rstrip s chars = rev (dropWhile (\<lambda>c. c \<in> set chars) (rev s))"

definition digit :: "nat \<Rightarrow> char" where
  "digit d = ''0123456789'' ! d"

fun str_nat :: "nat \<Rightarrow> string" where
  "str_nat n = (if n < 10 then [digit n] else str_nat (n div 10) @ [digit (n mod 10)])"

declare str_nat.simps [simp del]

section \<open>Exceptions and results\<close>

text \<open>
  \<^verbatim>\<open>ValidationException\<close> is the exception the inner handler of \<^verbatim>\<open>update\<close> catches;
  \<open>Exception\<close> stands for every other subclass of Python's \<^verbatim>\<open>Exception\<close>. Both carry
  their \<^verbatim>\<open>message\<close>.
\<close>

datatype exn = ValidationException string | Exception string

fun message :: "exn \<Rightarrow> string" where
  "message (ValidationException m) = m"
| "message (Exception m) = m"

section \<open>Fields and the schema check\<close>

text \<open>An \<^verbatim>\<open>arcpy\<close> field, as \<^verbatim>\<open>arcpy.ListFields\<close> returns it: name, type and length.\<close>

record field =
  field_name :: string
  field_type :: string
  field_length :: nat

text \<open>\<^verbatim>\<open>_is_naughty_field(fld)\<close>\<close>

definition is_naughty_field :: "string \<Rightarrow> bool" where
  "is_naughty_field fld \<longleftrightarrow>
     contains (upper fld) ''SHAPE''
     \<or> upper fld \<in> set [''GLOBAL_ID'', ''GLOBALID'']
     \<or> startswith fld ''OBJECTID_''"

text \<open>
  \<^verbatim>\<open>_filter_fields(fields, source_primary_key)\<close>. The argument is a Python set, given here as
  a list; the sort makes the result independent of its order.
\<close>

definition filter_fields :: "string list \<Rightarrow> string \<Rightarrow> string list" where
  "filter_fields flds source_primary_key =
     (let new_fields = sort (filter (\<lambda>fld. \<not> is_naughty_field fld) flds)
      in remove1 source_primary_key new_fields @ [source_primary_key])"

text \<open>
  \<^verbatim>\<open>get_fields(dataset)\<close> inside \<^verbatim>\<open>check_schema\<close>: a dictionary from the upper-cased name
  to the field. The dictionary is an association list: a key keeps the place of its first
  insertion and a later field with the same key replaces the value. (Python 2 iterates the
  keys in an order of its own; the theorems below that speak about the order of the
  collected lists speak about this one.)
\<close>

definition add_field :: "(string \<times> field) list \<Rightarrow> field \<Rightarrow> (string \<times> field) list" where
  "add_field field_dict fld =
     (if \<not> is_naughty_field (field_name fld) \<and> field_name fld \<notin> set [''OBJECTID'', ''FID'']
      then AList.update (upper (field_name fld)) fld field_dict
      else field_dict)"

definition get_fields :: "field list \<Rightarrow> (string \<times> field) list" where
  "get_fields fs = foldl add_field [] fs"

definition abstract_type :: "string \<Rightarrow> string" where
  "abstract_type t =
     (if t \<in> set [''Double'', ''Integer'', ''Single'', ''SmallInteger''] then ''Numeric'' else t)"

definition truncate_field_length :: "field \<Rightarrow> nat" where
  "truncate_field_length fld = (if field_length fld > 4000 then 4000 else field_length fld)"

text \<open>
  The body of the loop \<^verbatim>\<open>for field_key in destination_fields.keys()\<close>, on the pair of lists
  \<^verbatim>\<open>(missing_fields, mismatching_fields)\<close>.
\<close>

fun check_field ::
  "(string \<times> field) list \<Rightarrow> string list \<times> string list \<Rightarrow> string \<times> field
   \<Rightarrow> string list \<times> string list" where
  "check_field source_fields (missing_fields, mismatching_fields) (field_key, destination_fld) =
     (case map_of source_fields field_key of
        None \<Rightarrow> (missing_fields @ [field_name destination_fld], mismatching_fields)
      | Some source_fld \<Rightarrow>
          if abstract_type (field_type source_fld) \<noteq> abstract_type (field_type destination_fld)
          then (missing_fields,
                mismatching_fields @
                  [field_name source_fld @ '': source type of '' @ field_type source_fld
                   @ '' does not match destination type of '' @ field_type destination_fld])
          else if field_type source_fld = ''String''
          then (let source_length = truncate_field_length source_fld;
                    destination_length = truncate_field_length destination_fld
                in if source_length \<noteq> destination_length
                   then (missing_fields,
                         mismatching_fields @
                           [field_name source_fld @ '': source length of '' @ str_nat source_length
                            @ '' does not match destination length of ''
                            @ str_nat destination_length])
                   else (missing_fields, mismatching_fields))
          else (missing_fields, mismatching_fields))"

definition collect_fields ::
  "(string \<times> field) list \<Rightarrow> (string \<times> field) list \<Rightarrow> string list \<times> string list" where
  "collect_fields source_fields destination_fields =
     foldl (check_field source_fields) ([], []) destination_fields"

text \<open>
  \<^verbatim>\<open>check_schema\<close> once both field lists are read: \<open>source\<close> is the path \<^verbatim>\<open>crate.source\<close>
  that the messages name. \<open>Inl\<close> is the raised \<^verbatim>\<open>ValidationException\<close>, \<open>Inr True\<close> the
  returned \<^verbatim>\<open>True\<close>.
\<close>

definition compare_schema :: "string \<Rightarrow> field list \<Rightarrow> field list \<Rightarrow> exn + bool" where
  "compare_schema source source_flds destination_flds =
     (case collect_fields (get_fields source_flds) (get_fields destination_flds) of
        (missing_fields, mismatching_fields) \<Rightarrow>
          if length missing_fields > 0
          then Inl (ValidationException
                 (''Missing fields in '' @ source @ '': '' @ join '', '' missing_fields))
          else if length mismatching_fields > 0
          then Inl (ValidationException
                 (''Mismatching fields in '' @ source @ '': '' @ join '', '' mismatching_fields))
          else Inr True)"

section \<open>Values, rows and digests\<close>

text \<open>
  The values stored in a dataset are opaque Python objects of type \<open>'v\<close>; a cell of a row is
  \<open>'v option\<close>, with \<open>None\<close> for Python's \<^verbatim>\<open>None\<close> (a NULL). What \<^verbatim>\<open>core.py\<close> takes from the
  Python library is a parameter of the model: \<^verbatim>\<open>repr\<close> and \<^verbatim>\<open>str\<close> of a value, and
  \<^verbatim>\<open>hashlib.md5(s).hexdigest()\<close>.
\<close>

record 'v python =
  py_repr :: "'v \<Rightarrow> string"
  py_str :: "'v \<Rightarrow> string"
  md5 :: "string \<Rightarrow> string"

definition repr_value :: "'v python \<Rightarrow> 'v option \<Rightarrow> string" where
  "repr_value py x = (case x of None \<Rightarrow> ''None'' | Some v \<Rightarrow> py_repr py v)"

definition str_value :: "'v python \<Rightarrow> 'v option \<Rightarrow> string" where
  "str_value py x = (case x of None \<Rightarrow> ''None'' | Some v \<Rightarrow> py_str py v)"

text \<open>\<^verbatim>\<open>str(t)\<close> of a tuple: the \<^verbatim>\<open>repr\<close> of its items, with the comma of the one-item tuple.\<close>

definition str_tuple :: "'v python \<Rightarrow> 'v option list \<Rightarrow> string" where
  "str_tuple py xs =
     ''('' @ join '', '' (map (repr_value py) xs) @ (if length xs = 1 then '',)'' else '')'')"

text \<open>
  \<^verbatim>\<open>_create_hash(string, salt)\<close>: \<^verbatim>\<open>md5(string)\<close> followed by \<^verbatim>\<open>update(str(salt))\<close> digests
  the concatenation. The salt is a counter that starts at 0 and is only incremented.
\<close>

definition create_hash :: "'v python \<Rightarrow> string \<Rightarrow> nat \<Rightarrow> string" where
  "create_hash py string salt = md5 py (string @ str_nat salt)"

text \<open>
  A row of a dataset: the attribute values by field name (an association list; a field
  without an entry is NULL, and \<open>cell r f\<close> reads field \<open>f\<close>) and the geometry, held as its
  well-known text (\<open>None\<close>: the null geometry, for which both \<^verbatim>\<open>SHAPE@WKT\<close> and \<^verbatim>\<open>SHAPE@\<close>
  are \<^verbatim>\<open>None\<close>). A row of the destination also has the object id the store gave it; a row
  of the scratch feature class also has the text field \<^verbatim>\<open>src_id_fl\<close>.
\<close>

record 'v row =
  vals :: "(string \<times> 'v) list"
  shape :: "string option"

definition cell :: "('v, 'm) row_scheme \<Rightarrow> string \<Rightarrow> 'v option" where
  "cell r f = map_of (vals r) f"

record 'v dest_row = "'v row" +
  oid :: nat

record 'v temp_row = "'v row" +
  src_id :: string

text \<open>
  A row as a cursor yields it: \<open>cells\<close> are the values of the requested fields that are
  not a geometry token, in order, \<open>wkt\<close> the value of the geometry token (\<open>None\<close> also when
  no token was requested). For a feature class the Python tuple is \<open>cells @ [wkt]\<close>, so
  \<^verbatim>\<open>row[:-2]\<close> is \<open>butlast cells\<close> and \<^verbatim>\<open>row[-2]\<close> is \<open>last cells\<close>; for a table the tuple is
  \<open>cells\<close>, \<^verbatim>\<open>row[:-1]\<close> is \<open>butlast cells\<close> and \<^verbatim>\<open>row[-1]\<close> is \<open>last cells\<close>.
\<close>

record 'v cursor_row =
  cells :: "'v option list"
  wkt :: "string option"

text \<open>
  A row of the cursor of the add phase, whose field list ends with the duplicated primary
  key: \<open>primary_key\<close> is \<^verbatim>\<open>str(row[-1])\<close>.
\<close>

record 'v add_row = "'v cursor_row" +
  primary_key :: string

definition is_token :: "string \<Rightarrow> bool" where
  "is_token f \<longleftrightarrow> f = ''SHAPE@WKT'' \<or> f = ''SHAPE@''"

definition value_fields :: "string list \<Rightarrow> string list" where
  "value_fields flds = filter (\<lambda>f. \<not> is_token f) flds"

definition make_vals :: "string list \<Rightarrow> 'v option list \<Rightarrow> (string \<times> 'v) list" where
  "make_vals names cs =
     List.map_filter (\<lambda>(f, c). map_option (Pair f) c) (zip names cs)"

section \<open>The crate and the change set\<close>

text \<open>
  Modelled from the spec: \<^verbatim>\<open>models.Crate\<close>, the dataset descriptor, is not among the
  sources. The record has the attributes \<^verbatim>\<open>core.py\<close> reads and that the model depends on;
  the methods \<^verbatim>\<open>is_table()\<close> and \<^verbatim>\<open>needs_reproject()\<close> are the flags of the descriptor.
  \<open>source_dataType\<close> is \<^verbatim>\<open>crate.source_describe.dataType\<close>. The result constants
  \<^verbatim>\<open>Crate.NO_CHANGES\<close>, ... are the five statuses of the spec.
\<close>

record crate =
  crate_name :: string
  crate_source :: string
  destination_workspace :: string
  source_primary_key :: string
  is_table :: bool
  needs_reproject :: bool
  geographic_transformation :: "string option"
  source_dataType :: string

datatype status = NO_CHANGES | CREATED | UPDATED | INVALID_DATA | UNHANDLED_EXCEPTION

text \<open>The datasets one call touches; they live at five different paths.\<close>

datatype dataset_ref = Source | Destination | HashTable | Temp | Projected

definition reproject_temp_suffix :: string where
  "reproject_temp_suffix = ''_fl''"

definition path_join :: "string \<Rightarrow> string \<Rightarrow> string" where
  "path_join a b = a @ ''/'' @ b"

definition scratch_gdb_path :: string where
  "scratch_gdb_path = path_join ''forklift-garage'' ''scratch.gdb''"

text \<open>
  The path \<^verbatim>\<open>changes.table\<close> holds: \<^verbatim>\<open>crate.source\<close>, the scratch feature class
  \<^verbatim>\<open>crate.name + '_fl'\<close>, or its projected copy \<^verbatim>\<open>changes.table + '_fl'\<close>.
\<close>

fun table_path :: "crate \<Rightarrow> dataset_ref \<Rightarrow> string" where
  "table_path crate Temp = path_join scratch_gdb_path (crate_name crate @ reproject_temp_suffix)"
| "table_path crate Projected =
     path_join scratch_gdb_path (crate_name crate @ reproject_temp_suffix) @ reproject_temp_suffix"
| "table_path crate r = crate_source crate"

text \<open>
  Modelled from the spec: the class \<^verbatim>\<open>models.Changes\<close> is not among the sources. The change
  set has the mappings \<open>adds\<close> and \<open>unchanged\<close> from \<^verbatim>\<open>str(primary key)\<close> to the digest pair,
  the set \<open>deletes\<close> of identifiers (\<^verbatim>\<open>_deletes\<close>), the field list, the table the add phase
  reads and the row counter. The mappings are association lists (Python dictionaries):
  \<open>AList.update\<close> is \<^verbatim>\<open>d[k] = v\<close>.
\<close>

type_synonym digests = "string \<times> string option"

record changes =
  adds :: "(string \<times> digests) list"
  unchanged :: "(string \<times> digests) list"
  deletes :: "string set"
  changes_fields :: "string list"
  changes_table :: dataset_ref
  total_rows :: int

definition Changes :: "string list \<Rightarrow> changes" where
  "Changes flds =
     \<lparr>adds = [], unchanged = [], deletes = {}, changes_fields = flds,
      changes_table = Source, total_rows = 0\<rparr>"

definition has_adds :: "changes \<Rightarrow> bool" where
  "has_adds c \<longleftrightarrow> adds c \<noteq> []"

definition has_deletes :: "changes \<Rightarrow> bool" where
  "has_deletes c \<longleftrightarrow> deletes c \<noteq> {}"

definition has_changes :: "changes \<Rightarrow> bool" where
  "has_changes c \<longleftrightarrow> has_adds c \<or> has_deletes c"

text \<open>
  Modelled from the spec: \<^verbatim>\<open>determine_deletes\<close>. "Whatever identifiers remain in either
  reverse lookup are deletes."
\<close>

definition determine_deletes ::
  "(string \<times> string) list \<Rightarrow> (string \<times> string) list \<Rightarrow> changes \<Rightarrow> changes" where
  "determine_deletes attribute_hashes geometry_hashes c =
     c\<lparr>deletes := snd ` set attribute_hashes \<union> snd ` set geometry_hashes\<rparr>"

section \<open>The dataset store\<close>

text \<open>
  The store behind \<^verbatim>\<open>arcpy\<close>, reduced to what one call of \<^verbatim>\<open>update\<close> touches: the source
  (its fields, and its rows in the order \<^verbatim>\<open>ORDER BY\<close> the primary key delivers them), the
  destination, the hash table of the crate in \<^verbatim>\<open>hashes.gdb\<close>, the scratch feature class and
  its projected copy, the edit session bound to the Python variable \<^verbatim>\<open>edit_session\<close>
  (\<open>None\<close>: the variable is not bound), the environment setting
  \<^verbatim>\<open>arcpy.env.geographicTransformations\<close> and the warnings logged for empty geometries (the
  other log lines are left out: they change nothing). \<open>faults\<close> is the schedule of store
  faults: every call into \<^verbatim>\<open>arcpy\<close> takes the head of the schedule and raises it when it is
  \<open>Some e\<close>.
\<close>

record hash_row =
  hash_id :: string
  att_hash :: "string option"
  geom_hash :: "string option"

record 'v table =
  table_fields :: "field list"
  oid_field :: string
  table_rows :: "'v dest_row list"
  next_oid :: nat

datatype 'v editor = Idle | Editing "'v table option"

record 'v world =
  faults :: "exn option list"
  src_exists :: bool
  src_flds :: "field list"
  src_rows :: "'v row list"
  projection :: "string \<Rightarrow> string"
  workspace_exists :: bool
  dest :: "'v table option"
  hash_tbl :: "hash_row list option"
  temp_tbl :: "'v temp_row list option"
  proj_tbl :: "'v temp_row list option"
  edit_session :: "'v editor option"
  env_transformations :: "string option"
  warnings :: "string list"

subsection \<open>Programs: state passing with exceptions\<close>

type_synonym ('w, 'a) prog = "'w \<Rightarrow> (exn + 'a) \<times> 'w"

definition ret :: "'a \<Rightarrow> ('w, 'a) prog" where
  "ret x = (\<lambda>w. (Inr x, w))"

definition throw :: "exn \<Rightarrow> ('w, 'a) prog" where
  "throw e = (\<lambda>w. (Inl e, w))"

definition bind :: "('w, 'a) prog \<Rightarrow> ('a \<Rightarrow> ('w, 'b) prog) \<Rightarrow> ('w, 'b) prog" where
  "bind m k = (\<lambda>w. case m w of (Inl e, w') \<Rightarrow> (Inl e, w') | (Inr x, w') \<Rightarrow> k x w')"

definition seq :: "('w, 'a) prog \<Rightarrow> ('w, 'b) prog \<Rightarrow> ('w, 'b) prog" where
  "seq m n = bind m (\<lambda>_. n)"

text \<open>\<^verbatim>\<open>for x in xs\<close> with the loop's variables as a state; \<^verbatim>\<open>continue\<close> returns the state.\<close>

fun for_each :: "'a list \<Rightarrow> ('a \<Rightarrow> 's \<Rightarrow> ('w, 's) prog) \<Rightarrow> 's \<Rightarrow> ('w, 's) prog" where
  "for_each [] body s = ret s"
| "for_each (x # xs) body s = bind (body x s) (for_each xs body)"

text \<open>\<^verbatim>\<open>try: m except Exception as e: h e\<close>, and \<^verbatim>\<open>try: m except: pass\<close>.\<close>

definition try_except :: "('w, 'a) prog \<Rightarrow> (exn \<Rightarrow> ('w, 'a) prog) \<Rightarrow> ('w, 'a) prog" where
  "try_except m h = (\<lambda>w. case m w of (Inl e, w') \<Rightarrow> h e w' | (Inr x, w') \<Rightarrow> (Inr x, w'))"

definition swallow :: "('w, 'a) prog \<Rightarrow> ('w, unit) prog" where
  "swallow m = (\<lambda>w. case m w of (Inl e, w') \<Rightarrow> (Inr (), w') | (Inr x, w') \<Rightarrow> (Inr (), w'))"

text \<open>\<^verbatim>\<open>d.pop(k)\<close> raises \<^verbatim>\<open>KeyError\<close> when the key is missing.\<close>

definition pop :: "string \<Rightarrow> (string \<times> 'a) list \<Rightarrow> ('w, (string \<times> 'a) list) prog" where
  "pop k d = (if k \<in> fst ` set d then ret (AList.delete k d) else throw (Exception k))"

subsection \<open>The calls into arcpy\<close>

text \<open>A call into \<^verbatim>\<open>arcpy\<close>: the fault scheduled for it, or what the call does.\<close>

definition arcpy :: "('v world, 'a) prog \<Rightarrow> ('v world, 'a) prog" where
  "arcpy f =
     (\<lambda>w. case faults w of
             [] \<Rightarrow> f w
           | None # fs \<Rightarrow> f (w\<lparr>faults := fs\<rparr>)
           | Some e # fs \<Rightarrow> (Inl e, w\<lparr>faults := fs\<rparr>))"

fun exists_in :: "'v world \<Rightarrow> dataset_ref \<Rightarrow> bool" where
  "exists_in w Source = src_exists w"
| "exists_in w Destination = (dest w \<noteq> None)"
| "exists_in w HashTable = (hash_tbl w \<noteq> None)"
| "exists_in w Temp = (temp_tbl w \<noteq> None)"
| "exists_in w Projected = (proj_tbl w \<noteq> None)"

fun delete_in :: "'v world \<Rightarrow> dataset_ref \<Rightarrow> 'v world" where
  "delete_in w Source = w\<lparr>src_exists := False\<rparr>"
| "delete_in w Destination = w\<lparr>dest := None\<rparr>"
| "delete_in w HashTable = w\<lparr>hash_tbl := None\<rparr>"
| "delete_in w Temp = w\<lparr>temp_tbl := None\<rparr>"
| "delete_in w Projected = w\<lparr>proj_tbl := None\<rparr>"

definition not_found :: exn where
  "not_found = Exception ''dataset does not exist''"

definition Exists :: "dataset_ref \<Rightarrow> ('v world, bool) prog" where
  "Exists r = arcpy (\<lambda>w. (Inr (exists_in w r), w))"

definition Delete_management :: "dataset_ref \<Rightarrow> ('v world, unit) prog" where
  "Delete_management r =
     arcpy (\<lambda>w. if exists_in w r then (Inr (), delete_in w r) else (Inl not_found, w))"

definition ListFields :: "dataset_ref \<Rightarrow> ('v world, field list) prog" where
  "ListFields r =
     arcpy (\<lambda>w. case r of
                   Source \<Rightarrow> if src_exists w then (Inr (src_flds w), w) else (Inl not_found, w)
                 | Destination \<Rightarrow>
                     (case dest w of
                        None \<Rightarrow> (Inl not_found, w)
                      | Some t \<Rightarrow> (Inr (table_fields t), w))
                 | _ \<Rightarrow> (Inl not_found, w))"

definition Describe :: "dataset_ref \<Rightarrow> ('v world, unit) prog" where
  "Describe r = arcpy (\<lambda>w. if exists_in w r then (Inr (), w) else (Inl not_found, w))"

definition CreateFileGDB_management :: "('v world, unit) prog" where
  "CreateFileGDB_management = arcpy (\<lambda>w. (Inr (), w\<lparr>workspace_exists := True\<rparr>))"

text \<open>
  A dataset created from a template has the store's own object id field and the template's
  fields that are not an object id; it has no rows.
\<close>

definition objectid_field :: field where
  "objectid_field = \<lparr>field_name = ''OBJECTID'', field_type = ''OID'', field_length = 4\<rparr>"

definition template_fields :: "field list \<Rightarrow> field list" where
  "template_fields flds = objectid_field # filter (\<lambda>f. field_type f \<noteq> ''OID'') flds"

definition new_table :: "field list \<Rightarrow> 'v table" where
  "new_table flds =
     \<lparr>table_fields = template_fields flds, oid_field = ''OBJECTID'', table_rows = [],
      next_oid = 1\<rparr>"

text \<open>
  \<^verbatim>\<open>CreateTable_management\<close> and \<^verbatim>\<open>CreateFeatureclass_management\<close>: the destination from the
  source as template, the hash table and the scratch feature class empty.
\<close>

definition create_dataset :: "dataset_ref \<Rightarrow> ('v world, unit) prog" where
  "create_dataset r =
     arcpy (\<lambda>w. case r of
                   Destination \<Rightarrow>
                     if workspace_exists w \<and> src_exists w
                     then (Inr (), w\<lparr>dest := Some (new_table (src_flds w))\<rparr>)
                     else (Inl not_found, w)
                 | HashTable \<Rightarrow> (Inr (), w\<lparr>hash_tbl := Some []\<rparr>)
                 | Temp \<Rightarrow>
                     if src_exists w then (Inr (), w\<lparr>temp_tbl := Some []\<rparr>)
                     else (Inl not_found, w)
                 | _ \<Rightarrow> (Inl (Exception ''cannot create''), w))"

definition CreateTable_management :: "dataset_ref \<Rightarrow> ('v world, unit) prog" where
  "CreateTable_management r = create_dataset r"

definition CreateFeatureclass_management :: "dataset_ref \<Rightarrow> ('v world, unit) prog" where
  "CreateFeatureclass_management r = create_dataset r"

text \<open>
  \<^verbatim>\<open>AddField_management\<close>: the fields of the hash table and of the scratch feature class are
  fixed in the model, so only a field added to the destination shows. A \<^verbatim>\<open>LONG\<close> field is
  listed with type \<^verbatim>\<open>Integer\<close>.
\<close>

definition AddField_management :: "dataset_ref \<Rightarrow> string \<Rightarrow> string \<Rightarrow> ('v world, unit) prog" where
  "AddField_management r fname ftype =
     arcpy (\<lambda>w. case r of
                   Destination \<Rightarrow>
                     (case dest w of
                        None \<Rightarrow> (Inl not_found, w)
                      | Some t \<Rightarrow>
                          (Inr (),
                           w\<lparr>dest := Some (t\<lparr>table_fields := table_fields t @
                                [\<lparr>field_name = fname,
                                  field_type = (if ftype = ''LONG'' then ''Integer'' else ftype),
                                  field_length = 4\<rparr>]\<rparr>)\<rparr>))
                 | _ \<Rightarrow> if exists_in w r then (Inr (), w) else (Inl not_found, w))"

definition TruncateTable_management :: "('v world, unit) prog" where
  "TruncateTable_management =
     arcpy (\<lambda>w. case dest w of
                   None \<Rightarrow> (Inl not_found, w)
                 | Some t \<Rightarrow> (Inr (), w\<lparr>dest := Some (t\<lparr>table_rows := []\<rparr>)\<rparr>))"

definition ResetEnvironments :: "'v world \<Rightarrow> 'v world" where
  "ResetEnvironments w = w\<lparr>env_transformations := None\<rparr>"

definition log_warn :: "string \<Rightarrow> ('v world, unit) prog" where
  "log_warn msg = (\<lambda>w. (Inr (), w\<lparr>warnings := warnings w @ [msg]\<rparr>))"

subsection \<open>Edit sessions\<close>

text \<open>
  \<^verbatim>\<open>arcpy.da.Editor(workspace)\<close> binds the variable to a new session; \<^verbatim>\<open>startEditing\<close>
  remembers the destination, \<^verbatim>\<open>stopEditing(True)\<close> keeps the edits and \<^verbatim>\<open>stopEditing(False)\<close>
  goes back to the remembered destination. A method called on the unbound variable, or in
  the wrong state of the session, raises.
\<close>

definition session_error :: exn where
  "session_error = Exception ''edit session''"

definition Editor :: "('v world, unit) prog" where
  "Editor = arcpy (\<lambda>w. (Inr (), w\<lparr>edit_session := Some Idle\<rparr>))"

definition startEditing :: "('v world, unit) prog" where
  "startEditing =
     arcpy (\<lambda>w. case edit_session w of
                   Some Idle \<Rightarrow> (Inr (), w\<lparr>edit_session := Some (Editing (dest w))\<rparr>)
                 | _ \<Rightarrow> (Inl session_error, w))"

definition in_session :: "('v world, unit) prog" where
  "in_session =
     arcpy (\<lambda>w. case edit_session w of
                   Some (Editing snapshot) \<Rightarrow> (Inr (), w)
                 | _ \<Rightarrow> (Inl session_error, w))"

definition startOperation :: "('v world, unit) prog" where
  "startOperation = in_session"

definition stopOperation :: "('v world, unit) prog" where
  "stopOperation = in_session"

definition abortOperation :: "('v world, unit) prog" where
  "abortOperation = in_session"

definition stopEditing :: "bool \<Rightarrow> ('v world, unit) prog" where
  "stopEditing save_changes =
     arcpy (\<lambda>w. case edit_session w of
                   Some (Editing snapshot) \<Rightarrow>
                     if save_changes then (Inr (), w\<lparr>edit_session := Some Idle\<rparr>)
                     else (Inr (), w\<lparr>dest := snapshot, edit_session := Some Idle\<rparr>)
                 | _ \<Rightarrow> (Inl session_error, w))"

subsection \<open>Cursors\<close>

text \<open>
  A cursor is opened on a dataset with a list of fields, each of which must be a field of
  the dataset or a geometry token. \<^verbatim>\<open>SearchCursor(crate.source, fields, sql_clause)\<close> yields
  the rows of the source in primary-key order.
\<close>

definition field_names :: "field list \<Rightarrow> string list" where
  "field_names flds = map field_name flds"

definition has_token :: "string list \<Rightarrow> bool" where
  "has_token flds \<longleftrightarrow> (\<exists>f \<in> set flds. is_token f)"

definition read_row :: "string list \<Rightarrow> 'v row \<Rightarrow> 'v cursor_row" where
  "read_row flds r =
     \<lparr>cells = map (cell r) (value_fields flds),
      wkt = (if has_token flds then shape r else None)\<rparr>"

definition cursor_error :: exn where
  "cursor_error = Exception ''cannot open cursor''"

definition SearchCursor_source :: "string list \<Rightarrow> ('v world, 'v cursor_row list) prog" where
  "SearchCursor_source flds =
     arcpy (\<lambda>w. if src_exists w \<and> set (value_fields flds) \<subseteq> set (field_names (src_flds w))
                then (Inr (map (read_row flds) (src_rows w)), w)
                else (Inl cursor_error, w))"

definition SearchCursor_hash :: "('v world, hash_row list) prog" where
  "SearchCursor_hash =
     arcpy (\<lambda>w. case hash_tbl w of
                   None \<Rightarrow> (Inl cursor_error, w)
                 | Some rows \<Rightarrow> (Inr rows, w))"

text \<open>
  The cursor of the add phase, \<^verbatim>\<open>SearchCursor(changes.table, changes.fields, where_clause)\<close>.
  The last field is the duplicated primary key (the source) or \<^verbatim>\<open>src_id_fl\<close> (the scratch
  tables); the fields before it give the cells.
  Modelled from the spec: the clause of \<^verbatim>\<open>get_adds_where_clause\<close>, which is not among the
  sources, selects the rows whose key is a key of \<open>adds\<close> ("read back filtered to just the
  add keys").
\<close>

definition read_add_row :: "'v python \<Rightarrow> string list \<Rightarrow> 'v row \<Rightarrow> 'v add_row" where
  "read_add_row py flds r =
     \<lparr>cells = map (cell r) (butlast (value_fields flds)),
      wkt = (if has_token flds then shape r else None),
      primary_key = str_value py (cell r (last (value_fields flds)))\<rparr>"

definition read_temp_row :: "string list \<Rightarrow> 'v temp_row \<Rightarrow> 'v add_row" where
  "read_temp_row flds r =
     \<lparr>cells = map (cell r) (butlast (value_fields flds)),
      wkt = (if has_token flds then shape r else None),
      primary_key = src_id r\<rparr>"

definition adds_where_clause :: "changes \<Rightarrow> 'v add_row \<Rightarrow> bool" where
  "adds_where_clause c r \<longleftrightarrow> primary_key r \<in> fst ` set (adds c)"

definition SearchCursor_adds ::
  "'v python \<Rightarrow> changes \<Rightarrow> ('v world, 'v add_row list) prog" where
  "SearchCursor_adds py c =
     arcpy (\<lambda>w. case changes_table c of
                   Source \<Rightarrow>
                     if src_exists w
                        \<and> set (value_fields (changes_fields c)) \<subseteq> set (field_names (src_flds w))
                     then (Inr (filter (adds_where_clause c)
                                  (map (read_add_row py (changes_fields c)) (src_rows w))), w)
                     else (Inl cursor_error, w)
                 | Temp \<Rightarrow>
                     (case temp_tbl w of
                        None \<Rightarrow> (Inl cursor_error, w)
                      | Some rows \<Rightarrow>
                          (Inr (filter (adds_where_clause c)
                                  (map (read_temp_row (changes_fields c)) rows)), w))
                 | Projected \<Rightarrow>
                     (case proj_tbl w of
                        None \<Rightarrow> (Inl cursor_error, w)
                      | Some rows \<Rightarrow>
                          (Inr (filter (adds_where_clause c)
                                  (map (read_temp_row (changes_fields c)) rows)), w))
                 | _ \<Rightarrow> (Inl cursor_error, w))"

text \<open>
  \<^verbatim>\<open>InsertCursor\<close> on the scratch feature class, the destination and the hash table.
  \<^verbatim>\<open>insertRow\<close> on the destination returns the object id the store gives the new row; the
  hash table keeps it as text in \<^verbatim>\<open>Id\<close>.
\<close>

definition InsertCursor :: "dataset_ref \<Rightarrow> string list \<Rightarrow> ('v world, unit) prog" where
  "InsertCursor r flds =
     arcpy (\<lambda>w. case r of
                   Destination \<Rightarrow>
                     (case dest w of
                        None \<Rightarrow> (Inl cursor_error, w)
                      | Some t \<Rightarrow>
                          if set (value_fields flds) \<subseteq> set (field_names (table_fields t))
                          then (Inr (), w) else (Inl cursor_error, w))
                 | _ \<Rightarrow> if exists_in w r then (Inr (), w) else (Inl cursor_error, w))"

definition insertRow_temp ::
  "'v python \<Rightarrow> string list \<Rightarrow> 'v cursor_row \<Rightarrow> 'v option \<Rightarrow> ('v world, unit) prog" where
  "insertRow_temp py flds row src =
     arcpy (\<lambda>w. case temp_tbl w of
                   None \<Rightarrow> (Inl cursor_error, w)
                 | Some rows \<Rightarrow>
                     (Inr (),
                      w\<lparr>temp_tbl := Some (rows @
                           [\<lparr>vals = make_vals (butlast (value_fields flds)) (cells row),
                             shape = wkt row, src_id = str_value py src\<rparr>])\<rparr>))"

definition insertRow_destination ::
  "string list \<Rightarrow> 'v add_row \<Rightarrow> ('v world, nat) prog" where
  "insertRow_destination flds row =
     arcpy (\<lambda>w. case dest w of
                   None \<Rightarrow> (Inl cursor_error, w)
                 | Some t \<Rightarrow>
                     (Inr (next_oid t),
                      w\<lparr>dest := Some (t\<lparr>table_rows := table_rows t @
                                 [\<lparr>vals = make_vals (value_fields flds) (cells row),
                                   shape = wkt row, oid = next_oid t\<rparr>],
                               next_oid := Suc (next_oid t)\<rparr>)\<rparr>))"

definition insertRow_hash :: "nat \<Rightarrow> digests \<Rightarrow> ('v world, unit) prog" where
  "insertRow_hash dest_id ds =
     arcpy (\<lambda>w. case hash_tbl w of
                   None \<Rightarrow> (Inl cursor_error, w)
                 | Some rows \<Rightarrow>
                     (Inr (),
                      w\<lparr>hash_tbl := Some (rows @
                           [\<lparr>hash_id = str_nat dest_id, att_hash = Some (fst ds),
                             geom_hash = snd ds\<rparr>])\<rparr>))"

text \<open>
  \<^verbatim>\<open>UpdateCursor\<close> with a clause, and \<^verbatim>\<open>deleteRow\<close> on its current row.
  Modelled from the spec: the clause of \<^verbatim>\<open>get_deletes_where_clause(key, key_type)\<close>, which
  is not among the sources, selects the rows whose value in the field \<open>key\<close> is one of
  \<open>deletes\<close> ("delete destination records whose primary key is in changes.deletes", "delete
  hash-index rows for the same identifiers"). In the destination the value of the store's
  object id field is the row's object id.
\<close>

definition dest_key :: "'v python \<Rightarrow> 'v table \<Rightarrow> string \<Rightarrow> 'v dest_row \<Rightarrow> string option" where
  "dest_key py t key r =
     (if key = oid_field t then Some (str_nat (oid r)) else map_option (py_str py) (cell r key))"

definition deletes_where_clause ::
  "'v python \<Rightarrow> changes \<Rightarrow> 'v table \<Rightarrow> string \<Rightarrow> 'v dest_row \<Rightarrow> bool" where
  "deletes_where_clause py c t key r =
     (case dest_key py t key r of None \<Rightarrow> False | Some k \<Rightarrow> k \<in> deletes c)"

definition UpdateCursor_destination ::
  "'v python \<Rightarrow> changes \<Rightarrow> string \<Rightarrow> ('v world, 'v dest_row list) prog" where
  "UpdateCursor_destination py c key =
     arcpy (\<lambda>w. case dest w of
                   None \<Rightarrow> (Inl cursor_error, w)
                 | Some t \<Rightarrow>
                     if key \<in> set (field_names (table_fields t))
                     then (Inr (filter (deletes_where_clause py c t key) (table_rows t)), w)
                     else (Inl cursor_error, w))"

definition deleteRow_destination :: "'v dest_row \<Rightarrow> unit \<Rightarrow> ('v world, unit) prog" where
  "deleteRow_destination r u =
     arcpy (\<lambda>w. case dest w of
                   None \<Rightarrow> (Inl cursor_error, w)
                 | Some t \<Rightarrow> (Inr (), w\<lparr>dest := Some (t\<lparr>table_rows := remove1 r (table_rows t)\<rparr>)\<rparr>))"

definition UpdateCursor_hash :: "changes \<Rightarrow> ('v world, hash_row list) prog" where
  "UpdateCursor_hash c =
     arcpy (\<lambda>w. case hash_tbl w of
                   None \<Rightarrow> (Inl cursor_error, w)
                 | Some rows \<Rightarrow> (Inr (filter (\<lambda>r. hash_id r \<in> deletes c) rows), w))"

definition deleteRow_hash :: "hash_row \<Rightarrow> unit \<Rightarrow> ('v world, unit) prog" where
  "deleteRow_hash r u =
     arcpy (\<lambda>w. case hash_tbl w of
                   None \<Rightarrow> (Inl cursor_error, w)
                 | Some rows \<Rightarrow> (Inr (), w\<lparr>hash_tbl := Some (remove1 r rows)\<rparr>))"

text \<open>
  \<^verbatim>\<open>Project_management(changes.table, changes.table + '_fl', ...)\<close>: the projected copy of the
  scratch feature class.
\<close>

definition Project_management :: "dataset_ref \<Rightarrow> ('v world, dataset_ref) prog" where
  "Project_management r =
     arcpy (\<lambda>w. case r of
                   Temp \<Rightarrow>
                     (case temp_tbl w of
                        None \<Rightarrow> (Inl not_found, w)
                      | Some rows \<Rightarrow>
                          (Inr Projected,
                           w\<lparr>proj_tbl :=
                                Some (map (\<lambda>r. r\<lparr>shape := map_option (projection w) (shape r)\<rparr>)
                                        rows)\<rparr>))
                 | _ \<Rightarrow> (Inl not_found, w))"

section \<open>Change computation: \<^verbatim>\<open>_hash\<close>\<close>

definition shape_token :: string where
  "shape_token = ''SHAPE@WKT''"

definition src_id_field :: string where
  "src_id_field = ''src_id'' @ reproject_temp_suffix"

text \<open>
  \<^verbatim>\<open>_get_hash_lookups\<close>: the two reverse lookups, from digest to identifier, read from the
  hash table.
\<close>

definition hash_lookup_row ::
  "(string \<times> string) list \<times> (string \<times> string) list \<Rightarrow> hash_row
   \<Rightarrow> (string \<times> string) list \<times> (string \<times> string) list" where
  "hash_lookup_row lookups r =
     (case lookups of
        (hash_lookup, geo_hash_lookup) \<Rightarrow>
          ((case att_hash r of
              None \<Rightarrow> hash_lookup
            | Some a \<Rightarrow> AList.update a (hash_id r) hash_lookup),
           (case geom_hash r of
              None \<Rightarrow> geo_hash_lookup
            | Some g \<Rightarrow> AList.update g (hash_id r) geo_hash_lookup)))"

definition get_hash_lookups ::
  "('v world, (string \<times> string) list \<times> (string \<times> string) list) prog" where
  "get_hash_lookups = bind SearchCursor_hash (\<lambda>rows. ret (foldl hash_lookup_row ([], []) rows))"

text \<open>The variables of the loop over the source rows.\<close>

record hash_state =
  changes :: changes
  attribute_hashes :: "(string \<times> string) list"
  geometry_hashes :: "(string \<times> string) list"
  row_count :: int
  unique_salty_id :: nat

text \<open>
  The body of \<^verbatim>\<open>for row in cursor\<close> in \<^verbatim>\<open>_hash\<close>; \<open>row_count\<close> is the local \<^verbatim>\<open>total_rows\<close>.
\<close>

definition hash_row ::
  "'v python \<Rightarrow> crate \<Rightarrow> bool \<Rightarrow> 'v cursor_row \<Rightarrow> hash_state \<Rightarrow> ('v world, hash_state) prog" where
  "hash_row py crate needs_reproj row s0 =
     (let s = s0\<lparr>row_count := row_count s0 + 1, unique_salty_id := unique_salty_id s0 + 1\<rparr>
      in if \<not> is_table crate \<and> wkt row = None
         then seq (log_warn (''Empty geometry found in '' @ source_primary_key crate @ '': ''
                             @ str_value py (last (cells row))))
                  (ret (s\<lparr>row_count := row_count s - 1\<rparr>))
         else
           (let geom_hash_digest =
                  (if \<not> is_table crate
                   then map_option (\<lambda>shape_wkt. create_hash py shape_wkt (unique_salty_id s))
                          (wkt row)
                   else None);
                attribute_hash_digest =
                  create_hash py (str_tuple py (butlast (cells row))) (unique_salty_id s);
                src = last (cells row)
            in if attribute_hash_digest \<notin> fst ` set (attribute_hashes s)
                  \<or> (case geom_hash_digest of
                        None \<Rightarrow> False
                      | Some g \<Rightarrow> g \<notin> fst ` set (geometry_hashes s))
               then seq (if needs_reproj
                         then insertRow_temp py (changes_fields (changes s)) row src
                         else ret ())
                        (ret (s\<lparr>changes := (changes s)\<lparr>adds :=
                                AList.update (str_value py src)
                                  (attribute_hash_digest, geom_hash_digest)
                                  (adds (changes s))\<rparr>\<rparr>))
               else bind (pop attribute_hash_digest (attribute_hashes s)) (\<lambda>attribute_hashes'.
                    bind (case geom_hash_digest of
                            None \<Rightarrow> ret (geometry_hashes s)
                          | Some g \<Rightarrow> pop g (geometry_hashes s)) (\<lambda>geometry_hashes'.
                    ret (s\<lparr>attribute_hashes := attribute_hashes',
                           geometry_hashes := geometry_hashes',
                           changes := (changes s)\<lparr>unchanged :=
                             AList.update (str_value py src)
                               (attribute_hash_digest, geom_hash_digest)
                               (unchanged (changes s))\<rparr>\<rparr>)))))"

text \<open>
  The scratch feature class of a crate that needs reprojection. Its shape type is read from
  \<^verbatim>\<open>crate.source_describe.shapeType\<close>, which a table does not have.
\<close>

definition create_scratch :: "crate \<Rightarrow> changes \<Rightarrow> ('v world, changes) prog" where
  "create_scratch crate c =
     (if is_table crate then throw (Exception ''shapeType'')
      else seq (CreateFeatureclass_management Temp)
          (seq (AddField_management Temp src_id_field ''TEXT'')
          (seq (if source_dataType crate = ''ShapeFile''
                then AddField_management Temp ''FID'' ''LONG'' else ret ())
          (let c' = c\<lparr>changes_table := Temp,
                      changes_fields :=
                        (changes_fields c)[length (changes_fields c) - 1 := src_id_field]\<rparr>
           in seq (InsertCursor Temp (changes_fields c')) (ret c')))))"

definition common_fields :: "field list \<Rightarrow> field list \<Rightarrow> string list" where
  "common_fields destination_flds source_flds =
     filter (\<lambda>f. f \<in> set (field_names source_flds)) (remdups (field_names destination_flds))"

text \<open>
  \<^verbatim>\<open>_hash(crate, hash_path, needs_reproject)\<close>, in four parts: the block that creates a
  missing hash table and truncates the destination; the fields of the cursor (the common
  fields, filtered, with the primary key last and the geometry token after it for a feature
  class); the change set \<^verbatim>\<open>Changes(list(fields))\<close> with the primary key appended a second
  time; and the rest, from \<^verbatim>\<open>_get_hash_lookups\<close> to the return.
\<close>

definition ensure_hash_table :: "('v world, unit) prog" where
  "ensure_hash_table =
     bind (Exists HashTable) (\<lambda>hash_exists.
       if \<not> hash_exists
       then seq (CreateTable_management HashTable)
           (seq (AddField_management HashTable ''Id'' ''TEXT'')
           (seq (AddField_management HashTable ''att_hash'' ''TEXT'')
           (seq (AddField_management HashTable ''geom_hash'' ''TEXT'')
                TruncateTable_management)))
       else ret ())"

definition hash_fields :: "crate \<Rightarrow> field list \<Rightarrow> field list \<Rightarrow> string list" where
  "hash_fields crate destination_flds source_flds =
     (let flds = filter_fields (common_fields destination_flds source_flds)
                   (source_primary_key crate)
      in if \<not> is_table crate then flds @ [shape_token] else flds)"

definition source_changes :: "crate \<Rightarrow> string list \<Rightarrow> changes" where
  "source_changes crate flds =
     (let c = (Changes flds)\<lparr>changes_table := Source\<rparr>
      in c\<lparr>changes_fields := changes_fields c @ [source_primary_key crate]\<rparr>)"

definition finish_changes :: "hash_state \<Rightarrow> changes" where
  "finish_changes s =
     (determine_deletes (attribute_hashes s) (geometry_hashes s) (changes s))
       \<lparr>total_rows := row_count s\<rparr>"

definition hash_scan ::
  "'v python \<Rightarrow> crate \<Rightarrow> bool \<Rightarrow> string list \<Rightarrow> ('v world, changes) prog" where
  "hash_scan py crate needs_reproj flds =
     bind get_hash_lookups (\<lambda>lookups.
     bind (if needs_reproj then create_scratch crate (source_changes crate flds)
           else ret (source_changes crate flds)) (\<lambda>c.
     bind (SearchCursor_source flds) (\<lambda>rows.
     bind (for_each rows (hash_row py crate needs_reproj)
             \<lparr>changes = c, attribute_hashes = fst lookups, geometry_hashes = snd lookups,
              row_count = 0, unique_salty_id = 0\<rparr>) (\<lambda>s.
     ret (finish_changes s)))))"

definition hash :: "'v python \<Rightarrow> crate \<Rightarrow> bool \<Rightarrow> ('v world, changes) prog" where
  "hash py crate needs_reproj =
     seq ensure_hash_table
    (bind (ListFields Destination) (\<lambda>destination_flds.
     bind (ListFields Source) (\<lambda>source_flds.
     hash_scan py crate needs_reproj (hash_fields crate destination_flds source_flds))))"

section \<open>Creating the destination and validating\<close>

text \<open>
  \<^verbatim>\<open>_create_destination_data(crate)\<close>. \<^verbatim>\<open>path.exists\<close> reads \<open>workspace_exists\<close>.
\<close>

definition create_destination_data :: "crate \<Rightarrow> ('v world, unit) prog" where
  "create_destination_data crate =
     seq (\<lambda>w. if \<not> workspace_exists w
               then (if endswith (destination_workspace crate) ''.gdb''
                     then CreateFileGDB_management w
                     else throw (Exception (''destination_workspace does not exist! ''
                                            @ destination_workspace crate)) w)
               else ret () w)
         (if is_table crate
          then CreateTable_management Destination
          else seq (Describe Source)
              (seq (CreateFeatureclass_management Destination)
                   (if source_dataType crate = ''ShapeFile''
                    then AddField_management Destination ''FID'' ''LONG''
                    else ret ())))"

text \<open>
  \<^verbatim>\<open>check_schema(crate)\<close>: the two field lists are read, then compared.
\<close>

definition check_schema :: "crate \<Rightarrow> ('v world, bool) prog" where
  "check_schema crate =
     bind (ListFields Source) (\<lambda>source_flds.
     bind (ListFields Destination) (\<lambda>destination_flds.
     (case compare_schema (crate_source crate) source_flds destination_flds of
        Inl e \<Rightarrow> throw e
      | Inr b \<Rightarrow> ret b)))"

text \<open>
  The validation hook of the pallet: it reads the store and returns \<^verbatim>\<open>NotImplemented\<close> to ask
  for the default schema check, returns something else, or raises.
\<close>

datatype validation = NotImplemented | Validated

type_synonym 'v validator = "crate \<Rightarrow> 'v world \<Rightarrow> exn + validation"

text \<open>
  The inner \<^verbatim>\<open>try\<close> of \<^verbatim>\<open>update\<close>: \<open>Some message\<close> when a \<^verbatim>\<open>ValidationException\<close> was caught
  (\<^verbatim>\<open>update\<close> then returns \<^verbatim>\<open>INVALID_DATA\<close>), \<open>None\<close> when validation passed; any other
  exception goes on.
\<close>

definition validate :: "crate \<Rightarrow> 'v validator \<Rightarrow> ('v world, string option) prog" where
  "validate crate validate_crate =
     (\<lambda>w. case bind (\<lambda>w. (validate_crate crate w, w)) (\<lambda>has_custom.
                  if has_custom = NotImplemented
                  then seq (check_schema crate) (ret ())
                  else ret ()) w of
             (Inl (ValidationException m), w') \<Rightarrow> (Inr (Some m), w')
           | (Inl e, w') \<Rightarrow> (Inl e, w')
           | (Inr u, w') \<Rightarrow> (Inr None, w'))"

section \<open>The synchronizer: \<^verbatim>\<open>update\<close>\<close>

type_synonym outcome = "status \<times> string option"

definition mark_updated :: "outcome \<Rightarrow> outcome" where
  "mark_updated change_status =
     (case change_status of
        (status, msg) \<Rightarrow> if status \<noteq> CREATED then (UPDATED, None) else change_status)"

text \<open>The block under \<^verbatim>\<open>if changes.has_deletes()\<close>.\<close>

definition apply_deletes ::
  "'v python \<Rightarrow> crate \<Rightarrow> changes \<Rightarrow> outcome \<Rightarrow> ('v world, outcome) prog" where
  "apply_deletes py crate c change_status =
     seq Editor
    (seq startEditing
    (seq startOperation
    (bind (UpdateCursor_destination py c (source_primary_key crate)) (\<lambda>rows.
     seq (for_each rows deleteRow_destination ())
    (seq stopOperation
    (seq (stopEditing True)
    (bind (UpdateCursor_hash c) (\<lambda>hash_rows.
     seq (for_each hash_rows deleteRow_hash ())
         (ret (mark_updated change_status))))))))))"

text \<open>
  The body of \<^verbatim>\<open>for row in add_cursor\<close>. The \<^verbatim>\<open>KeyError\<close> of \<^verbatim>\<open>changes.adds[...]\<close> is caught
  and \<^verbatim>\<open>changes.unchanged[...]\<close> is tried; a \<^verbatim>\<open>KeyError\<close> there goes on.
\<close>

definition add_row ::
  "crate \<Rightarrow> changes \<Rightarrow> string list \<Rightarrow> 'v add_row \<Rightarrow> unit \<Rightarrow> ('v world, unit) prog" where
  "add_row crate c flds row u =
     (if \<not> is_table crate \<and> wkt row = None then ret ()
      else bind (insertRow_destination flds row) (\<lambda>dest_id.
           (case map_of (adds c) (primary_key row) of
              Some ds \<Rightarrow> insertRow_hash dest_id ds
            | None \<Rightarrow>
                (case map_of (unchanged c) (primary_key row) of
                   Some ds \<Rightarrow> insertRow_hash dest_id ds
                 | None \<Rightarrow> throw (Exception (primary_key row))))))"

text \<open>The block under \<^verbatim>\<open>if changes.has_adds()\<close>.\<close>

definition apply_adds ::
  "'v python \<Rightarrow> crate \<Rightarrow> bool \<Rightarrow> changes \<Rightarrow> outcome \<Rightarrow> ('v world, outcome) prog" where
  "apply_adds py crate needs_reproj c0 change_status =
     bind (if needs_reproj
           then bind (Project_management (changes_table c0)) (\<lambda>t. ret (c0\<lparr>changes_table := t\<rparr>))
           else ret c0) (\<lambda>c1.
     seq Editor
    (seq startEditing
    (seq startOperation
    (let c = (if \<not> is_table crate
              then c1\<lparr>changes_fields :=
                        (changes_fields c1)[length (changes_fields c1) - 2 :=
                           rstrip (changes_fields c1 ! (length (changes_fields c1) - 2)) ''WKT'']\<rparr>
              else c1);
         flds = butlast (changes_fields c)
     in bind (SearchCursor_adds py c) (\<lambda>rows.
        seq (InsertCursor Destination flds)
       (seq (InsertCursor HashTable [''Id'', ''att_hash'', ''geom_hash''])
       (seq (for_each rows (add_row crate c flds) ())
       (seq stopOperation
       (seq (stopEditing True)
       (seq (\<lambda>w. if endswith (table_path crate (changes_table c)) reproject_temp_suffix
                 then bind (Exists (changes_table c)) (\<lambda>table_exists.
                        if table_exists then Delete_management (changes_table c) else ret ()) w
                 else ret () w)
            (ret (mark_updated change_status))))))))))))"

text \<open>
  The body of the outer \<^verbatim>\<open>try\<close>, in two parts: the block that creates a missing
  destination and sets \<^verbatim>\<open>change_status\<close>, and the rest, from the validation to
  \<^verbatim>\<open>return change_status\<close>.
\<close>

definition ensure_destination :: "crate \<Rightarrow> ('v world, outcome) prog" where
  "ensure_destination crate =
     bind (Exists Destination) (\<lambda>destination_exists.
       if \<not> destination_exists
       then seq (create_destination_data crate)
           (bind (Exists HashTable) (\<lambda>hash_exists.
            seq (if hash_exists then Delete_management HashTable else ret ())
                (ret (CREATED, None))))
       else ret (NO_CHANGES, None))"

definition synchronize ::
  "'v python \<Rightarrow> crate \<Rightarrow> 'v validator \<Rightarrow> outcome \<Rightarrow> ('v world, outcome) prog" where
  "synchronize py crate validate_crate change_status =
     bind (validate crate validate_crate) (\<lambda>invalid.
     (case invalid of
        Some m \<Rightarrow> ret (INVALID_DATA, Some m)
      | None \<Rightarrow>
          bind (hash py crate (needs_reproject crate)) (\<lambda>c.
          bind (if has_deletes c then apply_deletes py crate c change_status
                else ret change_status) (\<lambda>change_status.
          bind (if has_adds c then apply_adds py crate (needs_reproject crate) c change_status
                else ret change_status) (\<lambda>change_status.
          ret change_status)))))"

definition update_body ::
  "'v python \<Rightarrow> crate \<Rightarrow> 'v validator \<Rightarrow> ('v world, outcome) prog" where
  "update_body py crate validate_crate =
     bind (ensure_destination crate) (synchronize py crate validate_crate)"

text \<open>
  \<^verbatim>\<open>update(crate, validate_crate)\<close>. The environment is set before the \<^verbatim>\<open>try\<close> and reset in
  \<^verbatim>\<open>finally\<close>; the variable \<^verbatim>\<open>edit_session\<close> is not bound when the call starts. The handler
  of the outer \<^verbatim>\<open>try\<close> attempts the abort once, inside \<^verbatim>\<open>try: ... except: pass\<close>. \<open>Inl\<close> in
  the result would be an exception leaving \<^verbatim>\<open>update\<close>.
\<close>

definition abort_edit_session :: "('v world, unit) prog" where
  "abort_edit_session = swallow (seq abortOperation (stopEditing False))"

definition update ::
  "'v python \<Rightarrow> crate \<Rightarrow> 'v validator \<Rightarrow> ('v world, outcome) prog" where
  "update py crate validate_crate =
     (\<lambda>w0. case try_except (update_body py crate validate_crate)
                  (\<lambda>e. seq abort_edit_session (ret (UNHANDLED_EXCEPTION, Some (message e))))
                  (w0\<lparr>env_transformations := geographic_transformation crate,
                      edit_session := None\<rparr>) of
              (r, w) \<Rightarrow> (r, ResetEnvironments w))"

section \<open>A run without store faults, as functions\<close>

text \<open>
  What the programs above compute when the store raises nothing, written as plain functions
  of the store. The lemmas of the second half relate each program to its function; the
  theorems then reason about the functions.
\<close>

text \<open>The effect of one pass of the loop of \<^verbatim>\<open>_hash\<close> on the loop's variables.\<close>

definition hash_step :: "'v python \<Rightarrow> crate \<Rightarrow> 'v cursor_row \<Rightarrow> hash_state \<Rightarrow> hash_state" where
  "hash_step py crate row s0 =
     (let n = unique_salty_id s0 + 1;
          a = create_hash py (str_tuple py (butlast (cells row))) n;
          g = (if is_table crate then None else map_option (\<lambda>t. create_hash py t n) (wkt row));
          k = str_value py (last (cells row));
          s = s0\<lparr>row_count := row_count s0 + 1, unique_salty_id := n\<rparr>
      in if \<not> is_table crate \<and> wkt row = None then s\<lparr>row_count := row_count s0\<rparr>
         else if a \<notin> fst ` set (attribute_hashes s0)
                 \<or> (\<exists>d. g = Some d \<and> d \<notin> fst ` set (geometry_hashes s0))
         then s\<lparr>changes := (changes s0)\<lparr>adds := AList.update k (a, g) (adds (changes s0))\<rparr>\<rparr>
         else s\<lparr>attribute_hashes := AList.delete a (attribute_hashes s0),
                geometry_hashes := (case g of None \<Rightarrow> geometry_hashes s0
                                    | Some d \<Rightarrow> AList.delete d (geometry_hashes s0)),
                changes := (changes s0)\<lparr>unchanged :=
                             AList.update k (a, g) (unchanged (changes s0))\<rparr>\<rparr>)"

text \<open>Its effect on the store: a warning for a skipped record, a scratch row for an add.\<close>

definition hash_effect ::
  "'v python \<Rightarrow> crate \<Rightarrow> bool \<Rightarrow> 'v cursor_row \<Rightarrow> hash_state \<Rightarrow> 'v world \<Rightarrow> 'v world" where
  "hash_effect py crate needs_reproj row s0 w =
     (let n = unique_salty_id s0 + 1;
          a = create_hash py (str_tuple py (butlast (cells row))) n;
          g = (if is_table crate then None else map_option (\<lambda>t. create_hash py t n) (wkt row))
      in if \<not> is_table crate \<and> wkt row = None
         then w\<lparr>warnings := warnings w @
                  [''Empty geometry found in '' @ source_primary_key crate @ '': ''
                   @ str_value py (last (cells row))]\<rparr>
         else if needs_reproj
                 \<and> (a \<notin> fst ` set (attribute_hashes s0)
                      \<or> (\<exists>d. g = Some d \<and> d \<notin> fst ` set (geometry_hashes s0)))
         then (case temp_tbl w of
                 None \<Rightarrow> w
               | Some rows \<Rightarrow>
                   w\<lparr>temp_tbl := Some (rows @
                        [\<lparr>vals = make_vals (butlast (value_fields (changes_fields (changes s0))))
                                   (cells row),
                          shape = wkt row, src_id = str_value py (last (cells row))\<rparr>])\<rparr>)
         else w)"

fun hash_loop ::
  "'v python \<Rightarrow> crate \<Rightarrow> bool \<Rightarrow> 'v cursor_row list \<Rightarrow> hash_state \<Rightarrow> 'v world
   \<Rightarrow> hash_state \<times> 'v world" where
  "hash_loop py crate needs_reproj [] s w = (s, w)"
| "hash_loop py crate needs_reproj (row # rows) s w =
     hash_loop py crate needs_reproj rows (hash_step py crate row s)
       (hash_effect py crate needs_reproj row s w)"

text \<open>The change set when the loop of \<^verbatim>\<open>_hash\<close> starts.\<close>

definition initial_changes :: "crate \<Rightarrow> bool \<Rightarrow> string list \<Rightarrow> changes" where
  "initial_changes crate needs_reproj flds =
     \<lparr>adds = [], unchanged = [], deletes = {},
      changes_fields = flds @ [if needs_reproj then src_id_field else source_primary_key crate],
      changes_table = (if needs_reproj then Temp else Source), total_rows = 0\<rparr>"

text \<open>
  The store when the loop of \<^verbatim>\<open>_hash\<close> starts: a missing hash table is created and the
  destination truncated; the scratch feature class is created when reprojection is needed.
\<close>

definition hash_prepare :: "bool \<Rightarrow> 'v world \<Rightarrow> 'v world" where
  "hash_prepare needs_reproj w =
     (let w1 = (case hash_tbl w of
                  None \<Rightarrow> w\<lparr>hash_tbl := Some [],
                             dest := map_option (\<lambda>t. t\<lparr>table_rows := []\<rparr>) (dest w)\<rparr>
                | Some rows \<Rightarrow> w)
      in if needs_reproj then w1\<lparr>temp_tbl := Some []\<rparr> else w1)"

definition hash_result ::
  "'v python \<Rightarrow> crate \<Rightarrow> bool \<Rightarrow> 'v world \<Rightarrow> hash_state \<times> 'v world" where
  "hash_result py crate needs_reproj w =
     (let w1 = hash_prepare needs_reproj w;
          destination_flds = (case dest w of None \<Rightarrow> [] | Some t \<Rightarrow> table_fields t);
          flds = hash_fields crate destination_flds (src_flds w);
          lookups = foldl hash_lookup_row ([], [])
                      (case hash_tbl w1 of None \<Rightarrow> [] | Some rows \<Rightarrow> rows)
      in hash_loop py crate needs_reproj (map (read_row flds) (src_rows w))
           \<lparr>changes = initial_changes crate needs_reproj flds,
            attribute_hashes = fst lookups, geometry_hashes = snd lookups,
            row_count = 0, unique_salty_id = 0\<rparr> w1)"

text \<open>The rows the cursor of the add phase yields, and the change set it is opened with.\<close>

definition add_cursor_rows :: "'v python \<Rightarrow> changes \<Rightarrow> 'v world \<Rightarrow> 'v add_row list" where
  "add_cursor_rows py c w =
     filter (adds_where_clause c)
       (case changes_table c of
          Source \<Rightarrow> map (read_add_row py (changes_fields c)) (src_rows w)
        | Temp \<Rightarrow> map (read_temp_row (changes_fields c))
                   (case temp_tbl w of None \<Rightarrow> [] | Some rows \<Rightarrow> rows)
        | Projected \<Rightarrow> map (read_temp_row (changes_fields c))
                        (case proj_tbl w of None \<Rightarrow> [] | Some rows \<Rightarrow> rows)
        | _ \<Rightarrow> [])"

definition adds_changes :: "crate \<Rightarrow> bool \<Rightarrow> changes \<Rightarrow> changes" where
  "adds_changes crate needs_reproj c0 =
     (let c1 = (if needs_reproj then c0\<lparr>changes_table := Projected\<rparr> else c0)
      in if \<not> is_table crate
         then c1\<lparr>changes_fields :=
                   (changes_fields c1)[length (changes_fields c1) - 2 :=
                      rstrip (changes_fields c1 ! (length (changes_fields c1) - 2)) ''WKT'']\<rparr>
         else c1)"

text \<open>
  The loop of the add phase on the destination and the rows of the hash table. A row whose
  key is in neither mapping ends the loop (the program raises there).
\<close>

definition digests_of :: "changes \<Rightarrow> string \<Rightarrow> digests option" where
  "digests_of c k = (case map_of (adds c) k of Some ds \<Rightarrow> Some ds | None \<Rightarrow> map_of (unchanged c) k)"

fun add_loop ::
  "crate \<Rightarrow> changes \<Rightarrow> string list \<Rightarrow> 'v add_row list \<Rightarrow> 'v table \<Rightarrow> hash_row list
   \<Rightarrow> 'v table \<times> hash_row list" where
  "add_loop crate c flds [] t H = (t, H)"
| "add_loop crate c flds (row # rows) t H =
     (if \<not> is_table crate \<and> wkt row = None then add_loop crate c flds rows t H
      else case digests_of c (primary_key row) of
             None \<Rightarrow> (t, H)
           | Some ds \<Rightarrow>
               add_loop crate c flds rows
                 (t\<lparr>table_rows := table_rows t @
                      [\<lparr>vals = make_vals (value_fields flds) (cells row), shape = wkt row,
                        oid = next_oid t\<rparr>],
                    next_oid := Suc (next_oid t)\<rparr>)
                 (H @ [\<lparr>hash_id = str_nat (next_oid t), att_hash = Some (fst ds),
                        geom_hash = snd ds\<rparr>]))"

text \<open>The store after the delete phase and after the add phase.\<close>

definition deletes_result :: "'v python \<Rightarrow> crate \<Rightarrow> changes \<Rightarrow> 'v world \<Rightarrow> 'v world" where
  "deletes_result py crate c w =
     w\<lparr>dest := map_option (\<lambda>t. t\<lparr>table_rows :=
                  filter (\<lambda>r. \<not> deletes_where_clause py c t (source_primary_key crate) r)
                    (table_rows t)\<rparr>) (dest w),
       hash_tbl := map_option (filter (\<lambda>r. hash_id r \<notin> deletes c)) (hash_tbl w),
       edit_session := Some Idle\<rparr>"

definition project_rows :: "'v world \<Rightarrow> 'v temp_row list \<Rightarrow> 'v temp_row list" where
  "project_rows w rows = map (\<lambda>r. r\<lparr>shape := map_option (projection w) (shape r)\<rparr>) rows"

definition adds_result ::
  "'v python \<Rightarrow> crate \<Rightarrow> bool \<Rightarrow> changes \<Rightarrow> 'v world \<Rightarrow> 'v world" where
  "adds_result py crate needs_reproj c0 w =
     (let w1 = (if needs_reproj
                then w\<lparr>proj_tbl := map_option (project_rows w) (temp_tbl w)\<rparr> else w);
          c = adds_changes crate needs_reproj c0;
          th = add_loop crate c (butlast (changes_fields c)) (add_cursor_rows py c w1)
                 (case dest w of None \<Rightarrow> new_table [] | Some t \<Rightarrow> t)
                 (case hash_tbl w of None \<Rightarrow> [] | Some H \<Rightarrow> H);
          w2 = w1\<lparr>dest := Some (fst th), hash_tbl := Some (snd th), edit_session := Some Idle\<rparr>
      in if endswith (table_path crate (changes_table c)) reproject_temp_suffix
            \<and> exists_in w2 (changes_table c)
         then delete_in w2 (changes_table c) else w2)"

text \<open>The change set of a run, and the store after validation has passed.\<close>

definition sync_changes :: "'v python \<Rightarrow> crate \<Rightarrow> 'v world \<Rightarrow> changes" where
  "sync_changes py crate w =
     finish_changes (fst (hash_result py crate (needs_reproject crate) w))"

definition sync_result :: "'v python \<Rightarrow> crate \<Rightarrow> 'v world \<Rightarrow> 'v world" where
  "sync_result py crate w =
     (let c = sync_changes py crate w;
          wh = snd (hash_result py crate (needs_reproject crate) w);
          wd = (if has_deletes c then deletes_result py crate c wh else wh)
      in if has_adds c then adds_result py crate (needs_reproject crate) c wd else wd)"

section \<open>Concrete inputs\<close>

text \<open>
  Inputs on which the theorems below are exercised: a Python whose \<^verbatim>\<open>repr\<close>, \<^verbatim>\<open>str\<close> and
  digest are the identity on strings, a table crate keyed by \<^verbatim>\<open>OBJECTID\<close>, and a store
  with a two-row source and no destination yet.
\<close>

definition ex_python :: "string python" where
  "ex_python = \<lparr>py_repr = (\<lambda>s. s), py_str = (\<lambda>s. s), md5 = (\<lambda>s. s)\<rparr>"

definition ex_crate :: crate where
  "ex_crate =
     \<lparr>crate_name = ''roads'', crate_source = ''src'', destination_workspace = ''ws.gdb'',
      source_primary_key = ''OBJECTID'', is_table = True, needs_reproject = False,
      geographic_transformation = None, source_dataType = ''Table''\<rparr>"

definition ex_row :: "string \<Rightarrow> string \<Rightarrow> string option \<Rightarrow> string row" where
  "ex_row k n g = \<lparr>vals = [(''OBJECTID'', k), (''NAME'', n)], shape = g\<rparr>"

definition ex_fields :: "field list" where
  "ex_fields =
     [\<lparr>field_name = ''OBJECTID'', field_type = ''OID'', field_length = 4\<rparr>,
      \<lparr>field_name = ''NAME'', field_type = ''String'', field_length = 10\<rparr>]"

definition ex_world :: "string world" where
  "ex_world =
     \<lparr>faults = [], src_exists = True, src_flds = ex_fields,
      src_rows = [ex_row ''1'' ''a'' None, ex_row ''2'' ''b'' None],
      projection = (\<lambda>s. s), workspace_exists = False, dest = None, hash_tbl = None,
      temp_tbl = None, proj_tbl = None, edit_session = None, env_transformations = None,
      warnings = []\<rparr>"

definition ex_validator :: "string validator" where
  "ex_validator c w = Inr NotImplemented"

text \<open>
  A store whose destination exists, with one row, and whose hash table is missing.
\<close>

definition ex_table :: "string table" where
  "ex_table =
     \<lparr>table_fields = template_fields ex_fields, oid_field = ''OBJECTID'',
      table_rows = [\<lparr>vals = [(''NAME'', ''old'')], shape = None, oid = 7\<rparr>],
      next_oid = 8\<rparr>"

definition ex_stale_world :: "string world" where
  "ex_stale_world = ex_world\<lparr>workspace_exists := True, dest := Some ex_table\<rparr>"

text \<open>
  A feature class crate, and a store whose source has one record with a point and one with
  the null geometry; the destination exists and is empty, like its hash table.
\<close>

definition ex_feature_crate :: crate where
  "ex_feature_crate = ex_crate\<lparr>is_table := False, source_dataType := ''FeatureClass''\<rparr>"

definition ex_feature_world :: "string world" where
  "ex_feature_world =
     ex_world\<lparr>src_rows := [ex_row ''1'' ''a'' (Some ''POINT (0 0)''), ex_row ''2'' ''b'' None],
       workspace_exists := True, dest := Some (new_table ex_fields), hash_tbl := Some []\<rparr>"

text \<open>
  A shapefile crate keyed by \<^verbatim>\<open>FID\<close>, and a store with its two-record source and no
  destination yet. The store numbers the records of a shapefile from 0 and the rows of a
  feature class from 1.
\<close>

definition ex_shapefile_crate :: crate where
  "ex_shapefile_crate =
     ex_crate\<lparr>source_primary_key := ''FID'', is_table := False,
       source_dataType := ''ShapeFile''\<rparr>"

definition ex_shape_row :: "string \<Rightarrow> string \<Rightarrow> string \<Rightarrow> string row" where
  "ex_shape_row k n g = \<lparr>vals = [(''FID'', k), (''NAME'', n)], shape = Some g\<rparr>"

definition ex_shapefile_world :: "string world" where
  "ex_shapefile_world =
     ex_world\<lparr>src_flds := [\<lparr>field_name = ''FID'', field_type = ''OID'', field_length = 4\<rparr>,
                           \<lparr>field_name = ''NAME'', field_type = ''String'', field_length = 10\<rparr>],
       src_rows := [ex_shape_row ''0'' ''a'' ''POINT (0 0)'', ex_shape_row ''1'' ''b'' ''POINT (1 1)''],
       workspace_exists := True\<rparr>"

text \<open>The store after a first call of \<^verbatim>\<open>update\<close>, and then with the first record renamed
  and moved.\<close>

definition ex_shapefile_loaded :: "string world" where
  "ex_shapefile_loaded = snd (update ex_python ex_shapefile_crate ex_validator ex_shapefile_world)"

definition ex_shapefile_edited :: "string world" where
  "ex_shapefile_edited =
     ex_shapefile_loaded\<lparr>src_rows := [ex_shape_row ''0'' ''c'' ''POINT (5 5)'',
                                       ex_shape_row ''1'' ''b'' ''POINT (1 1)'']\<rparr>"

section \<open>Strings: containment\<close>

lemma startswith_append: "startswith (p @ s) p"
  by (induction p) auto

lemma startswith_append_left: "startswith s p \<Longrightarrow> startswith (s @ b) p"
  by (induction s p rule: startswith.induct) auto

lemma contains_self: "contains s s"
  by (cases s) (auto simp: startswith_append[of _ "[]", simplified])

lemma contains_Nil: "contains s []"
  by (cases s) auto

lemma contains_append_right: "contains s p \<Longrightarrow> contains (a @ s) p"
  by (induction a) auto

lemma contains_append_left: "contains s p \<Longrightarrow> contains (s @ b) p"
proof (induction s)
  case Nil
  then show ?case by (simp add: contains_Nil)
next
  case (Cons c s)
  then show ?case
    using startswith_append_left[of "c # s" p b] by auto
qed

lemma contains_join: "x \<in> set xs \<Longrightarrow> contains (join sep xs) x"
proof (induction sep xs rule: join.induct)
  case (1 sep)
  then show ?case by simp
next
  case (2 sep y)
  then show ?case by (simp add: contains_self)
next
  case (3 sep y z zs)
  show ?case
  proof (cases "x = y")
    case True
    then show ?thesis
      using contains_append_left[OF contains_self, of y "sep @ join sep (z # zs)"] by simp
  next
    case False
    with 3 have "contains (join sep (z # zs)) x" by simp
    then have "contains (y @ sep @ join sep (z # zs)) x"
      using contains_append_right[of "join sep (z # zs)" x "y @ sep"] by simp
    then show ?thesis by simp
  qed
qed

lemma contains_message: "m \<in> set ms \<Longrightarrow> contains (a @ b @ c @ join sep ms) m"
  using contains_append_right[OF contains_join, of m ms "a @ b @ c" sep] by simp

section \<open>The schema check\<close>

lemma check_field_acc:
  "check_field S (ms, mm) kd =
     (ms @ fst (check_field S ([], []) kd), mm @ snd (check_field S ([], []) kd))"
  by (cases kd) (auto simp: Let_def split: option.splits)

lemma foldl_check_field:
  "foldl (check_field S) (ms, mm) D =
     (ms @ concat (map (\<lambda>kd. fst (check_field S ([], []) kd)) D),
      mm @ concat (map (\<lambda>kd. snd (check_field S ([], []) kd)) D))"
proof (induction D arbitrary: ms mm)
  case Nil
  then show ?case by simp
next
  case (Cons kd D)
  show ?case
    by (subst foldl_Cons, subst check_field_acc, subst Cons.IH) simp
qed

lemma collect_fields_missing:
  "fst (collect_fields S D) =
     map (\<lambda>kd. field_name (snd kd)) (filter (\<lambda>kd. map_of S (fst kd) = None) D)"
  unfolding collect_fields_def foldl_check_field
  by (induction D) (auto split: option.splits simp: Let_def)

lemma collect_fields_mismatching:
  "snd (collect_fields S D) =
     concat (map (\<lambda>kd.
       case map_of S (fst kd) of
         None \<Rightarrow> []
       | Some s \<Rightarrow>
           if abstract_type (field_type s) \<noteq> abstract_type (field_type (snd kd))
           then [field_name s @ '': source type of '' @ field_type s
                 @ '' does not match destination type of '' @ field_type (snd kd)]
           else if field_type s = ''String''
                   \<and> truncate_field_length s \<noteq> truncate_field_length (snd kd)
           then [field_name s @ '': source length of '' @ str_nat (truncate_field_length s)
                 @ '' does not match destination length of ''
                 @ str_nat (truncate_field_length (snd kd))]
           else []) D)"
  unfolding collect_fields_def foldl_check_field
  by (induction D) (auto split: option.splits simp: Let_def)

text \<open>
  Claim C7, as amended. The loop of \<^verbatim>\<open>check_schema\<close> looks at every field of the
  destination: \<open>missing\<close> is the list of all destination fields without a source field of
  the same upper-cased name, \<open>mismatching\<close> has one entry for every destination field whose
  source field differs in abstract type or (for text fields) in clamped length. When a field
  is missing the check raises a \<^verbatim>\<open>ValidationException\<close> whose message has every missing
  field; when none is missing and some field mismatches it raises one whose message has
  every mismatching entry; otherwise it returns \<^verbatim>\<open>True\<close>.
\<close>

theorem compare_schema_reports:
  assumes "collect_fields (get_fields source_flds) (get_fields destination_flds)
             = (missing, mismatching)"
  shows "missing = map (\<lambda>kd. field_name (snd kd))
                     (filter (\<lambda>kd. map_of (get_fields source_flds) (fst kd) = None)
                        (get_fields destination_flds))
       \<and> mismatching = concat (map (\<lambda>kd.
           case map_of (get_fields source_flds) (fst kd) of
             None \<Rightarrow> []
           | Some s \<Rightarrow>
               if abstract_type (field_type s) \<noteq> abstract_type (field_type (snd kd))
               then [field_name s @ '': source type of '' @ field_type s
                     @ '' does not match destination type of '' @ field_type (snd kd)]
               else if field_type s = ''String''
                       \<and> truncate_field_length s \<noteq> truncate_field_length (snd kd)
               then [field_name s @ '': source length of '' @ str_nat (truncate_field_length s)
                     @ '' does not match destination length of ''
                     @ str_nat (truncate_field_length (snd kd))]
               else []) (get_fields destination_flds))
       \<and> (missing \<noteq> [] \<longrightarrow>
            compare_schema src source_flds destination_flds
              = Inl (ValidationException
                       (''Missing fields in '' @ src @ '': '' @ join '', '' missing))
            \<and> (\<forall>m \<in> set missing.
                  contains (''Missing fields in '' @ src @ '': '' @ join '', '' missing) m))
       \<and> (missing = [] \<and> mismatching \<noteq> [] \<longrightarrow>
            compare_schema src source_flds destination_flds
              = Inl (ValidationException
                       (''Mismatching fields in '' @ src @ '': '' @ join '', '' mismatching))
            \<and> (\<forall>m \<in> set mismatching.
                  contains (''Mismatching fields in '' @ src @ '': '' @ join '', '' mismatching)
                    m))
       \<and> (missing = [] \<and> mismatching = [] \<longrightarrow>
            compare_schema src source_flds destination_flds = Inr True)"
proof -
  have m1: "missing = fst (collect_fields (get_fields source_flds) (get_fields destination_flds))"
    and m2: "mismatching
               = snd (collect_fields (get_fields source_flds) (get_fields destination_flds))"
    using assms by simp_all
  have c1: "\<forall>m \<in> set missing.
              contains (''Missing fields in '' @ src @ '': '' @ join '', '' missing) m"
    using contains_message by blast
  have c2: "\<forall>m \<in> set mismatching.
              contains (''Mismatching fields in '' @ src @ '': '' @ join '', '' mismatching) m"
    using contains_message by blast
  have r: "compare_schema src source_flds destination_flds =
             (if missing \<noteq> []
              then Inl (ValidationException
                     (''Missing fields in '' @ src @ '': '' @ join '', '' missing))
              else if mismatching \<noteq> []
              then Inl (ValidationException
                     (''Mismatching fields in '' @ src @ '': '' @ join '', '' mismatching))
              else Inr True)"
    using assms by (simp add: compare_schema_def)
  show ?thesis
    using c1 c2 r m1 m2 collect_fields_missing collect_fields_mismatching by simp
qed

text \<open>
  The theorem at a destination with a text field longer than the cap and two fields the
  source does not have.
\<close>

theorem compare_schema_reports_witness:
  "compare_schema ''src''
     [\<lparr>field_name = ''A'', field_type = ''String'', field_length = 10\<rparr>]
     [\<lparr>field_name = ''A'', field_type = ''String'', field_length = 5000\<rparr>,
      \<lparr>field_name = ''C'', field_type = ''String'', field_length = 10\<rparr>,
      \<lparr>field_name = ''B'', field_type = ''String'', field_length = 5\<rparr>]
     = Inl (ValidationException ''Missing fields in src: C, B'')
   \<and> contains ''Missing fields in src: C, B'' ''C''
   \<and> contains ''Missing fields in src: C, B'' ''B''"
proof -
  have h: "collect_fields
     (get_fields [\<lparr>field_name = ''A'', field_type = ''String'', field_length = 10\<rparr>])
     (get_fields [\<lparr>field_name = ''A'', field_type = ''String'', field_length = 5000\<rparr>,
      \<lparr>field_name = ''C'', field_type = ''String'', field_length = 10\<rparr>,
      \<lparr>field_name = ''B'', field_type = ''String'', field_length = 5\<rparr>])
     = ([''C'', ''B''], [''A: source length of 10 does not match destination length of 4000''])"
    by code_simp
  show ?thesis
    using compare_schema_reports[OF h, of "''src''"] by simp
qed

text \<open>
  Claim C7 as stated fails: with a missing field and a mismatching field both collected,
  the raised message has the missing field only.
\<close>

theorem compare_schema_drops_mismatches:
  "collect_fields
     (get_fields [\<lparr>field_name = ''A'', field_type = ''String'', field_length = 10\<rparr>])
     (get_fields [\<lparr>field_name = ''A'', field_type = ''Integer'', field_length = 4\<rparr>,
                  \<lparr>field_name = ''B'', field_type = ''String'', field_length = 5\<rparr>])
     = ([''B''], [''A: source type of String does not match destination type of Integer''])
   \<and> compare_schema ''src''
       [\<lparr>field_name = ''A'', field_type = ''String'', field_length = 10\<rparr>]
       [\<lparr>field_name = ''A'', field_type = ''Integer'', field_length = 4\<rparr>,
        \<lparr>field_name = ''B'', field_type = ''String'', field_length = 5\<rparr>]
     = Inl (ValidationException ''Missing fields in src: B'')
   \<and> \<not> contains ''Missing fields in src: B''
         ''A: source type of String does not match destination type of Integer''"
  by code_simp

section \<open>Programs\<close>

lemma bind_Inl: "m w = (Inl e, w') \<Longrightarrow> bind m k w = (Inl e, w')"
  by (simp add: bind_def)

lemma bind_Inr: "m w = (Inr x, w') \<Longrightarrow> bind m k w = k x w'"
  by (simp add: bind_def)

lemma seq_Inl: "m w = (Inl e, w') \<Longrightarrow> seq m n w = (Inl e, w')"
  by (simp add: seq_def bind_def)

lemma seq_Inr: "m w = (Inr x, w') \<Longrightarrow> seq m n w = n w'"
  by (simp add: seq_def bind_def)

lemma bind_step: "m w = (Inr x, w') \<Longrightarrow> k x w' = r \<Longrightarrow> bind m k w = r"
  by (simp add: bind_def)

lemma seq_step: "m w = (Inr x, w') \<Longrightarrow> n w' = r \<Longrightarrow> seq m n w = r"
  by (simp add: seq_def bind_def)

lemma ret_apply: "ret x w = (Inr x, w)"
  by (simp add: ret_def)

lemma throw_apply: "throw e w = (Inl e, w)"
  by (simp add: throw_def)

lemma pop_present: "k \<in> fst ` set d \<Longrightarrow> pop k d w = (Inr (AList.delete k d), w)"
  by (simp add: pop_def ret_def)

section \<open>Classification of a source record\<close>

lemma hash_row_cases:
  assumes "is_table crate \<or> wkt row \<noteq> None"
    and "n = unique_salty_id s0 + 1"
    and "a = create_hash py (str_tuple py (butlast (cells row))) n"
    and "g = (if is_table crate then None else map_option (\<lambda>t. create_hash py t n) (wkt row))"
    and "k = str_value py (last (cells row))"
    and "s = s0\<lparr>row_count := row_count s0 + 1, unique_salty_id := n\<rparr>"
  shows "if a \<notin> fst ` set (attribute_hashes s0)
            \<or> (\<exists>d. g = Some d \<and> d \<notin> fst ` set (geometry_hashes s0))
         then hash_row py crate needs_reproj row s0 w =
                seq (if needs_reproj
                     then insertRow_temp py (changes_fields (changes s0)) row (last (cells row))
                     else ret ())
                    (ret (s\<lparr>changes := (changes s0)\<lparr>adds :=
                            AList.update k (a, g) (adds (changes s0))\<rparr>\<rparr>)) w
         else hash_row py crate needs_reproj row s0 w =
                (Inr (s\<lparr>attribute_hashes := AList.delete a (attribute_hashes s0),
                        geometry_hashes :=
                          (case g of None \<Rightarrow> geometry_hashes s0
                           | Some d \<Rightarrow> AList.delete d (geometry_hashes s0)),
                        changes := (changes s0)\<lparr>unchanged :=
                            AList.update k (a, g) (unchanged (changes s0))\<rparr>\<rparr>), w)"
proof -
  let ?add = "a \<notin> fst ` set (attribute_hashes s0)
            \<or> (\<exists>d. g = Some d \<and> d \<notin> fst ` set (geometry_hashes s0))"
  have cond: "(case g of None \<Rightarrow> False | Some d \<Rightarrow> d \<notin> fst ` set (geometry_hashes s0))
                = (\<exists>d. g = Some d \<and> d \<notin> fst ` set (geometry_hashes s0))"
    by (cases g) auto
  have g': "(if \<not> is_table crate
             then map_option (\<lambda>t. create_hash py t (Suc (unique_salty_id s0))) (wkt row)
             else None) = g"
    using assms(2,4) by simp
  have a': "create_hash py (str_tuple py (butlast (cells row))) (Suc (unique_salty_id s0)) = a"
    using assms(2,3) by simp
  have unfolded: "hash_row py crate needs_reproj row s0 w =
      (if ?add
       then seq (if needs_reproj
                 then insertRow_temp py (changes_fields (changes s0)) row (last (cells row))
                 else ret ())
                (ret (s\<lparr>changes := (changes s0)\<lparr>adds :=
                        AList.update k (a, g) (adds (changes s0))\<rparr>\<rparr>)) w
       else bind (pop a (attribute_hashes s0)) (\<lambda>attribute_hashes'.
            bind (case g of None \<Rightarrow> ret (geometry_hashes s0)
                  | Some d \<Rightarrow> pop d (geometry_hashes s0)) (\<lambda>geometry_hashes'.
            ret (s\<lparr>attribute_hashes := attribute_hashes',
                   geometry_hashes := geometry_hashes',
                   changes := (changes s0)\<lparr>unchanged :=
                     AList.update k (a, g) (unchanged (changes s0))\<rparr>\<rparr>))) w)"
  proof (cases "is_table crate")
    case True
    then have "g = None" using assms(4) by simp
    then show ?thesis
      using True unfolding hash_row_def Let_def
      by (simp add: a' assms(2,5,6))
  next
    case False
    then obtain t where t: "wkt row = Some t" using assms(1) by auto
    then have "g = Some (create_hash py t (Suc (unique_salty_id s0)))"
      using False assms(2,4) by simp
    then show ?thesis
      using False t unfolding hash_row_def Let_def
      by (simp add: a' assms(2,5,6))
  qed
  show ?thesis
  proof (cases ?add)
    case True
    have "hash_row py crate needs_reproj row s0 w =
            seq (if needs_reproj
                 then insertRow_temp py (changes_fields (changes s0)) row (last (cells row))
                 else ret ())
                (ret (s\<lparr>changes := (changes s0)\<lparr>adds :=
                        AList.update k (a, g) (adds (changes s0))\<rparr>\<rparr>)) w"
      by (subst unfolded, subst if_P[OF True]) (rule refl)
    then show ?thesis by (subst if_P[OF True])
  next
    case False
    then have a_in: "a \<in> fst ` set (attribute_hashes s0)"
      and g_in: "\<And>d. g = Some d \<Longrightarrow> d \<in> fst ` set (geometry_hashes s0)"
      by auto
    have unch: "hash_row py crate needs_reproj row s0 w =
            bind (pop a (attribute_hashes s0)) (\<lambda>attribute_hashes'.
            bind (case g of None \<Rightarrow> ret (geometry_hashes s0)
                  | Some d \<Rightarrow> pop d (geometry_hashes s0)) (\<lambda>geometry_hashes'.
            ret (s\<lparr>attribute_hashes := attribute_hashes',
                   geometry_hashes := geometry_hashes',
                   changes := (changes s0)\<lparr>unchanged :=
                     AList.update k (a, g) (unchanged (changes s0))\<rparr>\<rparr>))) w"
      by (subst unfolded, subst if_not_P[OF False]) (rule refl)
    have "hash_row py crate needs_reproj row s0 w =
            (Inr (s\<lparr>attribute_hashes := AList.delete a (attribute_hashes s0),
                    geometry_hashes :=
                      (case g of None \<Rightarrow> geometry_hashes s0
                       | Some d \<Rightarrow> AList.delete d (geometry_hashes s0)),
                    changes := (changes s0)\<lparr>unchanged :=
                        AList.update k (a, g) (unchanged (changes s0))\<rparr>\<rparr>), w)"
    proof (cases g)
      case None
      then show ?thesis
        using unch a_in by (simp add: bind_def ret_def pop_def)
    next
      case (Some d)
      then show ?thesis
        using unch a_in g_in[OF Some] by (simp add: bind_def ret_def pop_def)
    qed
    then show ?thesis by (subst if_not_P[OF False])
  qed
qed

text \<open>
  Claim C1. A source record that is not skipped (the crate is a table, or the geometry is
  not empty) is hashed with the salt \<open>n\<close>, the incremented counter. It is an add exactly when
  its attribute digest \<open>a\<close> is not a key of the attribute lookup or a geometry digest \<open>g\<close> was
  computed and is not a key of the geometry lookup: the body then stores the digest pair
  under the record's key in \<open>adds\<close> (after writing the record to the scratch feature class
  when reprojection is needed) and leaves the lookups and \<open>unchanged\<close> alone. In every other
  case the body returns, raising no \<^verbatim>\<open>KeyError\<close>, with the digest pair stored in \<open>unchanged\<close>,
  the attribute digest removed from the attribute lookup and the geometry digest, when there
  is one, removed from the geometry lookup.
\<close>

theorem hash_row_classifies:
  assumes "is_table crate \<or> wkt row \<noteq> None"
    and "n = unique_salty_id s0 + 1"
    and "a = create_hash py (str_tuple py (butlast (cells row))) n"
    and "g = (if is_table crate then None else map_option (\<lambda>t. create_hash py t n) (wkt row))"
    and "k = str_value py (last (cells row))"
    and "s = s0\<lparr>row_count := row_count s0 + 1, unique_salty_id := n\<rparr>"
  shows "if a \<notin> fst ` set (attribute_hashes s0)
            \<or> (\<exists>d. g = Some d \<and> d \<notin> fst ` set (geometry_hashes s0))
         then hash_row py crate needs_reproj row s0 w =
                seq (if needs_reproj
                     then insertRow_temp py (changes_fields (changes s0)) row (last (cells row))
                     else ret ())
                    (ret (s\<lparr>changes := (changes s0)\<lparr>adds :=
                            AList.update k (a, g) (adds (changes s0))\<rparr>\<rparr>)) w
         else hash_row py crate needs_reproj row s0 w =
                (Inr (s\<lparr>attribute_hashes := AList.delete a (attribute_hashes s0),
                        geometry_hashes :=
                          (case g of None \<Rightarrow> geometry_hashes s0
                           | Some d \<Rightarrow> AList.delete d (geometry_hashes s0)),
                        changes := (changes s0)\<lparr>unchanged :=
                            AList.update k (a, g) (unchanged (changes s0))\<rparr>\<rparr>), w)"
  using assms by (rule hash_row_cases)

text \<open>
  The theorem at a record whose attribute digest is in the lookup: it is classified as
  unchanged and the lookup entry is removed.
\<close>

theorem hash_row_classifies_witness:
  "hash_row ex_python ex_crate False \<lparr>cells = [Some ''a'', Some ''1''], wkt = None\<rparr>
     \<lparr>changes = Changes [''NAME'', ''OBJECTID'', ''OBJECTID''],
      attribute_hashes = [(''(a,)1'', ''7'')], geometry_hashes = [],
      row_count = 0, unique_salty_id = 0\<rparr> ex_world
   = (Inr \<lparr>changes = (Changes [''NAME'', ''OBJECTID'', ''OBJECTID''])
                        \<lparr>unchanged := [(''1'', (''(a,)1'', None))]\<rparr>,
            attribute_hashes = [], geometry_hashes = [],
            row_count = 1, unique_salty_id = 1\<rparr>, ex_world)"
  using hash_row_classifies[where crate = ex_crate and py = ex_python and needs_reproj = False
      and row = "\<lparr>cells = [Some ''a'', Some ''1''], wkt = None\<rparr>"
      and ?s0.0 = "\<lparr>changes = Changes [''NAME'', ''OBJECTID'', ''OBJECTID''],
                 attribute_hashes = [(''(a,)1'', ''7'')], geometry_hashes = [],
                 row_count = 0, unique_salty_id = 0\<rparr>"
      and w = ex_world, OF _ refl refl refl refl refl]
  by (simp add: ex_crate_def ex_python_def create_hash_def str_tuple_def repr_value_def
      str_value_def str_nat.simps digit_def Changes_def)

section \<open>No exception leaves \<^verbatim>\<open>update\<close>\<close>

lemma swallow_Inr: "\<exists>w'. swallow m w = (Inr (), w')"
  by (cases "m w") (auto simp: swallow_def split: sum.splits)

text \<open>
  Claim C2. \<^verbatim>\<open>update\<close> returns a pair for every crate, validator and store, whatever faults
  the store has scheduled: no exception leaves it. The attempt to abort the edit session
  always comes back, whether or not the abort itself raises. Whenever an exception leaves
  the body of the outer \<^verbatim>\<open>try\<close> (raised while creating the destination, validating, computing
  the changes or applying them), \<^verbatim>\<open>update\<close> returns \<^verbatim>\<open>UNHANDLED_EXCEPTION\<close> with the message of
  that exception. (A \<^verbatim>\<open>ValidationException\<close> raised by the validation step does not leave the
  body: the inner handler turns it into \<^verbatim>\<open>INVALID_DATA\<close>.)
\<close>

theorem update_never_raises:
  "(\<exists>st msg w'. update py crate validate_crate w = (Inr (st, msg), w'))
   \<and> (\<exists>w'. abort_edit_session w = (Inr (), w'))
   \<and> (\<forall>e w2.
        update_body py crate validate_crate
          (w\<lparr>env_transformations := geographic_transformation crate, edit_session := None\<rparr>)
          = (Inl e, w2)
        \<longrightarrow> (\<exists>w'. update py crate validate_crate w
                    = (Inr (UNHANDLED_EXCEPTION, Some (message e)), w')))"
proof -
  let ?w1 = "w\<lparr>env_transformations := geographic_transformation crate, edit_session := None\<rparr>"
  have abort: "\<exists>w'. abort_edit_session x = (Inr (), w')" for x :: "'a world"
    unfolding abort_edit_session_def by (rule swallow_Inr)
  have handled: "\<exists>w'. update py crate validate_crate w
                    = (Inr (UNHANDLED_EXCEPTION, Some (message e)), w')"
    if "update_body py crate validate_crate ?w1 = (Inl e, w2)" for e w2
  proof -
    obtain w3 where "abort_edit_session w2 = (Inr (), w3)"
      using abort by blast
    then show ?thesis
      using that by (simp add: update_def try_except_def seq_def bind_def ret_def)
  qed
  have "\<exists>st msg w'. update py crate validate_crate w = (Inr (st, msg), w')"
  proof (cases "update_body py crate validate_crate ?w1")
    case (Pair r w2)
    show ?thesis
    proof (cases r)
      case (Inl e)
      with Pair handled show ?thesis by blast
    next
      case (Inr x)
      with Pair show ?thesis
        by (cases x) (simp add: update_def try_except_def)
    qed
  qed
  with abort handled show ?thesis by blast
qed


text \<open>
  The theorem at a store whose second call (creating the file geodatabase) raises, and whose
  third call (the abort in the handler) raises too.
\<close>

theorem update_never_raises_witness:
  "(\<exists>w2. update_body ex_python ex_crate ex_validator
            (ex_world\<lparr>faults := [None, Some (Exception ''boom''), Some (Exception ''abort'')],
                      env_transformations := geographic_transformation ex_crate,
                      edit_session := None\<rparr>)
          = (Inl (Exception ''boom''), w2))
   \<and> (\<exists>w'. update ex_python ex_crate ex_validator
              (ex_world\<lparr>faults := [None, Some (Exception ''boom''), Some (Exception ''abort'')]\<rparr>)
            = (Inr (UNHANDLED_EXCEPTION, Some ''boom''), w'))"
proof -
  let ?w = "ex_world\<lparr>faults := [None, Some (Exception ''boom''), Some (Exception ''abort'')]\<rparr>"
  have "fst (update_body ex_python ex_crate ex_validator
               (?w\<lparr>env_transformations := geographic_transformation ex_crate,
                    edit_session := None\<rparr>)) = Inl (Exception ''boom'')"
    by (simp add: update_body_def ensure_destination_def bind_def Exists_def arcpy_def
        ex_world_def ex_crate_def create_destination_data_def seq_def endswith_def
        CreateFileGDB_management_def)
  then obtain w2 where body:
    "update_body ex_python ex_crate ex_validator
       (?w\<lparr>env_transformations := geographic_transformation ex_crate, edit_session := None\<rparr>)
     = (Inl (Exception ''boom''), w2)"
    by (metis prod.collapse)
  from update_never_raises[of ex_python ex_crate ex_validator ?w] body
  have "\<exists>w'. update ex_python ex_crate ex_validator ?w
              = (Inr (UNHANDLED_EXCEPTION, Some (message (Exception ''boom''))), w')"
    by blast
  with body show ?thesis by auto
qed


section \<open>Runs without store faults\<close>

lemma arcpy_nofault: "faults w = [] \<Longrightarrow> arcpy f w = f w"
  by (simp add: arcpy_def)

lemma insertRow_temp_nofault:
  "faults w = [] \<Longrightarrow> temp_tbl w = Some rows \<Longrightarrow>
   insertRow_temp py flds row src w =
     (Inr (), w\<lparr>temp_tbl := Some (rows @
        [\<lparr>vals = make_vals (butlast (value_fields flds)) (cells row),
          shape = wkt row, src_id = str_value py src\<rparr>])\<rparr>)"
  by (simp add: insertRow_temp_def arcpy_nofault)

lemma hash_row_nofault:
  assumes "faults w = []" and "needs_reproj \<longrightarrow> temp_tbl w \<noteq> None"
  shows "hash_row py crate needs_reproj row s w =
           (Inr (hash_step py crate row s), hash_effect py crate needs_reproj row s w)"
proof (cases "\<not> is_table crate \<and> wkt row = None")
  case True
  then show ?thesis
    by (simp add: hash_row_def hash_step_def hash_effect_def Let_def seq_def bind_def
        log_warn_def ret_def)
next
  case False
  let ?n = "unique_salty_id s + 1"
  let ?a = "create_hash py (str_tuple py (butlast (cells row))) ?n"
  let ?g = "if is_table crate then None else map_option (\<lambda>t. create_hash py t ?n) (wkt row)"
  let ?k = "str_value py (last (cells row))"
  let ?s = "s\<lparr>row_count := row_count s + 1, unique_salty_id := ?n\<rparr>"
  let ?add = "?a \<notin> fst ` set (attribute_hashes s)
            \<or> (\<exists>d. ?g = Some d \<and> d \<notin> fst ` set (geometry_hashes s))"
  from False have ns: "is_table crate \<or> wkt row \<noteq> None" by auto
  note c = hash_row_cases[OF ns refl refl refl refl refl, of py s needs_reproj w]
  have step: "hash_step py crate row s =
      (if ?add
       then ?s\<lparr>changes := (changes s)\<lparr>adds := AList.update ?k (?a, ?g) (adds (changes s))\<rparr>\<rparr>
       else ?s\<lparr>attribute_hashes := AList.delete ?a (attribute_hashes s),
                 geometry_hashes :=
                   (case ?g of None \<Rightarrow> geometry_hashes s
                    | Some d \<Rightarrow> AList.delete d (geometry_hashes s)),
                 changes := (changes s)\<lparr>unchanged :=
                     AList.update ?k (?a, ?g) (unchanged (changes s))\<rparr>\<rparr>)"
    unfolding hash_step_def Let_def by (subst if_not_P[OF False]) (rule refl)
  have eff: "hash_effect py crate needs_reproj row s w =
      (if needs_reproj \<and> ?add
       then (case temp_tbl w of
                 None \<Rightarrow> w
               | Some rows \<Rightarrow>
                   w\<lparr>temp_tbl := Some (rows @
                        [\<lparr>vals = make_vals (butlast (value_fields (changes_fields (changes s))))
                                   (cells row),
                          shape = wkt row, src_id = str_value py (last (cells row))\<rparr>])\<rparr>)
       else w)"
    unfolding hash_effect_def Let_def by (subst if_not_P[OF False]) (rule refl)
  show ?thesis
  proof (cases ?add)
    case True
    from c have run: "hash_row py crate needs_reproj row s w =
        seq (if needs_reproj
             then insertRow_temp py (changes_fields (changes s)) row (last (cells row))
             else ret ())
            (ret (?s\<lparr>changes := (changes s)\<lparr>adds :=
                    AList.update ?k (?a, ?g) (adds (changes s))\<rparr>\<rparr>)) w"
      by (subst (asm) if_P[OF True])
    show ?thesis
    proof (cases needs_reproj)
      case nr: True
      with assms obtain rows where rows: "temp_tbl w = Some rows" by auto
      have e: "hash_effect py crate needs_reproj row s w =
                w\<lparr>temp_tbl := Some (rows @
                        [\<lparr>vals = make_vals (butlast (value_fields (changes_fields (changes s))))
                                   (cells row),
                          shape = wkt row, src_id = str_value py (last (cells row))\<rparr>])\<rparr>"
        by (subst eff, subst if_P[OF conjI[OF nr True]]) (simp add: rows)
      show ?thesis
        unfolding run step e if_P[OF True]
        using nr by (simp add: seq_def bind_def insertRow_temp_nofault[OF assms(1) rows] ret_def)
    next
      case nr: False
      have nc: "\<not> (needs_reproj \<and> ?add)"
        using nr by blast
      have e: "hash_effect py crate needs_reproj row s w = w"
        by (subst eff, subst if_not_P[OF nc]) (rule refl)
      show ?thesis
        unfolding run step e if_P[OF True]
        using nr by (simp add: seq_def bind_def ret_def)
    qed
  next
    case F2: False
    from c have "hash_row py crate needs_reproj row s w =
        (Inr (?s\<lparr>attribute_hashes := AList.delete ?a (attribute_hashes s),
                 geometry_hashes :=
                   (case ?g of None \<Rightarrow> geometry_hashes s
                    | Some d \<Rightarrow> AList.delete d (geometry_hashes s)),
                 changes := (changes s)\<lparr>unchanged :=
                     AList.update ?k (?a, ?g) (unchanged (changes s))\<rparr>\<rparr>), w)"
      by (subst (asm) if_not_P[OF F2])
    moreover have nc: "\<not> (needs_reproj \<and> ?add)"
      using F2 by blast
    have "hash_effect py crate needs_reproj row s w = w"
      by (subst eff, subst if_not_P[OF nc]) (rule refl)
    ultimately show ?thesis
      unfolding step if_not_P[OF F2] by simp
  qed
qed


lemma for_each_hash_row_nofault:
  assumes "faults w = []" and "needs_reproj \<longrightarrow> temp_tbl w \<noteq> None"
  shows "for_each rows (hash_row py crate needs_reproj) s w =
           (Inr (fst (hash_loop py crate needs_reproj rows s w)),
            snd (hash_loop py crate needs_reproj rows s w))"
  using assms
proof (induction rows arbitrary: s w)
  case Nil
  then show ?case by (simp add: ret_def)
next
  case (Cons row rows)
  have f: "faults (hash_effect py crate needs_reproj row s w) = []"
    using Cons.prems by (simp add: hash_effect_def Let_def split: option.splits)
  have t: "needs_reproj \<longrightarrow> temp_tbl (hash_effect py crate needs_reproj row s w) \<noteq> None"
    using Cons.prems by (auto simp: hash_effect_def Let_def split: option.splits)
  show ?case
    using Cons.IH[OF f t] hash_row_nofault[OF Cons.prems]
    by (simp add: bind_def)
qed

lemma hash_effect_frame:
  "\<exists>T W. hash_effect py crate nr row s w = w\<lparr>temp_tbl := T, warnings := W\<rparr>"
proof -
  have "hash_effect py crate nr row s w =
          w\<lparr>temp_tbl := temp_tbl (hash_effect py crate nr row s w),
            warnings := warnings (hash_effect py crate nr row s w)\<rparr>"
    by (simp add: hash_effect_def Let_def split: option.splits)
  then show ?thesis by blast
qed

lemma hash_loop_frame:
  "\<exists>T W. snd (hash_loop py crate nr rows s w) = w\<lparr>temp_tbl := T, warnings := W\<rparr>"
proof (induction rows arbitrary: s w)
  case Nil
  have "w = w\<lparr>temp_tbl := temp_tbl w, warnings := warnings w\<rparr>" by simp
  then show ?case by (metis hash_loop.simps(1) snd_conv)
next
  case (Cons row rows)
  obtain T W where e: "hash_effect py crate nr row s w = w\<lparr>temp_tbl := T, warnings := W\<rparr>"
    using hash_effect_frame by blast
  obtain T' W' where
    "snd (hash_loop py crate nr rows (hash_step py crate row s)
            (hash_effect py crate nr row s w))
       = (hash_effect py crate nr row s w)\<lparr>temp_tbl := T', warnings := W'\<rparr>"
    using Cons.IH by blast
  then have "snd (hash_loop py crate nr (row # rows) s w) = w\<lparr>temp_tbl := T', warnings := W'\<rparr>"
    by (simp add: e)
  then show ?case by blast
qed

lemma set_filter_fields: "set (filter_fields flds pk) \<subseteq> set flds \<union> {pk}"
  using set_remove1_subset[of pk "sort (filter (\<lambda>fld. \<not> is_naughty_field fld) flds)"]
  by (auto simp: filter_fields_def Let_def)

lemma set_common_fields: "set (common_fields dflds sflds) \<subseteq> set (field_names sflds)"
  by (auto simp: common_fields_def)

lemma value_fields_append: "value_fields (xs @ ys) = value_fields xs @ value_fields ys"
  by (simp add: value_fields_def)

lemma value_fields_shape_token: "value_fields [shape_token] = []"
  by (simp add: value_fields_def is_token_def shape_token_def)

lemma set_value_fields: "set (value_fields xs) \<subseteq> set xs"
  by (auto simp: value_fields_def)

lemma hash_fields_in_source:
  assumes "source_primary_key crate \<in> set (field_names sflds)"
  shows "set (value_fields (hash_fields crate dflds sflds)) \<subseteq> set (field_names sflds)"
proof -
  have "set (filter_fields (common_fields dflds sflds) (source_primary_key crate))
          \<subseteq> set (field_names sflds)"
    using set_filter_fields[of "common_fields dflds sflds" "source_primary_key crate"]
      set_common_fields[of dflds sflds] assms by auto
  then show ?thesis
    using set_value_fields[of "filter_fields (common_fields dflds sflds) (source_primary_key crate)"]
    by (auto simp: hash_fields_def Let_def value_fields_append value_fields_shape_token)
qed

lemma Exists_nofault: "faults w = [] \<Longrightarrow> Exists r w = (Inr (exists_in w r), w)"
  by (simp add: Exists_def arcpy_nofault)

lemma ListFields_Source_nofault:
  "faults w = [] \<Longrightarrow> src_exists w \<Longrightarrow> ListFields Source w = (Inr (src_flds w), w)"
  by (simp add: ListFields_def arcpy_nofault)

lemma ListFields_Destination_nofault:
  "faults w = [] \<Longrightarrow> dest w = Some t \<Longrightarrow> ListFields Destination w = (Inr (table_fields t), w)"
  by (simp add: ListFields_def arcpy_nofault)

lemma get_hash_lookups_nofault:
  "faults w = [] \<Longrightarrow> hash_tbl w = Some H \<Longrightarrow>
   get_hash_lookups w = (Inr (foldl hash_lookup_row ([], []) H), w)"
  by (simp add: get_hash_lookups_def SearchCursor_hash_def arcpy_nofault bind_def ret_def)

lemma SearchCursor_source_nofault:
  "faults w = [] \<Longrightarrow> src_exists w \<Longrightarrow>
   set (value_fields flds) \<subseteq> set (field_names (src_flds w)) \<Longrightarrow>
   SearchCursor_source flds w = (Inr (map (read_row flds) (src_rows w)), w)"
  by (simp add: SearchCursor_source_def arcpy_nofault)

lemma ensure_hash_table_nofault:
  assumes "faults w = []" "dest w = Some t"
  shows "ensure_hash_table w =
           (Inr (), case hash_tbl w of
                      None \<Rightarrow> w\<lparr>hash_tbl := Some [], dest := Some (t\<lparr>table_rows := []\<rparr>)\<rparr>
                    | Some rows \<Rightarrow> w)"
  using assms
  by (simp add: ensure_hash_table_def seq_def bind_def CreateTable_management_def
      create_dataset_def AddField_management_def TruncateTable_management_def arcpy_nofault
      Exists_def ret_def split: option.splits)

lemma create_scratch_nofault:
  assumes "faults w = []" "src_exists w" "\<not> is_table crate"
  shows "create_scratch crate c w =
           (Inr (c\<lparr>changes_table := Temp,
                   changes_fields :=
                     (changes_fields c)[length (changes_fields c) - 1 := src_id_field]\<rparr>),
            w\<lparr>temp_tbl := Some []\<rparr>)"
  using assms
  by (simp add: create_scratch_def seq_def bind_def CreateFeatureclass_management_def
      create_dataset_def AddField_management_def InsertCursor_def arcpy_nofault ret_def Let_def)

lemma prepare_changes_nofault:
  assumes "faults w = []" "src_exists w" "needs_reproj \<longrightarrow> \<not> is_table crate"
  shows "(if needs_reproj then create_scratch crate (source_changes crate flds)
          else ret (source_changes crate flds)) w =
           (Inr (initial_changes crate needs_reproj flds),
            if needs_reproj then w\<lparr>temp_tbl := Some []\<rparr> else w)"
  using assms
  by (simp add: create_scratch_nofault source_changes_def initial_changes_def Changes_def
      Let_def ret_def)

lemma hash_scan_nofault:
  assumes nf: "faults w = []"
    and src: "src_exists w"
    and h: "hash_tbl w = Some H"
    and sub: "set (value_fields flds) \<subseteq> set (field_names (src_flds w))"
    and nr: "needs_reproj \<longrightarrow> \<not> is_table crate"
  shows "hash_scan py crate needs_reproj flds w =
           (case hash_loop py crate needs_reproj (map (read_row flds) (src_rows w))
                   \<lparr>changes = initial_changes crate needs_reproj flds,
                    attribute_hashes = fst (foldl hash_lookup_row ([], []) H),
                    geometry_hashes = snd (foldl hash_lookup_row ([], []) H),
                    row_count = 0, unique_salty_id = 0\<rparr>
                   (if needs_reproj then w\<lparr>temp_tbl := Some []\<rparr> else w) of
              (s, w') \<Rightarrow> (Inr (finish_changes s), w'))"
proof -
  define w2 where "w2 = (if needs_reproj then w\<lparr>temp_tbl := Some []\<rparr> else w)"
  have f2: "faults w2 = []" and s2: "src_exists w2" and fl2: "src_flds w2 = src_flds w"
    and r2: "src_rows w2 = src_rows w" and t2: "needs_reproj \<longrightarrow> temp_tbl w2 \<noteq> None"
    using nf src by (simp_all add: w2_def)
  have sc: "SearchCursor_source flds w2 = (Inr (map (read_row flds) (src_rows w)), w2)"
    using SearchCursor_source_nofault[OF f2 s2] sub fl2 r2 by simp
  have pc: "(if needs_reproj then create_scratch crate (source_changes crate flds)
          else ret (source_changes crate flds)) w
           = (Inr (initial_changes crate needs_reproj flds), w2)"
    unfolding w2_def by (rule prepare_changes_nofault[OF nf src nr])
  show ?thesis
    unfolding hash_scan_def w2_def[symmetric]
    by (simp add: bind_def get_hash_lookups_nofault[OF nf h] pc sc
        for_each_hash_row_nofault[OF f2 t2] ret_def split: prod.splits)
qed

lemma hash_nofault:
  assumes nf: "faults w = []"
    and src: "src_exists w"
    and dst: "dest w = Some t"
    and pk: "source_primary_key crate \<in> set (field_names (src_flds w))"
    and nr: "needs_reproj \<longrightarrow> \<not> is_table crate"
  shows "hash py crate needs_reproj w =
           (Inr (finish_changes (fst (hash_result py crate needs_reproj w))),
            snd (hash_result py crate needs_reproj w))"
proof -
  define w1 where "w1 = (case hash_tbl w of
               None \<Rightarrow> w\<lparr>hash_tbl := Some [], dest := Some (t\<lparr>table_rows := []\<rparr>)\<rparr>
             | Some rows \<Rightarrow> w)"
  have f1: "faults w1 = []" and s1: "src_exists w1" and fl1: "src_flds w1 = src_flds w"
    and r1: "src_rows w1 = src_rows w"
    using nf src by (simp_all add: w1_def split: option.splits)
  obtain t1 where d1: "dest w1 = Some t1" and tf1: "table_fields t1 = table_fields t"
    using dst by (cases "hash_tbl w") (auto simp: w1_def)
  obtain H1 where h1: "hash_tbl w1 = Some H1"
    by (cases "hash_tbl w") (auto simp: w1_def)
  define flds where "flds = hash_fields crate (table_fields t) (src_flds w)"
  have sub: "set (value_fields flds) \<subseteq> set (field_names (src_flds w1))"
    unfolding fl1 flds_def by (rule hash_fields_in_source[OF pk])
  have e: "ensure_hash_table w = (Inr (), w1)"
    unfolding w1_def by (rule ensure_hash_table_nofault[OF nf dst])
  have lf: "ListFields Destination w1 = (Inr (table_fields t), w1)"
    using ListFields_Destination_nofault[OF f1 d1] tf1 by simp
  have ls: "ListFields Source w1 = (Inr (src_flds w), w1)"
    using ListFields_Source_nofault[OF f1 s1] fl1 by simp
  have "hash py crate needs_reproj w = hash_scan py crate needs_reproj flds w1"
    unfolding hash_def by (simp add: seq_def bind_def e lf ls flds_def)
  also have "\<dots> = (Inr (finish_changes (fst (hash_result py crate needs_reproj w))),
            snd (hash_result py crate needs_reproj w))"
    unfolding hash_scan_nofault[OF f1 s1 h1 sub nr] hash_result_def Let_def
    using dst h1 r1
    by (simp add: hash_prepare_def Let_def flds_def w1_def split: option.splits prod.splits)
  finally show ?thesis .
qed

lemma foldl_remove1_keep:
  "x \<notin> set ys \<Longrightarrow> foldl (\<lambda>xs r. remove1 r xs) (x # zs) ys = x # foldl (\<lambda>xs r. remove1 r xs) zs ys"
  by (induction ys arbitrary: zs) auto

lemma foldl_remove1_filter:
  "foldl (\<lambda>xs r. remove1 r xs) xs (filter P xs) = filter (\<lambda>x. \<not> P x) xs"
proof (induction xs)
  case Nil
  then show ?case by simp
next
  case (Cons x xs)
  show ?case
  proof (cases "P x")
    case True
    then show ?thesis using Cons.IH by simp
  next
    case False
    then have "x \<notin> set (filter P xs)" by simp
    then show ?thesis
      using False Cons.IH foldl_remove1_keep[of x "filter P xs" xs] by simp
  qed
qed

lemma for_each_deleteRow_destination:
  "faults w = [] \<Longrightarrow> dest w = Some t \<Longrightarrow>
   for_each rows deleteRow_destination () w =
     (Inr (), w\<lparr>dest := Some (t\<lparr>table_rows := foldl (\<lambda>xs r. remove1 r xs) (table_rows t) rows\<rparr>)\<rparr>)"
proof (induction rows arbitrary: w t)
  case Nil
  then show ?case by (simp add: ret_def)
next
  case (Cons r rows)
  let ?t = "t\<lparr>table_rows := remove1 r (table_rows t)\<rparr>"
  let ?w = "w\<lparr>dest := Some ?t\<rparr>"
  have step: "deleteRow_destination r () w = (Inr (), ?w)"
    using Cons.prems by (simp add: deleteRow_destination_def arcpy_nofault)
  have "faults ?w = []" "dest ?w = Some ?t" using Cons.prems by simp_all
  from Cons.IH[OF this] step show ?case
    by (simp add: bind_def)
qed

lemma for_each_deleteRow_hash:
  "faults w = [] \<Longrightarrow> hash_tbl w = Some H \<Longrightarrow>
   for_each rows deleteRow_hash () w =
     (Inr (), w\<lparr>hash_tbl := Some (foldl (\<lambda>xs r. remove1 r xs) H rows)\<rparr>)"
proof (induction rows arbitrary: w H)
  case Nil
  then show ?case by (simp add: ret_def)
next
  case (Cons r rows)
  let ?w = "w\<lparr>hash_tbl := Some (remove1 r H)\<rparr>"
  have step: "deleteRow_hash r () w = (Inr (), ?w)"
    using Cons.prems by (simp add: deleteRow_hash_def arcpy_nofault)
  have "faults ?w = []" "hash_tbl ?w = Some (remove1 r H)" using Cons.prems by simp_all
  from Cons.IH[OF this] step show ?case
    by (simp add: bind_def)
qed

lemma apply_deletes_nofault:
  assumes nf: "faults w = []"
    and dst: "dest w = Some t"
    and pk: "source_primary_key crate \<in> set (field_names (table_fields t))"
    and h: "hash_tbl w = Some H"
  shows "apply_deletes py crate c change_status w =
           (Inr (mark_updated change_status), deletes_result py crate c w)"
proof -
  define rows where
    "rows = filter (deletes_where_clause py c t (source_primary_key crate)) (table_rows t)"
  define w1 where "w1 = w\<lparr>edit_session := Some (Editing (Some t))\<rparr>"
  have open_session: "seq Editor (seq startEditing (seq startOperation k)) w = k w1"
    for k :: "('a world, 'b) prog"
    using nf dst
    by (simp add: seq_def bind_def Editor_def startEditing_def startOperation_def in_session_def
        arcpy_nofault w1_def)
  have f1: "faults w1 = []" and d1: "dest w1 = Some t" and h1: "hash_tbl w1 = Some H"
    using nf dst h by (simp_all add: w1_def)
  have cur: "UpdateCursor_destination py c (source_primary_key crate) w1 = (Inr rows, w1)"
    using f1 d1 pk by (simp add: UpdateCursor_destination_def arcpy_nofault rows_def)
  define t2 where "t2 = t\<lparr>table_rows :=
      filter (\<lambda>r. \<not> deletes_where_clause py c t (source_primary_key crate) r) (table_rows t)\<rparr>"
  define w2 where "w2 = w1\<lparr>dest := Some t2\<rparr>"
  have del: "for_each rows deleteRow_destination () w1 = (Inr (), w2)"
    using for_each_deleteRow_destination[OF f1 d1, of rows]
    by (simp add: rows_def foldl_remove1_filter w2_def t2_def)
  define w3 where "w3 = w2\<lparr>edit_session := Some Idle\<rparr>"
  have close_session: "seq stopOperation (seq (stopEditing True) k) w2 = k w3"
    for k :: "('a world, 'b) prog"
    using f1
    by (simp add: seq_def bind_def stopOperation_def in_session_def stopEditing_def
        arcpy_nofault w2_def w1_def w3_def)
  have f3: "faults w3 = []" and h3: "hash_tbl w3 = Some H"
    using f1 h1 by (simp_all add: w3_def w2_def)
  define hrows where "hrows = filter (\<lambda>r. hash_id r \<in> deletes c) H"
  have hcur: "UpdateCursor_hash c w3 = (Inr hrows, w3)"
    using f3 h3 by (simp add: UpdateCursor_hash_def arcpy_nofault hrows_def)
  have hdel: "for_each hrows deleteRow_hash () w3 =
                (Inr (), w3\<lparr>hash_tbl := Some (filter (\<lambda>r. hash_id r \<notin> deletes c) H)\<rparr>)"
    using for_each_deleteRow_hash[OF f3 h3, of hrows]
    by (simp add: hrows_def foldl_remove1_filter)
  have fin: "w3\<lparr>hash_tbl := Some (filter (\<lambda>r. hash_id r \<notin> deletes c) H)\<rparr>
               = deletes_result py crate c w"
    using dst h by (simp add: deletes_result_def w3_def w2_def w1_def t2_def)
  show ?thesis
    unfolding apply_deletes_def
    apply (subst open_session)
    apply (simp only: bind_def cur prod.case sum.case)
    apply (subst seq_Inr[of "for_each rows deleteRow_destination ()" w1, OF del])
    apply (subst close_session)
    apply (simp add: bind_def hcur seq_def hdel ret_def fin)
    done
qed

lemma for_each_add_row_nofault:
  assumes "faults w = []" "dest w = Some t" "hash_tbl w = Some H"
    and "\<forall>row \<in> set rows. digests_of c (primary_key row) \<noteq> None"
  shows "for_each rows (add_row crate c flds) () w =
           (Inr (), w\<lparr>dest := Some (fst (add_loop crate c flds rows t H)),
                      hash_tbl := Some (snd (add_loop crate c flds rows t H))\<rparr>)"
  using assms
proof (induction rows arbitrary: w t H)
  case Nil
  then show ?case by (simp add: ret_def)
next
  case (Cons row rows)
  show ?case
  proof (cases "\<not> is_table crate \<and> wkt row = None")
    case True
    have "add_row crate c flds row () w = (Inr (), w)"
      using True by (simp add: add_row_def ret_def)
    moreover have "\<forall>row \<in> set rows. digests_of c (primary_key row) \<noteq> None"
      using Cons.prems(4) by simp
    ultimately show ?thesis
      using True Cons.IH[OF Cons.prems(1-3)] by (simp add: bind_def)
  next
    case False
    from Cons.prems(4) obtain ds where ds: "digests_of c (primary_key row) = Some ds"
      by auto
    define t' where "t' = t\<lparr>table_rows := table_rows t @
                      [\<lparr>vals = make_vals (value_fields flds) (cells row), shape = wkt row,
                        oid = next_oid t\<rparr>],
                    next_oid := Suc (next_oid t)\<rparr>"
    define H' where "H' = H @ [\<lparr>hash_id = str_nat (next_oid t), att_hash = Some (fst ds),
                        geom_hash = snd ds\<rparr>]"
    define w' where "w' = w\<lparr>dest := Some t', hash_tbl := Some H'\<rparr>"
    have ins: "insertRow_destination flds row w = (Inr (next_oid t), w\<lparr>dest := Some t'\<rparr>)"
      using Cons.prems(1,2) by (simp add: insertRow_destination_def arcpy_nofault t'_def)
    have hins: "insertRow_hash (next_oid t) ds (w\<lparr>dest := Some t'\<rparr>) = (Inr (), w')"
      using Cons.prems(1,3) by (simp add: insertRow_hash_def arcpy_nofault w'_def H'_def)
    have "add_row crate c flds row () w =
            bind (insertRow_destination flds row) (\<lambda>dest_id.
              (case map_of (adds c) (primary_key row) of
                 Some ds \<Rightarrow> insertRow_hash dest_id ds
               | None \<Rightarrow>
                   (case map_of (unchanged c) (primary_key row) of
                      Some ds \<Rightarrow> insertRow_hash dest_id ds
                    | None \<Rightarrow> throw (Exception (primary_key row))))) w"
      unfolding add_row_def by (subst if_not_P[OF False]) (rule refl)
    then have step: "add_row crate c flds row () w = (Inr (), w')"
      using ds ins hins
      by (auto simp: bind_def digests_of_def split: option.splits)
    have p: "faults w' = []" "dest w' = Some t'" "hash_tbl w' = Some H'"
      using Cons.prems(1) by (simp_all add: w'_def)
    have r: "\<forall>row \<in> set rows. digests_of c (primary_key row) \<noteq> None"
      using Cons.prems(4) by simp
    have loop: "add_loop crate c flds (row # rows) t H = add_loop crate c flds rows t' H'"
      by (subst add_loop.simps, subst if_not_P[OF False]) (simp add: ds t'_def H'_def)
    show ?thesis
      unfolding loop using Cons.IH[OF p r] step
      by (simp add: bind_def w'_def)
  qed
qed

lemma adds_where_clause_digests:
  "\<forall>row \<in> set (add_cursor_rows py c w). digests_of c (primary_key row) \<noteq> None"
proof
  fix row assume "row \<in> set (add_cursor_rows py c w)"
  then have "primary_key row \<in> fst ` set (adds c)"
    by (auto simp: add_cursor_rows_def adds_where_clause_def)
  then have "map_of (adds c) (primary_key row) \<noteq> None"
    by (metis map_of_eq_None_iff)
  then show "digests_of c (primary_key row) \<noteq> None"
    by (auto simp: digests_of_def split: option.splits)
qed

lemma apply_adds_nofault:
  assumes nf: "faults w = []"
    and dst: "dest w = Some t"
    and h: "hash_tbl w = Some H"
    and tbl: "if needs_reproj then changes_table c0 = Temp \<and> temp_tbl w \<noteq> None
              else changes_table c0 = Source \<and> src_exists w
                   \<and> set (value_fields (changes_fields (adds_changes crate needs_reproj c0)))
                        \<subseteq> set (field_names (src_flds w))"
    and ins: "set (value_fields (butlast (changes_fields (adds_changes crate needs_reproj c0))))
                \<subseteq> set (field_names (table_fields t))"
  shows "apply_adds py crate needs_reproj c0 change_status w =
           (Inr (mark_updated change_status), adds_result py crate needs_reproj c0 w)"
proof -
  define c1 where "c1 = (if needs_reproj then c0\<lparr>changes_table := Projected\<rparr> else c0)"
  define w1 where "w1 = (if needs_reproj
                then w\<lparr>proj_tbl := map_option (project_rows w) (temp_tbl w)\<rparr> else w)"
  have proj: "(if needs_reproj
           then bind (Project_management (changes_table c0)) (\<lambda>t. ret (c0\<lparr>changes_table := t\<rparr>))
           else ret c0) w = (Inr c1, w1)"
    using nf tbl
    by (auto simp: Project_management_def arcpy_nofault bind_def ret_def c1_def w1_def
        project_rows_def)
  define c where "c = adds_changes crate needs_reproj c0"
  have c_eq: "(if \<not> is_table crate
              then c1\<lparr>changes_fields :=
                        (changes_fields c1)[length (changes_fields c1) - 2 :=
                           rstrip (changes_fields c1 ! (length (changes_fields c1) - 2)) ''WKT'']\<rparr>
              else c1) = c"
    by (simp add: c_def adds_changes_def Let_def c1_def)
  define w2 where "w2 = w1\<lparr>edit_session := Some (Editing (Some t))\<rparr>"
  have f1: "faults w1 = []" and d1: "dest w1 = Some t" and h1: "hash_tbl w1 = Some H"
    using nf dst h by (simp_all add: w1_def)
  have open_session: "seq Editor (seq startEditing (seq startOperation k)) w1 = k w2"
    for k :: "('a world, 'b) prog"
    using f1 d1
    by (simp add: seq_def bind_def Editor_def startEditing_def startOperation_def in_session_def
        arcpy_nofault w2_def)
  have f2: "faults w2 = []" and d2: "dest w2 = Some t" and h2: "hash_tbl w2 = Some H"
    using f1 d1 h1 by (simp_all add: w2_def)
  define rows where "rows = add_cursor_rows py c w1"
  have ct: "changes_table c = (if needs_reproj then Projected else Source)"
    using tbl by (auto simp: c_def adds_changes_def Let_def)
  have cur: "SearchCursor_adds py c w2 = (Inr rows, w2)"
  proof (cases needs_reproj)
    case True
    then obtain T where "temp_tbl w = Some T" using tbl by auto
    then show ?thesis
      using True ct f2
      by (simp add: SearchCursor_adds_def arcpy_nofault rows_def add_cursor_rows_def w2_def w1_def)
  next
    case False
    then show ?thesis
      using ct f2 tbl
      by (simp add: SearchCursor_adds_def arcpy_nofault rows_def add_cursor_rows_def w2_def
          w1_def c_def)
  qed
  have ic: "InsertCursor Destination (butlast (changes_fields c)) w2 = (Inr (), w2)"
    using f2 d2 ins by (simp add: InsertCursor_def arcpy_nofault c_def)
  have ih: "InsertCursor HashTable [''Id'', ''att_hash'', ''geom_hash''] w2 = (Inr (), w2)"
    using f2 h2 by (simp add: InsertCursor_def arcpy_nofault)
  define th where "th = add_loop crate c (butlast (changes_fields c)) rows t H"
  define w3 where "w3 = w2\<lparr>dest := Some (fst th), hash_tbl := Some (snd th)\<rparr>"
  have loop: "for_each rows (add_row crate c (butlast (changes_fields c))) () w2 = (Inr (), w3)"
    using for_each_add_row_nofault[OF f2 d2 h2, of rows c crate "butlast (changes_fields c)"]
      adds_where_clause_digests[of py c w1]
    by (simp add: rows_def w3_def th_def)
  define w4 where "w4 = w3\<lparr>edit_session := Some Idle\<rparr>"
  have close_session: "seq stopOperation (seq (stopEditing True) k) w3 = k w4"
    for k :: "('a world, 'b) prog"
    using f2
    by (simp add: seq_def bind_def stopOperation_def in_session_def stopEditing_def
        arcpy_nofault w3_def w2_def w4_def)
  have f4: "faults w4 = []" using f2 by (simp add: w4_def w3_def)
  define w5 where "w5 = (if endswith (table_path crate (changes_table c)) reproject_temp_suffix
            \<and> exists_in w4 (changes_table c)
         then delete_in w4 (changes_table c) else w4)"
  have cleanup: "(\<lambda>w. if endswith (table_path crate (changes_table c)) reproject_temp_suffix
                 then bind (Exists (changes_table c)) (\<lambda>table_exists.
                        if table_exists then Delete_management (changes_table c) else ret ()) w
                 else ret () w) w4 = (Inr (), w5)"
    using f4
    by (simp add: bind_def Exists_nofault Delete_management_def arcpy_nofault ret_def w5_def)
  have fin: "w5 = adds_result py crate needs_reproj c0 w"
    using dst h
    by (simp add: adds_result_def Let_def w5_def w4_def w3_def w2_def th_def rows_def
        c_def[symmetric] w1_def[symmetric])
  show ?thesis
    unfolding apply_adds_def
    apply (rule bind_step, rule proj)
    apply (subst open_session)
    apply (simp only: Let_def c_eq)
    apply (rule bind_step, rule cur)
    apply (rule seq_step, rule ic)
    apply (rule seq_step, rule ih)
    apply (rule seq_step, rule loop)
    apply (subst close_session)
    apply (rule seq_step, rule cleanup)
    apply (simp add: ret_def fin)
    done
qed

lemma hash_step_fields:
  "changes_fields (changes (hash_step py crate row s)) = changes_fields (changes s)
   \<and> changes_table (changes (hash_step py crate row s)) = changes_table (changes s)"
  by (simp add: hash_step_def Let_def)

lemma hash_loop_fields:
  "changes_fields (changes (fst (hash_loop py crate nr rows s w))) = changes_fields (changes s)
   \<and> changes_table (changes (fst (hash_loop py crate nr rows s w))) = changes_table (changes s)"
  by (induction rows arbitrary: s w) (simp_all add: hash_step_fields)

lemma finish_changes_fields:
  "changes_fields (finish_changes s) = changes_fields (changes s)
   \<and> changes_table (finish_changes s) = changes_table (changes s)
   \<and> adds (finish_changes s) = adds (changes s)
   \<and> unchanged (finish_changes s) = unchanged (changes s)
   \<and> deletes (finish_changes s)
       = snd ` set (attribute_hashes s) \<union> snd ` set (geometry_hashes s)
   \<and> total_rows (finish_changes s) = row_count s"
  by (simp add: finish_changes_def determine_deletes_def)

lemma hash_effect_temp:
  "temp_tbl w \<noteq> None \<Longrightarrow> temp_tbl (hash_effect py crate nr row s w) \<noteq> None"
  by (auto simp: hash_effect_def Let_def split: option.splits)

lemma hash_loop_temp:
  "temp_tbl w \<noteq> None \<Longrightarrow> temp_tbl (snd (hash_loop py crate nr rows s w)) \<noteq> None"
proof (induction rows arbitrary: s w)
  case Nil
  then show ?case by simp
next
  case (Cons row rows)
  from Cons.IH[OF hash_effect_temp[OF Cons.prems]] show ?case by simp
qed

lemma sync_changes_fields:
  "changes_fields (sync_changes py crate w)
     = hash_fields crate (case dest w of None \<Rightarrow> [] | Some t \<Rightarrow> table_fields t) (src_flds w)
       @ [if needs_reproject crate then src_id_field else source_primary_key crate]"
  "changes_table (sync_changes py crate w) = (if needs_reproject crate then Temp else Source)"
  by (simp_all add: sync_changes_def finish_changes_fields hash_result_def Let_def
      hash_loop_fields initial_changes_def)

lemma hash_result_world:
  assumes "dest w = Some t"
  shows "\<exists>T W. snd (hash_result py crate nr w) =
           (case hash_tbl w of
              None \<Rightarrow> w\<lparr>hash_tbl := Some [], dest := Some (t\<lparr>table_rows := []\<rparr>)\<rparr>
            | Some H \<Rightarrow> w)\<lparr>temp_tbl := T, warnings := W\<rparr>
         \<and> (nr \<longrightarrow> T \<noteq> None)"
proof -
  define w1 where "w1 = (case hash_tbl w of
              None \<Rightarrow> w\<lparr>hash_tbl := Some [], dest := Some (t\<lparr>table_rows := []\<rparr>)\<rparr>
            | Some H \<Rightarrow> w)"
  define w2 where "w2 = (if nr then w1\<lparr>temp_tbl := Some []\<rparr> else w1)"
  have prep: "hash_prepare nr w = w2"
    using assms by (simp add: hash_prepare_def Let_def w2_def w1_def split: option.splits)
  obtain rows s where res: "hash_result py crate nr w = hash_loop py crate nr rows s w2"
    unfolding hash_result_def Let_def prep by blast
  obtain T W where tw: "snd (hash_loop py crate nr rows s w2) = w2\<lparr>temp_tbl := T, warnings := W\<rparr>"
    using hash_loop_frame by blast
  have "nr \<longrightarrow> temp_tbl (snd (hash_loop py crate nr rows s w2)) \<noteq> None"
  proof
    assume nr
    then have "temp_tbl w2 \<noteq> None" by (simp add: w2_def)
    then show "temp_tbl (snd (hash_loop py crate nr rows s w2)) \<noteq> None"
      by (rule hash_loop_temp)
  qed
  then have "nr \<longrightarrow> T \<noteq> None" unfolding tw by simp
  moreover have "w2\<lparr>temp_tbl := T, warnings := W\<rparr> = w1\<lparr>temp_tbl := T, warnings := W\<rparr>"
    by (simp add: w2_def)
  then have "snd (hash_result py crate nr w) = w1\<lparr>temp_tbl := T, warnings := W\<rparr>"
    by (simp only: res tw)
  ultimately show ?thesis unfolding w1_def by blast
qed

lemma update_second_last:
  "(xs @ [a, b])[length (xs @ [a, b]) - 2 := f ((xs @ [a, b]) ! (length (xs @ [a, b]) - 2))]
     = xs @ [f a, b]"
  by (simp add: list_update_append nth_append)

lemma rstrip_shape_token: "rstrip shape_token ''WKT'' = ''SHAPE@''"
  by (simp add: rstrip_def shape_token_def)

lemma adds_changes_fields:
  assumes "changes_fields c = hash_fields crate dflds sflds @ [k]"
  shows "changes_fields (adds_changes crate nr c) =
           filter_fields (common_fields dflds sflds) (source_primary_key crate)
           @ (if is_table crate then [] else [''SHAPE@'']) @ [k]"
proof (cases "is_table crate")
  case True
  then show ?thesis
    using assms by (simp add: adds_changes_def Let_def hash_fields_def)
next
  case False
  define xs where "xs = filter_fields (common_fields dflds sflds) (source_primary_key crate)"
  have cf: "changes_fields c = xs @ [shape_token, k]"
    using assms False by (simp add: hash_fields_def Let_def xs_def)
  show ?thesis
    using False update_second_last[of xs shape_token k "\<lambda>x. rstrip x ''WKT''"]
    by (simp add: adds_changes_def Let_def cf rstrip_shape_token xs_def[symmetric])
qed

lemma adds_changes_table:
  "changes_table (adds_changes crate nr c) = (if nr then Projected else changes_table c)"
  by (simp add: adds_changes_def Let_def)

lemma adds_changes_maps:
  "adds (adds_changes crate nr c) = adds c \<and> unchanged (adds_changes crate nr c) = unchanged c
   \<and> deletes (adds_changes crate nr c) = deletes c"
  by (simp add: adds_changes_def Let_def)

lemma value_fields_SHAPE: "value_fields [''SHAPE@''] = []"
  by (simp add: value_fields_def is_token_def)

lemma value_fields_Nil: "value_fields [] = []"
  by (simp add: value_fields_def)

lemma set_common_fields_dest: "set (common_fields dflds sflds) \<subseteq> set (field_names dflds)"
  by (auto simp: common_fields_def)

lemma filter_fields_in:
  assumes "pk \<in> A" "set flds \<subseteq> A"
  shows "set (value_fields (filter_fields flds pk)) \<subseteq> A"
  using set_filter_fields[of flds pk] set_value_fields[of "filter_fields flds pk"] assms by auto

lemma synchronize_nofault:
  assumes nf: "faults w = []"
    and src: "src_exists w"
    and dst: "dest w = Some t"
    and pks: "source_primary_key crate \<in> set (field_names (src_flds w))"
    and pkd: "source_primary_key crate \<in> set (field_names (table_fields t))"
    and nr: "needs_reproject crate \<longrightarrow> \<not> is_table crate"
    and valid: "validate crate validate_crate w = (Inr None, w)"
  shows "synchronize py crate validate_crate change_status w =
           (Inr (if has_changes (sync_changes py crate w) then mark_updated change_status
                 else change_status),
            sync_result py crate w)"
proof -
  define c where "c = sync_changes py crate w"
  define wh where "wh = snd (hash_result py crate (needs_reproject crate) w)"
  define wd where "wd = (if has_deletes c then deletes_result py crate c wh else wh)"
  define cs1 where "cs1 = (if has_deletes c then mark_updated change_status else change_status)"
  have hs: "hash py crate (needs_reproject crate) w = (Inr c, wh)"
    unfolding c_def wh_def sync_changes_def by (rule hash_nofault[OF nf src dst pks nr])
  obtain T W where wh_eq: "wh = (case hash_tbl w of
              None \<Rightarrow> w\<lparr>hash_tbl := Some [], dest := Some (t\<lparr>table_rows := []\<rparr>)\<rparr>
            | Some H \<Rightarrow> w)\<lparr>temp_tbl := T, warnings := W\<rparr>"
    and T: "needs_reproject crate \<longrightarrow> T \<noteq> None"
    using hash_result_world[OF dst, of py crate "needs_reproject crate"] unfolding wh_def by blast
  have fh: "faults wh = []" and sh: "src_exists wh" and flh: "src_flds wh = src_flds w"
    and th: "temp_tbl wh = T"
    using nf src by (simp_all add: wh_eq split: option.splits)
  obtain t1 where dh: "dest wh = Some t1" and tf1: "table_fields t1 = table_fields t"
    using dst by (cases "hash_tbl w") (auto simp: wh_eq)
  obtain H1 where hh: "hash_tbl wh = Some H1"
    by (cases "hash_tbl w") (auto simp: wh_eq)
  have pkd1: "source_primary_key crate \<in> set (field_names (table_fields t1))"
    using pkd tf1 by simp
  have del: "(if has_deletes c then apply_deletes py crate c change_status
                else ret change_status) wh = (Inr cs1, wd)"
    using apply_deletes_nofault[OF fh dh pkd1 hh, of py c change_status]
    by (simp add: cs1_def wd_def ret_def)
  have fd: "faults wd = []" and sd: "src_exists wd" and fld: "src_flds wd = src_flds w"
    and td: "temp_tbl wd = T"
    using fh sh flh th by (simp_all add: wd_def deletes_result_def)
  obtain t2 where dd: "dest wd = Some t2" and tf2: "table_fields t2 = table_fields t"
    using dh tf1 by (cases "has_deletes c") (auto simp: wd_def deletes_result_def)
  obtain H2 where hd: "hash_tbl wd = Some H2"
    using hh by (cases "has_deletes c") (auto simp: wd_def deletes_result_def)
  have cf: "changes_fields c = hash_fields crate (table_fields t) (src_flds w)
       @ [if needs_reproject crate then src_id_field else source_primary_key crate]"
    and ct: "changes_table c = (if needs_reproject crate then Temp else Source)"
    using sync_changes_fields[of py crate w] dst by (simp_all add: c_def)
  note acf = adds_changes_fields[OF cf, of "needs_reproject crate"]
  have flds_src: "set (value_fields (filter_fields (common_fields (table_fields t) (src_flds w))
                    (source_primary_key crate))) \<subseteq> set (field_names (src_flds w))"
    by (rule filter_fields_in[OF pks set_common_fields])
  have flds_dst: "set (value_fields (filter_fields (common_fields (table_fields t) (src_flds w))
                    (source_primary_key crate))) \<subseteq> set (field_names (table_fields t))"
    by (rule filter_fields_in[OF pkd set_common_fields_dest])
  define ac where "ac = adds_changes crate (needs_reproject crate) c"
  define k where "k = (if needs_reproject crate then src_id_field else source_primary_key crate)"
  define flds0 where "flds0 = filter_fields (common_fields (table_fields t) (src_flds w))
                    (source_primary_key crate)"
  have acf': "changes_fields ac = flds0 @ (if is_table crate then [] else [''SHAPE@'']) @ [k]"
    unfolding ac_def k_def flds0_def by (rule acf)
  have vf: "set (value_fields (changes_fields ac)) = set (value_fields flds0) \<union> set (value_fields [k])"
    by (simp add: acf' value_fields_append value_fields_SHAPE value_fields_Nil)
  have vb: "set (value_fields (butlast (changes_fields ac))) = set (value_fields flds0)"
    by (simp add: acf' butlast_append value_fields_append value_fields_SHAPE value_fields_Nil)
  have tbl: "if needs_reproject crate then changes_table c = Temp \<and> temp_tbl wd \<noteq> None
              else changes_table c = Source \<and> src_exists wd
                   \<and> set (value_fields (changes_fields ac)) \<subseteq> set (field_names (src_flds wd))"
  proof (cases "needs_reproject crate")
    case True
    then show ?thesis using ct T td by simp
  next
    case False
    then have "k = source_primary_key crate" by (simp add: k_def)
    then have "set (value_fields [k]) \<subseteq> set (field_names (src_flds w))"
      using pks set_value_fields[of "[k]"] by auto
    then show ?thesis
      using False ct sd fld flds_src unfolding vf flds0_def by simp
  qed
  have ins: "set (value_fields (butlast (changes_fields ac))) \<subseteq> set (field_names (table_fields t2))"
    using flds_dst tf2 unfolding vb flds0_def by simp
  have add: "(if has_adds c then apply_adds py crate (needs_reproject crate) c cs1
                else ret cs1) wd
             = (Inr (if has_adds c then mark_updated cs1 else cs1), sync_result py crate w)"
    using apply_adds_nofault[OF fd dd hd tbl[unfolded ac_def] ins[unfolded ac_def], of py cs1]
    by (simp add: ret_def sync_result_def Let_def c_def[symmetric] wh_def[symmetric]
        wd_def[symmetric])
  have st: "(if has_adds c then mark_updated cs1 else cs1)
              = (if has_changes c then mark_updated change_status else change_status)"
    by (cases change_status) (auto simp: cs1_def has_changes_def mark_updated_def)
  show ?thesis
    unfolding synchronize_def c_def[symmetric]
    apply (rule bind_step, rule valid)
    apply (simp only: option.case)
    apply (rule bind_step, rule hs)
    apply (rule bind_step, rule del)
    apply (rule bind_step, rule add)
    apply (simp add: ret_def st)
    done
qed

lemma check_schema_nofault:
  assumes "faults w = []" "src_exists w" "dest w = Some t"
  shows "check_schema crate w =
           (case compare_schema (crate_source crate) (src_flds w) (table_fields t) of
              Inl e \<Rightarrow> (Inl e, w)
            | Inr b \<Rightarrow> (Inr b, w))"
  using assms
  by (simp add: check_schema_def bind_def ListFields_Source_nofault
      ListFields_Destination_nofault ret_def throw_def split: sum.splits)

lemma validate_passes:
  assumes "faults w = []" "src_exists w" "dest w = Some t"
    and "validate_crate crate w = Inr Validated
         \<or> (validate_crate crate w = Inr NotImplemented
            \<and> compare_schema (crate_source crate) (src_flds w) (table_fields t) = Inr True)"
  shows "validate crate validate_crate w = (Inr None, w)"
  using assms(4) check_schema_nofault[OF assms(1-3), of crate]
  by (auto simp: validate_def bind_def seq_def ret_def)

lemma validate_default_fails:
  assumes "faults w = []" "src_exists w" "dest w = Some t"
    and "validate_crate crate w = Inr NotImplemented"
    and "compare_schema (crate_source crate) (src_flds w) (table_fields t)
           = Inl (ValidationException m)"
  shows "validate crate validate_crate w = (Inr (Some m), w)"
  using assms(4,5) check_schema_nofault[OF assms(1-3), of crate]
  by (auto simp: validate_def bind_def seq_def ret_def)

lemma validate_custom_fails:
  assumes "validate_crate crate w = Inl (ValidationException m)"
  shows "validate crate validate_crate w = (Inr (Some m), w)"
  using assms by (simp add: validate_def bind_def)

lemma ensure_destination_existing:
  assumes "faults w = []" "dest w = Some t"
  shows "ensure_destination crate w = (Inr (NO_CHANGES, None), w)"
  using assms by (simp add: ensure_destination_def bind_def Exists_nofault ret_def)

lemma create_destination_data_nofault:
  assumes "faults w = []" "src_exists w"
    and "workspace_exists w \<or> endswith (destination_workspace crate) ''.gdb''"
  shows "create_destination_data crate w =
           (Inr (), w\<lparr>workspace_exists := True,
                      dest := Some (if \<not> is_table crate \<and> source_dataType crate = ''ShapeFile''
                                    then (new_table (src_flds w))
                                           \<lparr>table_fields := template_fields (src_flds w) @
                                              [\<lparr>field_name = ''FID'', field_type = ''Integer'',
                                                field_length = 4\<rparr>]\<rparr>
                                    else new_table (src_flds w))\<rparr>)"
proof -
  define w1 where "w1 = w\<lparr>workspace_exists := True\<rparr>"
  have ws: "(\<lambda>w. if \<not> workspace_exists w
               then (if endswith (destination_workspace crate) ''.gdb''
                     then CreateFileGDB_management w
                     else throw (Exception (''destination_workspace does not exist! ''
                                            @ destination_workspace crate)) w)
               else ret () w) w = (Inr (), w1)"
    using assms(1,3) by (auto simp: CreateFileGDB_management_def arcpy_nofault ret_def w1_def)
  have p: "faults w1 = []" "src_exists w1" "workspace_exists w1" "src_flds w1 = src_flds w"
    using assms by (simp_all add: w1_def)
  show ?thesis
    unfolding create_destination_data_def
    apply (rule seq_step, rule ws)
    using p
    apply (simp add: CreateTable_management_def CreateFeatureclass_management_def create_dataset_def
        arcpy_nofault Describe_def seq_def bind_def AddField_management_def ret_def new_table_def)
    apply (simp add: w1_def)
    done
qed

section \<open>A missing hash table\<close>

lemma hash_step_no_lookup:
  assumes "attribute_hashes s = []"
  shows "attribute_hashes (hash_step py crate row s) = []
       \<and> geometry_hashes (hash_step py crate row s) = geometry_hashes s
       \<and> unchanged (changes (hash_step py crate row s)) = unchanged (changes s)
       \<and> fst ` set (adds (changes (hash_step py crate row s)))
           = fst ` set (adds (changes s))
             \<union> (if \<not> is_table crate \<and> wkt row = None then {}
                else {str_value py (last (cells row))})"
  using assms by (simp add: hash_step_def Let_def dom_update)

lemma hash_loop_no_lookup:
  assumes "attribute_hashes s = []"
  shows "attribute_hashes (fst (hash_loop py crate nr rows s w)) = []
       \<and> geometry_hashes (fst (hash_loop py crate nr rows s w)) = geometry_hashes s
       \<and> unchanged (changes (fst (hash_loop py crate nr rows s w))) = unchanged (changes s)
       \<and> fst ` set (adds (changes (fst (hash_loop py crate nr rows s w))))
           = fst ` set (adds (changes s))
             \<union> {str_value py (last (cells row)) | row.
                  row \<in> set rows \<and> \<not> (\<not> is_table crate \<and> wkt row = None)}"
  using assms
proof (induction rows arbitrary: s w)
  case Nil
  then show ?case by simp
next
  case (Cons row rows)
  note st = hash_step_no_lookup[OF Cons.prems, of py crate row]
  from st have a: "attribute_hashes (hash_step py crate row s) = []" by simp
  note ih = Cons.IH[OF a, of "hash_effect py crate nr row s w"]
  show ?case
    using ih st by (auto simp: )
qed


lemma hash_lookups_Nil: "foldl hash_lookup_row ([], []) [] = ([], [])"
  by simp

text \<open>
  Claim C10. When the hash table of the crate does not exist, \<^verbatim>\<open>_hash\<close> first creates it
  and truncates the destination (the block \<open>ensure_hash_table\<close>, which runs before the
  fields are listed and before any record is read), so that in a run without store faults
  the destination has lost every row it had when \<^verbatim>\<open>_hash\<close> returns. Both lookups are then
  empty: no record is unchanged, nothing is left to delete, and every record that is not
  skipped is an add, whatever the destination held.
\<close>

theorem hash_without_hash_table:
  assumes "faults w = []" and "src_exists w" and "dest w = Some t"
    and "source_primary_key crate \<in> set (field_names (src_flds w))"
    and "needs_reproj \<longrightarrow> \<not> is_table crate"
    and "hash_tbl w = None"
  shows "ensure_hash_table w
           = (Inr (), w\<lparr>hash_tbl := Some [], dest := Some (t\<lparr>table_rows := []\<rparr>)\<rparr>)
       \<and> (\<exists>c w'. hash py crate needs_reproj w = (Inr c, w')
              \<and> hash_tbl w' = Some []
              \<and> dest w' = Some (t\<lparr>table_rows := []\<rparr>)
              \<and> unchanged c = [] \<and> deletes c = {}
              \<and> (\<forall>row \<in> set (map (read_row (hash_fields crate (table_fields t) (src_flds w)))
                                  (src_rows w)).
                    is_table crate \<or> wkt row \<noteq> None
                    \<longrightarrow> str_value py (last (cells row)) \<in> fst ` set (adds c)))"
proof -
  have e: "ensure_hash_table w
           = (Inr (), w\<lparr>hash_tbl := Some [], dest := Some (t\<lparr>table_rows := []\<rparr>)\<rparr>)"
    using ensure_hash_table_nofault[OF assms(1,3)] assms(6) by simp
  define flds where "flds = hash_fields crate (table_fields t) (src_flds w)"
  define rows where "rows = map (read_row flds) (src_rows w)"
  define s0 where "s0 = \<lparr>changes = initial_changes crate needs_reproj flds,
            attribute_hashes = [], geometry_hashes = [],
            row_count = 0, unique_salty_id = 0\<rparr>"
  define w1 where "w1 = hash_prepare needs_reproj w"
  have res: "hash_result py crate needs_reproj w = hash_loop py crate needs_reproj rows s0 w1"
    using assms(3,6)
    by (simp add: hash_result_def Let_def hash_prepare_def w1_def rows_def flds_def s0_def)
  define s where "s = fst (hash_loop py crate needs_reproj rows s0 w1)"
  define w' where "w' = snd (hash_loop py crate needs_reproj rows s0 w1)"
  have run: "hash py crate needs_reproj w = (Inr (finish_changes s), w')"
    using hash_nofault[OF assms(1-5), of py] by (simp add: res s_def w'_def)
  have a0: "attribute_hashes s0 = []" by (simp add: s0_def)
  note l = hash_loop_no_lookup[OF a0, of py crate needs_reproj rows w1, folded s_def]
  obtain T W where "w' = (case hash_tbl w of
              None \<Rightarrow> w\<lparr>hash_tbl := Some [], dest := Some (t\<lparr>table_rows := []\<rparr>)\<rparr>
            | Some H \<Rightarrow> w)\<lparr>temp_tbl := T, warnings := W\<rparr>"
    using hash_result_world[OF assms(3), of py crate needs_reproj]
    by (auto simp: res w'_def)
  then have world: "hash_tbl w' = Some []" "dest w' = Some (t\<lparr>table_rows := []\<rparr>)"
    using assms(6) by simp_all
  have u: "unchanged (finish_changes s) = []"
    using l by (simp add: finish_changes_fields s0_def initial_changes_def)
  have d: "deletes (finish_changes s) = {}"
    using l by (simp add: finish_changes_fields s0_def)
  have k: "\<forall>row \<in> set rows. is_table crate \<or> wkt row \<noteq> None
             \<longrightarrow> str_value py (last (cells row)) \<in> fst ` set (adds (finish_changes s))"
    using l by (auto simp: finish_changes_fields)
  show ?thesis
    using e run world u d k unfolding rows_def flds_def by blast
qed


text \<open>
  The theorem at a destination with one stale row: the row is gone and both source records
  are adds.
\<close>

theorem hash_without_hash_table_witness:
  "\<exists>c w'. hash ex_python ex_crate False ex_stale_world = (Inr c, w')
          \<and> hash_tbl w' = Some []
          \<and> dest w' = Some (ex_table\<lparr>table_rows := []\<rparr>)
          \<and> ''1'' \<in> fst ` set (adds c) \<and> ''2'' \<in> fst ` set (adds c)"
proof -
  have rows: "map (read_row (hash_fields ex_crate (table_fields ex_table) (src_flds ex_stale_world)))
                (src_rows ex_stale_world)
              = [\<lparr>cells = [Some ''a'', Some ''1''], wkt = None\<rparr>,
                 \<lparr>cells = [Some ''b'', Some ''2''], wkt = None\<rparr>]"
    by code_simp
  have pk: "source_primary_key ex_crate \<in> set (field_names (src_flds ex_stale_world))"
    by (simp add: ex_crate_def ex_stale_world_def ex_world_def ex_fields_def field_names_def)
  from hash_without_hash_table[of ex_stale_world ex_table ex_crate False ex_python, OF _ _ _ pk]
  obtain c w' where
    "hash ex_python ex_crate False ex_stale_world = (Inr c, w')"
    "hash_tbl w' = Some []" "dest w' = Some (ex_table\<lparr>table_rows := []\<rparr>)"
    "\<forall>row \<in> set (map (read_row (hash_fields ex_crate (table_fields ex_table)
                                  (src_flds ex_stale_world))) (src_rows ex_stale_world)).
        is_table ex_crate \<or> wkt row \<noteq> None
        \<longrightarrow> str_value ex_python (last (cells row)) \<in> fst ` set (adds c)"
    by (auto simp: ex_stale_world_def ex_world_def)
  then show ?thesis
    unfolding rows by (auto simp: ex_crate_def str_value_def ex_python_def)
qed

section \<open>A schema mismatch blocks the apply\<close>

lemma keys_get_fields_step:
  "fst ` set (foldl add_field acc fs)
     = fst ` set acc
       \<union> {upper (field_name f) | f. f \<in> set fs \<and> \<not> is_naughty_field (field_name f)
                                   \<and> field_name f \<notin> set [''OBJECTID'', ''FID'']}"
proof (induction fs arbitrary: acc)
  case Nil
  then show ?case by simp
next
  case (Cons f fs)
  show ?case
    by (subst foldl_Cons, subst Cons.IH) (auto simp: add_field_def dom_update)
qed

lemma keys_get_fields:
  "fst ` set (get_fields fs)
     = {upper (field_name f) | f. f \<in> set fs \<and> \<not> is_naughty_field (field_name f)
                                  \<and> field_name f \<notin> set [''OBJECTID'', ''FID'']}"
  unfolding get_fields_def by (subst keys_get_fields_step) simp

lemma missing_field_fails:
  assumes "f \<in> set destination_flds"
    and "\<not> is_naughty_field (field_name f)"
    and "field_name f \<notin> set [''OBJECTID'', ''FID'']"
    and "upper (field_name f) \<notin> fst ` set (get_fields source_flds)"
  shows "fst (collect_fields (get_fields source_flds) (get_fields destination_flds)) \<noteq> []
       \<and> compare_schema src source_flds destination_flds
           = Inl (ValidationException
                   (''Missing fields in '' @ src @ '': '' @ join '', ''
                      (fst (collect_fields (get_fields source_flds)
                              (get_fields destination_flds)))))"
proof -
  have "upper (field_name f) \<in> fst ` set (get_fields destination_flds)"
    using assms(1-3) unfolding keys_get_fields by blast
  then obtain d where d: "(upper (field_name f), d) \<in> set (get_fields destination_flds)"
    by auto
  have "map_of (get_fields source_flds) (upper (field_name f)) = None"
    using assms(4) by (simp add: map_of_eq_None_iff)
  with d have "filter (\<lambda>kd. map_of (get_fields source_flds) (fst kd) = None)
                 (get_fields destination_flds) \<noteq> []"
    by (force simp: filter_empty_conv)
  then have ne: "fst (collect_fields (get_fields source_flds) (get_fields destination_flds)) \<noteq> []"
    unfolding collect_fields_missing by simp
  then show ?thesis
    by (cases "collect_fields (get_fields source_flds) (get_fields destination_flds)")
       (simp add: compare_schema_def)
qed

lemma update_invalid:
  assumes "faults w = []" and "dest w = Some t"
    and "validate crate validate_crate
           (w\<lparr>env_transformations := geographic_transformation crate, edit_session := None\<rparr>)
         = (Inr (Some m),
            w\<lparr>env_transformations := geographic_transformation crate, edit_session := None\<rparr>)"
  shows "update py crate validate_crate w =
           (Inr (INVALID_DATA, Some m), w\<lparr>env_transformations := None, edit_session := None\<rparr>)"
proof -
  define w1 where
    "w1 = w\<lparr>env_transformations := geographic_transformation crate, edit_session := None\<rparr>"
  have p: "faults w1 = []" "dest w1 = Some t" using assms(1,2) by (simp_all add: w1_def)
  have sy: "synchronize py crate validate_crate (NO_CHANGES, None) w1
          = (Inr (INVALID_DATA, Some m), w1)"
    unfolding synchronize_def
    by (rule bind_step, rule assms(3)[folded w1_def]) (simp add: ret_def)
  have "update_body py crate validate_crate w1 = (Inr (INVALID_DATA, Some m), w1)"
    unfolding update_body_def
    by (rule bind_step, rule ensure_destination_existing[OF p], rule sy)
  then show ?thesis
    by (simp add: update_def w1_def[symmetric] try_except_def ResetEnvironments_def)
       (simp add: w1_def)
qed

text \<open>
  Claim C5. The destination exists and declares a field (not one of the excluded managed
  fields) that the source does not have under the same upper-cased name; the validator of
  the pallet asks for the default schema check and the store raises nothing. Then \<^verbatim>\<open>update\<close>
  returns \<^verbatim>\<open>INVALID_DATA\<close> with the message that lists the missing fields, and the
  destination and the hash table are what they were. (Lemma \<open>update_invalid\<close> is the same
  for any validator that fails with a \<^verbatim>\<open>ValidationException\<close>.)
\<close>

theorem schema_mismatch_blocks_apply:
  assumes "faults w = []" and "src_exists w" and "dest w = Some t"
    and "validate_crate crate
           (w\<lparr>env_transformations := geographic_transformation crate, edit_session := None\<rparr>)
         = Inr NotImplemented"
    and "f \<in> set (table_fields t)"
    and "\<not> is_naughty_field (field_name f)"
    and "field_name f \<notin> set [''OBJECTID'', ''FID'']"
    and "upper (field_name f) \<notin> fst ` set (get_fields (src_flds w))"
  shows "\<exists>w'. update py crate validate_crate w =
                (Inr (INVALID_DATA,
                      Some (''Missing fields in '' @ crate_source crate @ '': '' @ join '', ''
                              (fst (collect_fields (get_fields (src_flds w))
                                      (get_fields (table_fields t)))))), w')
            \<and> dest w' = dest w \<and> hash_tbl w' = hash_tbl w
            \<and> fst (collect_fields (get_fields (src_flds w)) (get_fields (table_fields t))) \<noteq> []"
proof -
  define w1 where
    "w1 = w\<lparr>env_transformations := geographic_transformation crate, edit_session := None\<rparr>"
  define m where "m = ''Missing fields in '' @ crate_source crate @ '': '' @ join '', ''
                              (fst (collect_fields (get_fields (src_flds w))
                                      (get_fields (table_fields t))))"
  have p: "faults w1 = []" "src_exists w1" "dest w1 = Some t" "src_flds w1 = src_flds w"
    using assms(1-3) by (simp_all add: w1_def)
  note mf = missing_field_fails[OF assms(5-8), of "crate_source crate"]
  have "validate crate validate_crate w1 = (Inr (Some m), w1)"
    using validate_default_fails[of w1 t validate_crate crate m, OF p(1-3) assms(4)[folded w1_def]] mf
    by (simp add: p(4) m_def)
  from update_invalid[OF assms(1,3) this[unfolded w1_def], of py]
  show ?thesis
    using mf by (simp add: m_def)
qed


text \<open>
  The theorem at a destination with a field \<^verbatim>\<open>EXTRA\<close> that the source lacks.
\<close>

theorem schema_mismatch_blocks_apply_witness:
  "\<exists>w'. update ex_python ex_crate ex_validator
            (ex_stale_world\<lparr>dest := Some (ex_table\<lparr>table_fields := table_fields ex_table @
               [\<lparr>field_name = ''EXTRA'', field_type = ''String'', field_length = 5\<rparr>]\<rparr>)\<rparr>)
          = (Inr (INVALID_DATA, Some ''Missing fields in src: EXTRA''), w')
        \<and> dest w' = Some (ex_table\<lparr>table_fields := table_fields ex_table @
               [\<lparr>field_name = ''EXTRA'', field_type = ''String'', field_length = 5\<rparr>]\<rparr>)
        \<and> hash_tbl w' = None"
proof -
  define t where "t = ex_table\<lparr>table_fields := table_fields ex_table @
               [\<lparr>field_name = ''EXTRA'', field_type = ''String'', field_length = 5\<rparr>]\<rparr>"
  define w where "w = ex_stale_world\<lparr>dest := Some t\<rparr>"
  define f where "f = \<lparr>field_name = ''EXTRA'', field_type = ''String'', field_length = 5\<rparr>"
  have c: "fst (collect_fields (get_fields (src_flds w)) (get_fields (table_fields t)))
             = [''EXTRA'']"
    unfolding w_def t_def by code_simp
  have k: "upper (field_name f) \<notin> fst ` set (get_fields (src_flds w))"
    unfolding w_def f_def by code_simp
  have n: "\<not> is_naughty_field (field_name f)"
    unfolding f_def by code_simp
  have p: "faults w = []" "src_exists w" "dest w = Some t"
    "ex_validator ex_crate
       (w\<lparr>env_transformations := geographic_transformation ex_crate, edit_session := None\<rparr>)
     = Inr NotImplemented"
    "f \<in> set (table_fields t)" "field_name f \<notin> set [''OBJECTID'', ''FID'']"
    by (simp_all add: w_def ex_stale_world_def ex_world_def ex_validator_def t_def f_def)
  from schema_mismatch_blocks_apply[where w = w and t = t and validate_crate = ex_validator
      and crate = ex_crate and f = f and py = ex_python, OF p(1-5) n p(6) k]
  show ?thesis
    unfolding c by (simp add: w_def t_def ex_crate_def ex_stale_world_def ex_world_def)
qed

section \<open>Creating the destination\<close>

lemma map_of_get_fields_step:
  "map_of (foldl add_field acc fs) k
     = (case filter (\<lambda>f. (\<not> is_naughty_field (field_name f)
                            \<and> field_name f \<notin> set [''OBJECTID'', ''FID''])
                          \<and> upper (field_name f) = k) fs of
          [] \<Rightarrow> map_of acc k
        | x # xs \<Rightarrow> Some (last (x # xs)))"
proof (induction fs arbitrary: acc)
  case Nil
  then show ?case by simp
next
  case (Cons f fs)
  show ?case
    by (subst foldl_Cons, subst Cons.IH)
       (auto simp: add_field_def update_conv' split: list.splits)
qed

lemma map_of_get_fields:
  "map_of (get_fields fs) k
     = (case filter (\<lambda>f. (\<not> is_naughty_field (field_name f)
                            \<and> field_name f \<notin> set [''OBJECTID'', ''FID''])
                          \<and> upper (field_name f) = k) fs of
          [] \<Rightarrow> None
        | x # xs \<Rightarrow> Some (last (x # xs)))"
  unfolding get_fields_def by (subst map_of_get_fields_step) (simp split: list.splits)

lemma distinct_keys_get_fields_step:
  "distinct (map fst acc) \<Longrightarrow> distinct (map fst (foldl add_field acc fs))"
  by (induction fs arbitrary: acc) (simp_all add: add_field_def distinct_update)

lemma distinct_keys_get_fields: "distinct (map fst (get_fields fs))"
  unfolding get_fields_def by (rule distinct_keys_get_fields_step) simp

lemma filter_singleton:
  assumes "distinct (map g xs)" "x \<in> set xs" "P x"
  shows "filter (\<lambda>y. P y \<and> g y = g x) xs = [x]"
  using assms
proof (induction xs)
  case Nil
  then show ?case by simp
next
  case (Cons y ys)
  show ?case
  proof (cases "y = x")
    case True
    have "\<forall>z \<in> set ys. g z \<noteq> g x"
      using Cons.prems(1) True by (auto simp: image_iff)
    then have "filter (\<lambda>y. P y \<and> g y = g x) ys = []"
      by (auto simp: filter_empty_conv)
    then show ?thesis using True Cons.prems(3) by simp
  next
    case False
    then have "x \<in> set ys" using Cons.prems(2) by simp
    then have "g y \<noteq> g x" using Cons.prems(1) by auto
    then show ?thesis using Cons False \<open>x \<in> set ys\<close> by simp
  qed
qed

lemma get_fields_lookup:
  assumes "distinct (map (\<lambda>f. upper (field_name f)) fs)" "f \<in> set fs"
    and "\<not> is_naughty_field (field_name f)" "field_name f \<notin> set [''OBJECTID'', ''FID'']"
  shows "map_of (get_fields fs) (upper (field_name f)) = Some f"
  unfolding map_of_get_fields
  using filter_singleton[of "\<lambda>f. upper (field_name f)" fs f
      "\<lambda>f. \<not> is_naughty_field (field_name f) \<and> field_name f \<notin> set [''OBJECTID'', ''FID'']"]
    assms
  by simp

lemma get_fields_member:
  assumes "(k, d) \<in> set (get_fields fs)"
  shows "d \<in> set fs \<and> \<not> is_naughty_field (field_name d)
       \<and> field_name d \<notin> set [''OBJECTID'', ''FID''] \<and> upper (field_name d) = k"
proof -
  have "map_of (get_fields fs) k = Some d"
    using assms distinct_keys_get_fields by simp
  then obtain x xs where
    f: "filter (\<lambda>f. (\<not> is_naughty_field (field_name f)
                            \<and> field_name f \<notin> set [''OBJECTID'', ''FID''])
                          \<and> upper (field_name f) = k) fs = x # xs"
    and d: "d = last (x # xs)"
    unfolding map_of_get_fields by (auto split: list.splits)
  have "d \<in> set (x # xs)" unfolding d by (rule last_in_set) simp
  then have "d \<in> set (filter (\<lambda>f. (\<not> is_naughty_field (field_name f)
                            \<and> field_name f \<notin> set [''OBJECTID'', ''FID''])
                          \<and> upper (field_name f) = k) fs)"
    unfolding f .
  then show ?thesis by simp
qed

lemma check_field_same:
  assumes "map_of S k = Some d"
  shows "check_field S acc (k, d) = acc"
  using assms by (cases acc) (simp add: Let_def)

lemma collect_fields_same:
  assumes "\<forall>(k, d) \<in> set D. map_of S k = Some d"
  shows "foldl (check_field S) acc D = acc"
  using assms
proof (induction D arbitrary: acc)
  case Nil
  then show ?case by simp
next
  case (Cons kd D)
  obtain k d where kd: "kd = (k, d)" by (cases kd)
  with Cons.prems have "map_of S k = Some d" by simp
  then have "check_field S acc kd = acc" unfolding kd by (rule check_field_same)
  then show ?case using Cons by simp
qed

lemma get_fields_skip:
  "field_name f \<in> set [''OBJECTID'', ''FID''] \<Longrightarrow> get_fields (f # fs) = get_fields fs"
  "field_name f \<in> set [''OBJECTID'', ''FID''] \<Longrightarrow> get_fields (fs @ [f]) = get_fields fs"
  by (simp_all add: get_fields_def add_field_def)

lemma compare_schema_subset:
  assumes d: "distinct (map (\<lambda>f. upper (field_name f)) source_flds)"
    and g: "get_fields destination_flds = get_fields (filter P source_flds)"
  shows "compare_schema src source_flds destination_flds = Inr True"
proof -
  have "\<forall>(k, f) \<in> set (get_fields destination_flds). map_of (get_fields source_flds) k = Some f"
  proof (clarify)
    fix k f assume "(k, f) \<in> set (get_fields destination_flds)"
    then have m: "f \<in> set (filter P source_flds)" "\<not> is_naughty_field (field_name f)"
      "field_name f \<notin> set [''OBJECTID'', ''FID'']" "upper (field_name f) = k"
      unfolding g using get_fields_member[of k f "filter P source_flds"] by simp_all
    from m(1) have "f \<in> set source_flds" by simp
    from get_fields_lookup[OF d this m(2,3)] m(4)
    show "map_of (get_fields source_flds) k = Some f" by simp
  qed
  then have "collect_fields (get_fields source_flds) (get_fields destination_flds) = ([], [])"
    unfolding collect_fields_def by (rule collect_fields_same)
  then show ?thesis by (simp add: compare_schema_def)
qed


lemma update_success:
  assumes e: "ensure_destination crate
                (w\<lparr>env_transformations := geographic_transformation crate, edit_session := None\<rparr>)
              = (Inr change_status, w2)"
    and nf: "faults w2 = []"
    and src: "src_exists w2"
    and dst: "dest w2 = Some t"
    and pks: "source_primary_key crate \<in> set (field_names (src_flds w2))"
    and pkd: "source_primary_key crate \<in> set (field_names (table_fields t))"
    and nr: "needs_reproject crate \<longrightarrow> \<not> is_table crate"
    and valid: "validate crate validate_crate w2 = (Inr None, w2)"
  shows "update py crate validate_crate w =
           (Inr (if has_changes (sync_changes py crate w2) then mark_updated change_status
                 else change_status),
            ResetEnvironments (sync_result py crate w2))"
proof -
  have "update_body py crate validate_crate
          (w\<lparr>env_transformations := geographic_transformation crate, edit_session := None\<rparr>)
        = (Inr (if has_changes (sync_changes py crate w2) then mark_updated change_status
                 else change_status), sync_result py crate w2)"
    unfolding update_body_def
    by (rule bind_step, rule e, rule synchronize_nofault[OF nf src dst pks pkd nr valid])
  then show ?thesis
    by (simp add: update_def try_except_def)
qed

lemma ensure_destination_creates:
  assumes "faults w = []" "src_exists w" "dest w = None"
    and "workspace_exists w \<or> endswith (destination_workspace crate) ''.gdb''"
  shows "ensure_destination crate w =
           (Inr (CREATED, None),
            w\<lparr>workspace_exists := True,
              dest := Some (if \<not> is_table crate \<and> source_dataType crate = ''ShapeFile''
                            then (new_table (src_flds w))
                                   \<lparr>table_fields := template_fields (src_flds w) @
                                      [\<lparr>field_name = ''FID'', field_type = ''Integer'',
                                        field_length = 4\<rparr>]\<rparr>
                            else new_table (src_flds w)),
              hash_tbl := None\<rparr>)"
proof -
  define t :: "'a table" where "t = (if \<not> is_table crate \<and> source_dataType crate = ''ShapeFile''
                            then (new_table (src_flds w))
                                   \<lparr>table_fields := template_fields (src_flds w) @
                                      [\<lparr>field_name = ''FID'', field_type = ''Integer'',
                                        field_length = 4\<rparr>]\<rparr>
                            else new_table (src_flds w))"
  define w1 where "w1 = w\<lparr>workspace_exists := True, dest := Some t\<rparr>"
  have c: "create_destination_data crate w = (Inr (), w1)"
    unfolding w1_def t_def by (rule create_destination_data_nofault[OF assms(1,2,4)])
  have f1: "faults w1 = []" using assms(1) by (simp add: w1_def)
  have ex: "Exists Destination w = (Inr False, w)"
    using Exists_nofault[OF assms(1), of Destination] assms(3) by simp
  have hx: "Exists HashTable w1 = (Inr (hash_tbl w \<noteq> None), w1)"
    using Exists_nofault[OF f1, of HashTable] by (simp add: w1_def)
  have del: "(if hash_tbl w \<noteq> None then Delete_management HashTable else ret ()) w1
               = (Inr (), w1\<lparr>hash_tbl := None\<rparr>)"
    using f1 by (cases "hash_tbl w") (simp_all add: Delete_management_def arcpy_nofault ret_def w1_def)
  show ?thesis
    unfolding ensure_destination_def
    apply (rule bind_step, rule ex)
    apply (simp only: not_False_eq_True if_True)
    apply (rule seq_step, rule c)
    apply (rule bind_step, rule hx)
    apply (rule seq_step, rule del)
    apply (simp add: ret_def w1_def t_def)
    done
qed

lemma add_loop_schema:
  "table_fields (fst (add_loop crate c flds rows t H)) = table_fields t
   \<and> oid_field (fst (add_loop crate c flds rows t H)) = oid_field t"
  by (induction rows arbitrary: t H) (simp_all split: option.splits)

lemma adds_result_schema:
  assumes "dest w = Some t" and "changes_table c = (if nr then Temp else Source)"
  shows "\<exists>t'. dest (adds_result py crate nr c w) = Some t' \<and> table_fields t' = table_fields t
            \<and> oid_field t' = oid_field t"
proof -
  define ac where "ac = adds_changes crate nr c"
  define w1 where "w1 = (if nr then w\<lparr>proj_tbl := map_option (project_rows w) (temp_tbl w)\<rparr>
                         else w)"
  define th where "th = add_loop crate ac (butlast (changes_fields ac)) (add_cursor_rows py ac w1)
                 t (case hash_tbl w of None \<Rightarrow> [] | Some H \<Rightarrow> H)"
  define w2 where "w2 = w1\<lparr>dest := Some (fst th), hash_tbl := Some (snd th),
                           edit_session := Some Idle\<rparr>"
  have ct: "changes_table ac = (if nr then Projected else Source)"
    using assms(2) by (simp add: ac_def adds_changes_table)
  have r: "adds_result py crate nr c w =
             (if endswith (table_path crate (changes_table ac)) reproject_temp_suffix
                 \<and> exists_in w2 (changes_table ac)
              then delete_in w2 (changes_table ac) else w2)"
    using assms(1)
    by (simp add: adds_result_def Let_def ac_def[symmetric] w1_def[symmetric] th_def w2_def)
  have "dest (adds_result py crate nr c w) = Some (fst th)"
    unfolding r using ct by (cases nr) (simp_all add: w2_def)
  then show ?thesis
    using add_loop_schema[of crate ac "butlast (changes_fields ac)" "add_cursor_rows py ac w1" t]
    by (simp add: th_def)
qed

lemma sync_result_schema:
  assumes "dest w = Some t"
  shows "\<exists>t'. dest (sync_result py crate w) = Some t' \<and> table_fields t' = table_fields t
            \<and> oid_field t' = oid_field t"
proof -
  define c where "c = sync_changes py crate w"
  define wh where "wh = snd (hash_result py crate (needs_reproject crate) w)"
  define wd where "wd = (if has_deletes c then deletes_result py crate c wh else wh)"
  obtain T W where "wh = (case hash_tbl w of
              None \<Rightarrow> w\<lparr>hash_tbl := Some [], dest := Some (t\<lparr>table_rows := []\<rparr>)\<rparr>
            | Some H \<Rightarrow> w)\<lparr>temp_tbl := T, warnings := W\<rparr>"
    using hash_result_world[OF assms, of py crate "needs_reproject crate"] unfolding wh_def by blast
  then obtain t1 where d1: "dest wh = Some t1" "table_fields t1 = table_fields t"
    "oid_field t1 = oid_field t"
    using assms by (cases "hash_tbl w") auto
  then obtain t2 where d2: "dest wd = Some t2" "table_fields t2 = table_fields t"
    "oid_field t2 = oid_field t"
    by (cases "has_deletes c") (auto simp: wd_def deletes_result_def)
  have ct: "changes_table c = (if needs_reproject crate then Temp else Source)"
    unfolding c_def by (rule sync_changes_fields)
  have r: "sync_result py crate w
             = (if has_adds c then adds_result py crate (needs_reproject crate) c wd else wd)"
    by (simp add: sync_result_def Let_def c_def wh_def wd_def)
  show ?thesis
    unfolding r using d2 adds_result_schema[OF d2(1) ct, of py crate]
    by (cases "has_adds c") auto
qed


lemma get_fields_created:
  "get_fields (table_fields
      (if \<not> is_table crate \<and> source_dataType crate = ''ShapeFile''
       then (new_table flds)
              \<lparr>table_fields := template_fields flds @
                 [\<lparr>field_name = ''FID'', field_type = ''Integer'', field_length = 4\<rparr>]\<rparr>
       else new_table flds))
   = get_fields (filter (\<lambda>f. field_type f \<noteq> ''OID'') flds)"
  by (simp add: new_table_def template_fields_def objectid_field_def get_fields_skip)

text \<open>
  Claim C6, as amended. The destination does not exist. When the destination workspace
  exists or its path ends in \<^verbatim>\<open>.gdb\<close>, the store raises nothing, the validator of the
  pallet raises nothing, the field names of the source are distinct without regard to case,
  and the primary key is a field of the source and of the created destination, \<^verbatim>\<open>update\<close>
  returns \<^verbatim>\<open>CREATED\<close>. The destination then exists; without the excluded managed fields its
  fields are those of the source that are not an object id, and \<^verbatim>\<open>check_schema\<close> finds it
  matching the source.
\<close>

theorem update_creates_destination:
  assumes "faults w = []" and "src_exists w" and "dest w = None"
    and "workspace_exists w \<or> endswith (destination_workspace crate) ''.gdb''"
    and "\<And>x. validate_crate crate x = Inr NotImplemented \<or> validate_crate crate x = Inr Validated"
    and "distinct (map (\<lambda>f. upper (field_name f)) (src_flds w))"
    and "source_primary_key crate \<in> set (field_names (src_flds w))"
    and "source_primary_key crate \<in> set (field_names (template_fields (src_flds w)))
         \<or> (\<not> is_table crate \<and> source_dataType crate = ''ShapeFile''
            \<and> source_primary_key crate = ''FID'')"
    and "needs_reproject crate \<longrightarrow> \<not> is_table crate"
  shows "\<exists>w' t'. update py crate validate_crate w = (Inr (CREATED, None), w')
           \<and> dest w' = Some t'
           \<and> get_fields (table_fields t')
               = get_fields (filter (\<lambda>f. field_type f \<noteq> ''OID'') (src_flds w))
           \<and> compare_schema (crate_source crate) (src_flds w) (table_fields t') = Inr True"
proof -
  define w1 where
    "w1 = w\<lparr>env_transformations := geographic_transformation crate, edit_session := None\<rparr>"
  define t :: "'a table" where
    "t = (if \<not> is_table crate \<and> source_dataType crate = ''ShapeFile''
          then (new_table (src_flds w))
                 \<lparr>table_fields := template_fields (src_flds w) @
                    [\<lparr>field_name = ''FID'', field_type = ''Integer'', field_length = 4\<rparr>]\<rparr>
          else new_table (src_flds w))"
  define w2 where "w2 = w1\<lparr>workspace_exists := True, dest := Some t, hash_tbl := None\<rparr>"
  have p1: "faults w1 = []" "src_exists w1" "dest w1 = None"
    "workspace_exists w1 \<or> endswith (destination_workspace crate) ''.gdb''"
    "src_flds w1 = src_flds w"
    using assms(1-4) by (simp_all add: w1_def)
  have e: "ensure_destination crate w1 = (Inr (CREATED, None), w2)"
    using ensure_destination_creates[OF p1(1-4)] by (simp add: w2_def t_def p1(5))
  have p2: "faults w2 = []" "src_exists w2" "dest w2 = Some t" "src_flds w2 = src_flds w"
    using p1 by (simp_all add: w2_def)
  have g: "get_fields (table_fields t)
             = get_fields (filter (\<lambda>f. field_type f \<noteq> ''OID'') (src_flds w))"
    unfolding t_def by (rule get_fields_created)
  have cs: "compare_schema (crate_source crate) (src_flds w) (table_fields t) = Inr True"
    by (rule compare_schema_subset[OF assms(6) g])
  have valid: "validate crate validate_crate w2 = (Inr None, w2)"
    using validate_passes[of w2 t validate_crate crate, OF p2(1-3)] assms(5)[of w2] cs
    by (auto simp: p2(4))
  have pks: "source_primary_key crate \<in> set (field_names (src_flds w2))"
    using assms(7) by (simp add: p2(4))
  have pkd: "source_primary_key crate \<in> set (field_names (table_fields t))"
    using assms(8) by (auto simp: t_def new_table_def field_names_def)
  note run = update_success[OF e[unfolded w1_def] p2(1-3) pks pkd assms(9) valid, of py]
  obtain t' where t': "dest (sync_result py crate w2) = Some t'"
    "table_fields t' = table_fields t"
    using sync_result_schema[OF p2(3), of py crate] by blast
  then have "dest (ResetEnvironments (sync_result py crate w2)) = Some t'"
    by (simp add: ResetEnvironments_def)
  with run t'(2) g cs show ?thesis
    by (simp add: mark_updated_def)
qed


text \<open>
  The theorem at the two-row source with no destination yet.
\<close>

theorem update_creates_destination_witness:
  "\<exists>w' t'. update ex_python ex_crate ex_validator ex_world = (Inr (CREATED, None), w')
           \<and> dest w' = Some t'
           \<and> get_fields (table_fields t')
               = [(''NAME'', \<lparr>field_name = ''NAME'', field_type = ''String'', field_length = 10\<rparr>)]
           \<and> compare_schema ''src'' ex_fields (table_fields t') = Inr True"
proof -
  have a: "faults ex_world = []" "src_exists ex_world" "dest ex_world = None"
    "src_flds ex_world = ex_fields"
    by (simp_all add: ex_world_def)
  have b: "workspace_exists ex_world \<or> endswith (destination_workspace ex_crate) ''.gdb''"
    by (simp add: ex_crate_def endswith_def)
  have c: "\<And>x. ex_validator ex_crate x = Inr NotImplemented \<or> ex_validator ex_crate x = Inr Validated"
    by (simp add: ex_validator_def)
  have d: "distinct (map (\<lambda>f. upper (field_name f)) (src_flds ex_world))"
    unfolding a(4) by code_simp
  have e: "source_primary_key ex_crate \<in> set (field_names (src_flds ex_world))"
    unfolding a(4) by code_simp
  have f: "source_primary_key ex_crate \<in> set (field_names (template_fields (src_flds ex_world)))
         \<or> (\<not> is_table ex_crate \<and> source_dataType ex_crate = ''ShapeFile''
            \<and> source_primary_key ex_crate = ''FID'')"
    unfolding a(4) by code_simp
  have g: "needs_reproject ex_crate \<longrightarrow> \<not> is_table ex_crate"
    by (simp add: ex_crate_def)
  have h: "get_fields (filter (\<lambda>f. field_type f \<noteq> ''OID'') ex_fields)
             = [(''NAME'', \<lparr>field_name = ''NAME'', field_type = ''String'', field_length = 10\<rparr>)]"
    by code_simp
  from update_creates_destination[where w = ex_world and crate = ex_crate
      and validate_crate = ex_validator and py = ex_python, OF a(1-3) b c d e f g]
  show ?thesis
    unfolding a(4) h by (simp add: ex_crate_def)
qed

text \<open>
  Claim C6 as stated fails: the destination does not exist, its workspace does not exist
  and is not a file geodatabase path; \<^verbatim>\<open>_create_destination_data\<close> raises and \<^verbatim>\<open>update\<close>
  returns \<^verbatim>\<open>UNHANDLED_EXCEPTION\<close>.
\<close>

theorem update_missing_workspace:
  "dest ex_world = None
   \<and> fst (update ex_python (ex_crate\<lparr>destination_workspace := ''ws''\<rparr>) ex_validator ex_world)
       = Inr (UNHANDLED_EXCEPTION, Some ''destination_workspace does not exist! ws'')"
  by (simp add: update_def try_except_def update_body_def ensure_destination_def bind_def
      Exists_def arcpy_def ex_world_def ex_crate_def create_destination_data_def seq_def
      endswith_def throw_def abort_edit_session_def swallow_def abortOperation_def
      in_session_def ret_def)


section \<open>Digests salted by the position in the stream\<close>

lemma digit_inj: "d < 10 \<Longrightarrow> e < 10 \<Longrightarrow> digit d = digit e \<Longrightarrow> d = e"
  unfolding digit_def
  by (subst (asm) nth_eq_iff_index_eq) simp_all

lemma digit_in: "d < 10 \<Longrightarrow> digit d \<in> set ''0123456789''"
  unfolding digit_def by (rule nth_mem) simp

lemma str_nat_digits: "set (str_nat n) \<subseteq> set ''0123456789''"
proof (induction n rule: str_nat.induct)
  case (1 n)
  show ?case
  proof (cases "n < 10")
    case True
    then show ?thesis
      using digit_in[of n] by (subst str_nat.simps) simp
  next
    case False
    have "n mod 10 < 10" by simp
    then have "digit (n mod 10) \<in> set ''0123456789''" by (rule digit_in)
    then show ?thesis
      using False 1 by (subst str_nat.simps) simp
  qed
qed

lemma str_nat_not_Nil: "str_nat n \<noteq> []"
  by (subst str_nat.simps) simp

lemma str_nat_inj: "str_nat m = str_nat n \<Longrightarrow> m = n"
proof (induction m arbitrary: n rule: str_nat.induct)
  case (1 m)
  show ?case
  proof (cases "m < 10")
    case m: True
    show ?thesis
    proof (cases "n < 10")
      case True
      with m 1(2) show ?thesis
        by (subst (asm) (1 2) str_nat.simps) (simp add: digit_inj)
    next
      case False
      have "str_nat m = [digit m]" using m by (subst str_nat.simps) simp
      moreover have "str_nat n = str_nat (n div 10) @ [digit (n mod 10)]"
        using False by (subst str_nat.simps) simp
      ultimately show ?thesis using 1(2) str_nat_not_Nil[of "n div 10"] by simp
    qed
  next
    case m: False
    have sm: "str_nat m = str_nat (m div 10) @ [digit (m mod 10)]"
      using m by (subst str_nat.simps) simp
    show ?thesis
    proof (cases "n < 10")
      case True
      have "str_nat n = [digit n]" using True by (subst str_nat.simps) simp
      then show ?thesis using sm 1(2) str_nat_not_Nil[of "m div 10"] by simp
    next
      case False
      have sn: "str_nat n = str_nat (n div 10) @ [digit (n mod 10)]"
        using False by (subst str_nat.simps) simp
      from 1(2) sm sn have a: "str_nat (m div 10) = str_nat (n div 10)"
        and b: "digit (m mod 10) = digit (n mod 10)" by simp_all
      from 1(1)[OF m a] have "m div 10 = n div 10" .
      moreover from b have "m mod 10 = n mod 10" by (rule digit_inj[rotated 2]) simp_all
      ultimately show ?thesis by (metis div_mult_mod_eq)
    qed
  qed
qed

lemma split_digits:
  assumes "s1 @ d1 = s2 @ d2"
    and "set d1 \<subseteq> D" "set d2 \<subseteq> D"
    and "s1 \<noteq> []" "last s1 \<notin> D" "s2 \<noteq> []" "last s2 \<notin> D"
  shows "s1 = s2 \<and> d1 = d2"
proof -
  from assms(1) obtain us where
    "(s1 = s2 @ us \<and> us @ d1 = d2) \<or> (s1 @ us = s2 \<and> d1 = us @ d2)"
    unfolding append_eq_append_conv2 by blast
  then show ?thesis
  proof
    assume h: "s1 = s2 @ us \<and> us @ d1 = d2"
    have "us = []"
    proof (rule ccontr)
      assume "us \<noteq> []"
      then have "last s1 = last us" using h by simp
      moreover have "last us \<in> set d2" using h \<open>us \<noteq> []\<close> by auto
      ultimately show False using assms(3,5) by auto
    qed
    with h show ?thesis by simp
  next
    assume h: "s1 @ us = s2 \<and> d1 = us @ d2"
    have "us = []"
    proof (rule ccontr)
      assume "us \<noteq> []"
      then have "last s2 = last us" using h by auto
      moreover have "last us \<in> set d1" using h \<open>us \<noteq> []\<close> by auto
      ultimately show False using assms(2,7) by auto
    qed
    with h show ?thesis by simp
  qed
qed

lemma str_tuple_last: "str_tuple py xs \<noteq> [] \<and> last (str_tuple py xs) = CHR '')''"
  by (simp add: str_tuple_def)

lemma create_hash_inj:
  assumes "inj (md5 py)"
    and "create_hash py (str_tuple py xs) m = create_hash py (str_tuple py ys) n"
  shows "str_tuple py xs = str_tuple py ys \<and> m = n"
proof -
  from assms have "str_tuple py xs @ str_nat m = str_tuple py ys @ str_nat n"
    by (simp add: create_hash_def inj_eq)
  then have "str_tuple py xs = str_tuple py ys \<and> str_nat m = str_nat n"
    by (rule split_digits[OF _ str_nat_digits str_nat_digits])
       (simp_all add: str_tuple_last)
  then show ?thesis using str_nat_inj by blast
qed


lemma hash_loop_append:
  "hash_loop py crate nr (xs @ ys) s w =
     hash_loop py crate nr ys (fst (hash_loop py crate nr xs s w))
       (snd (hash_loop py crate nr xs s w))"
  by (induction xs arbitrary: s w) simp_all

lemma hash_step_salt: "unique_salty_id (hash_step py crate row s) = unique_salty_id s + 1"
  by (simp add: hash_step_def Let_def)

lemma hash_loop_salt:
  "unique_salty_id (fst (hash_loop py crate nr rows s w)) = unique_salty_id s + length rows"
  by (induction rows arbitrary: s w) (simp_all add: hash_step_salt)

lemma hash_step_stores:
  assumes "is_table crate \<or> wkt row \<noteq> None"
  shows "map_of (adds (changes (hash_step py crate row s))) (str_value py (last (cells row)))
           = Some (create_hash py (str_tuple py (butlast (cells row))) (unique_salty_id s + 1),
                   if is_table crate then None
                   else map_option (\<lambda>t. create_hash py t (unique_salty_id s + 1)) (wkt row))
       \<or> map_of (unchanged (changes (hash_step py crate row s)))
             (str_value py (last (cells row)))
           = Some (create_hash py (str_tuple py (butlast (cells row))) (unique_salty_id s + 1),
                   if is_table crate then None
                   else map_option (\<lambda>t. create_hash py t (unique_salty_id s + 1)) (wkt row))"
proof -
  have ns: "\<not> (\<not> is_table crate \<and> wkt row = None)" using assms by auto
  show ?thesis
    unfolding hash_step_def Let_def
    by (subst if_not_P[OF ns], subst if_not_P[OF ns]) (simp add: update_conv')
qed

lemma hash_step_keeps:
  assumes "(is_table crate \<or> wkt row \<noteq> None) \<longrightarrow> str_value py (last (cells row)) \<noteq> k"
  shows "map_of (adds (changes (hash_step py crate row s))) k = map_of (adds (changes s)) k
       \<and> map_of (unchanged (changes (hash_step py crate row s))) k
           = map_of (unchanged (changes s)) k"
proof (cases "\<not> is_table crate \<and> wkt row = None")
  case True
  then show ?thesis by (simp add: hash_step_def Let_def)
next
  case False
  then have "str_value py (last (cells row)) \<noteq> k" using assms by auto
  then show ?thesis
    unfolding hash_step_def Let_def
    by (subst if_not_P[OF False], subst if_not_P[OF False]) (simp add: update_conv')
qed

lemma hash_loop_keeps:
  assumes "\<forall>r \<in> set rows. (is_table crate \<or> wkt r \<noteq> None) \<longrightarrow> str_value py (last (cells r)) \<noteq> k"
  shows "map_of (adds (changes (fst (hash_loop py crate nr rows s w)))) k
           = map_of (adds (changes s)) k
       \<and> map_of (unchanged (changes (fst (hash_loop py crate nr rows s w)))) k
           = map_of (unchanged (changes s)) k"
  using assms
proof (induction rows arbitrary: s w)
  case Nil
  then show ?case by simp
next
  case (Cons r rows)
  have a: "(is_table crate \<or> wkt r \<noteq> None) \<longrightarrow> str_value py (last (cells r)) \<noteq> k"
    and b: "\<forall>r \<in> set rows. (is_table crate \<or> wkt r \<noteq> None)
              \<longrightarrow> str_value py (last (cells r)) \<noteq> k"
    using Cons.prems by simp_all
  show ?case
    using Cons.IH[OF b, of "hash_step py crate r s" "hash_effect py crate nr r s w"]
      hash_step_keeps[OF a, of s]
    by simp
qed

lemma hash_loop_position:
  assumes ns: "is_table crate \<or> wkt row \<noteq> None"
    and later: "\<forall>r \<in> set after. (is_table crate \<or> wkt r \<noteq> None)
                \<longrightarrow> str_value py (last (cells r)) \<noteq> str_value py (last (cells row))"
    and s': "s' = fst (hash_loop py crate nr (before @ row # after) s w)"
    and n: "n = unique_salty_id s + length before + 1"
  shows "map_of (adds (changes s')) (str_value py (last (cells row)))
           = Some (create_hash py (str_tuple py (butlast (cells row))) n,
                   if is_table crate then None
                   else map_option (\<lambda>t. create_hash py t n) (wkt row))
       \<or> map_of (unchanged (changes s')) (str_value py (last (cells row)))
           = Some (create_hash py (str_tuple py (butlast (cells row))) n,
                   if is_table crate then None
                   else map_option (\<lambda>t. create_hash py t n) (wkt row))"
proof -
  define s1 where "s1 = fst (hash_loop py crate nr before s w)"
  define w1 where "w1 = snd (hash_loop py crate nr before s w)"
  have salt: "unique_salty_id s1 + 1 = n"
    unfolding s1_def n by (simp add: hash_loop_salt)
  have "s' = fst (hash_loop py crate nr after (hash_step py crate row s1)
                    (hash_effect py crate nr row s1 w1))"
    unfolding s' hash_loop_append s1_def w1_def by simp
  then have keep:
    "map_of (adds (changes s')) (str_value py (last (cells row)))
       = map_of (adds (changes (hash_step py crate row s1))) (str_value py (last (cells row)))"
    "map_of (unchanged (changes s')) (str_value py (last (cells row)))
       = map_of (unchanged (changes (hash_step py crate row s1)))
           (str_value py (last (cells row)))"
    using hash_loop_keeps[OF later, of nr "hash_step py crate row s1"
        "hash_effect py crate nr row s1 w1"]
    by simp_all
  show ?thesis
    unfolding keep using hash_step_stores[OF ns, of py s1] unfolding salt .
qed

text \<open>
  Claim C9. The salt of a record is its position in the stream the cursor yields in primary
  key order, counted from 1 and counting the records skipped for an empty geometry: in a run
  without store faults the digests kept for the record at position \<open>n\<close> (in \<open>adds\<close> or in
  \<open>unchanged\<close>, under its key, when no later record has the same key) are the digest of its
  stringified cells before the key combined with \<open>n\<close>, and the digest of its geometry text
  combined with \<open>n\<close>. When the digest function is injective, a digest of some content at some
  position equals it only for the same stringified content at the same position.
\<close>

theorem digest_salted_by_position:
  assumes "faults w = []" and "src_exists w" and "dest w = Some t"
    and "source_primary_key crate \<in> set (field_names (src_flds w))"
    and "needs_reproj \<longrightarrow> \<not> is_table crate"
    and "map (read_row (hash_fields crate (table_fields t) (src_flds w))) (src_rows w)
           = before @ row # after"
    and "is_table crate \<or> wkt row \<noteq> None"
    and "\<forall>r \<in> set after. (is_table crate \<or> wkt r \<noteq> None)
           \<longrightarrow> str_value py (last (cells r)) \<noteq> str_value py (last (cells row))"
    and "n = length before + 1"
    and "a = create_hash py (str_tuple py (butlast (cells row))) n"
    and "g = (if is_table crate then None else map_option (\<lambda>t. create_hash py t n) (wkt row))"
  shows "(\<exists>c w'. hash py crate needs_reproj w = (Inr c, w')
            \<and> (map_of (adds c) (str_value py (last (cells row))) = Some (a, g)
               \<or> map_of (unchanged c) (str_value py (last (cells row))) = Some (a, g)))
       \<and> (inj (md5 py) \<longrightarrow>
            (\<forall>xs m. create_hash py (str_tuple py xs) m = a
               \<longrightarrow> str_tuple py xs = str_tuple py (butlast (cells row)) \<and> m = n))"
proof -
  define s0 where "s0 = \<lparr>changes = initial_changes crate needs_reproj
                            (hash_fields crate (table_fields t) (src_flds w)),
            attribute_hashes = fst (foldl hash_lookup_row ([], [])
               (case hash_tbl (hash_prepare needs_reproj w) of None \<Rightarrow> [] | Some rows \<Rightarrow> rows)),
            geometry_hashes = snd (foldl hash_lookup_row ([], [])
               (case hash_tbl (hash_prepare needs_reproj w) of None \<Rightarrow> [] | Some rows \<Rightarrow> rows)),
            row_count = 0, unique_salty_id = 0\<rparr>"
  define s' where "s' = fst (hash_loop py crate needs_reproj (before @ row # after) s0
                              (hash_prepare needs_reproj w))"
  have res: "fst (hash_result py crate needs_reproj w) = s'"
    using assms(3,6) by (simp add: hash_result_def Let_def s'_def s0_def)
  have run: "hash py crate needs_reproj w
               = (Inr (finish_changes s'), snd (hash_result py crate needs_reproj w))"
    using hash_nofault[OF assms(1-5), of py] res by simp
  have n: "n = unique_salty_id s0 + length before + 1"
    using assms(9) by (simp add: s0_def)
  note pos = hash_loop_position[OF assms(7,8) s'_def n]
  have "map_of (adds (finish_changes s')) (str_value py (last (cells row))) = Some (a, g)
        \<or> map_of (unchanged (finish_changes s')) (str_value py (last (cells row))) = Some (a, g)"
    using pos unfolding assms(10,11) by (simp add: finish_changes_fields)
  with run have first: "\<exists>c w'. hash py crate needs_reproj w = (Inr c, w')
            \<and> (map_of (adds c) (str_value py (last (cells row))) = Some (a, g)
               \<or> map_of (unchanged c) (str_value py (last (cells row))) = Some (a, g))"
    by blast
  have second: "inj (md5 py) \<longrightarrow>
            (\<forall>xs m. create_hash py (str_tuple py xs) m = a
               \<longrightarrow> str_tuple py xs = str_tuple py (butlast (cells row)) \<and> m = n)"
    unfolding assms(10) using create_hash_inj by blast
  from first second show ?thesis by blast
qed


text \<open>
  The theorem at the second record of the two-row source: its digest is the text of its
  one cell before the key followed by the position 2.
\<close>

theorem digest_salted_by_position_witness:
  "(\<exists>c w'. hash ex_python ex_crate False ex_stale_world = (Inr c, w')
       \<and> (map_of (adds c) ''2'' = Some (''(b,)2'', None)
          \<or> map_of (unchanged c) ''2'' = Some (''(b,)2'', None)))
   \<and> create_hash ex_python (str_tuple ex_python [Some ''b'']) 2 = ''(b,)2''
   \<and> str_tuple ex_python [Some ''b''] = ''(b,)''"
proof -
  have rows: "map (read_row (hash_fields ex_crate (table_fields ex_table) (src_flds ex_stale_world)))
                (src_rows ex_stale_world)
              = [\<lparr>cells = [Some ''a'', Some ''1''], wkt = None\<rparr>]
                @ \<lparr>cells = [Some ''b'', Some ''2''], wkt = None\<rparr> # []"
    by code_simp
  have pk: "source_primary_key ex_crate \<in> set (field_names (src_flds ex_stale_world))"
    by (simp add: ex_crate_def ex_stale_world_def ex_world_def ex_fields_def field_names_def)
  have a: "''(b,)2'' = create_hash ex_python
             (str_tuple ex_python (butlast (cells \<lparr>cells = [Some ''b'', Some ''2''], wkt = None\<rparr>)))
             2"
    by code_simp
  have k: "str_value ex_python (last (cells \<lparr>cells = [Some ''b'', Some ''2''], wkt = None\<rparr>))
             = ''2''"
    by code_simp
  have i: "inj (md5 ex_python)"
    by (simp add: ex_python_def)
  have t: "str_tuple ex_python [Some ''b''] = ''(b,)''"
    by code_simp
  from digest_salted_by_position[of ex_stale_world ex_table ex_crate False
      "[\<lparr>cells = [Some ''a'', Some ''1''], wkt = None\<rparr>]"
      "\<lparr>cells = [Some ''b'', Some ''2''], wkt = None\<rparr>" "[]" ex_python 2 "''(b,)2''" None,
      OF _ _ _ pk _ rows _ _ _ a]
  have "(\<exists>c w'. hash ex_python ex_crate False ex_stale_world = (Inr c, w')
            \<and> (map_of (adds c) ''2'' = Some (''(b,)2'', None)
               \<or> map_of (unchanged c) ''2'' = Some (''(b,)2'', None)))
       \<and> (\<forall>xs m. create_hash ex_python (str_tuple ex_python xs) m = ''(b,)2''
               \<longrightarrow> str_tuple ex_python xs = ''(b,)'' \<and> m = 2)"
    unfolding k using i by (simp add: ex_stale_world_def ex_world_def ex_crate_def t)
  then show ?thesis
    using a t by simp
qed


section \<open>Records with the null geometry\<close>

lemma hash_step_count:
  "row_count (hash_step py crate row s)
     = row_count s + (if \<not> is_table crate \<and> wkt row = None then 0 else 1)"
  by (simp add: hash_step_def Let_def)

lemma hash_loop_count:
  "row_count (fst (hash_loop py crate nr rows s w))
     = row_count s + int (length (filter (\<lambda>r. \<not> (\<not> is_table crate \<and> wkt r = None)) rows))"
  by (induction rows arbitrary: s w) (simp_all add: hash_step_count)

lemma hash_effect_warnings:
  "warnings (hash_effect py crate nr row s w)
     = warnings w @ (if \<not> is_table crate \<and> wkt row = None
                     then [''Empty geometry found in '' @ source_primary_key crate @ '': ''
                           @ str_value py (last (cells row))]
                     else [])"
  by (simp add: hash_effect_def Let_def split: option.splits)

lemma hash_loop_warnings:
  "warnings (snd (hash_loop py crate nr rows s w))
     = warnings w
       @ map (\<lambda>r. ''Empty geometry found in '' @ source_primary_key crate @ '': ''
                   @ str_value py (last (cells r)))
           (filter (\<lambda>r. \<not> is_table crate \<and> wkt r = None) rows)"
  by (induction rows arbitrary: s w) (simp_all add: hash_effect_warnings)

lemma hash_step_keys:
  "fst ` set (adds (changes (hash_step py crate row s)))
     \<union> fst ` set (unchanged (changes (hash_step py crate row s)))
   \<subseteq> fst ` set (adds (changes s)) \<union> fst ` set (unchanged (changes s))
     \<union> (if \<not> is_table crate \<and> wkt row = None then {}
        else {str_value py (last (cells row))})"
proof (cases "\<not> is_table crate \<and> wkt row = None")
  case True
  then show ?thesis by (simp add: hash_step_def Let_def)
next
  case False
  show ?thesis
    unfolding hash_step_def Let_def
    apply (subst if_not_P[OF False])+
    apply (simp add: dom_update)
    apply blast
    done
qed

lemma hash_loop_keys:
  "fst ` set (adds (changes (fst (hash_loop py crate nr rows s w))))
     \<union> fst ` set (unchanged (changes (fst (hash_loop py crate nr rows s w))))
   \<subseteq> fst ` set (adds (changes s)) \<union> fst ` set (unchanged (changes s))
     \<union> (\<lambda>r. str_value py (last (cells r)))
         ` {r \<in> set rows. \<not> (\<not> is_table crate \<and> wkt r = None)}"
proof (induction rows arbitrary: s w)
  case Nil
  then show ?case by simp
next
  case (Cons row rows)
  define s1 where "s1 = hash_step py crate row s"
  define w1 where "w1 = hash_effect py crate nr row s w"
  define K where "K = (\<lambda>r. str_value py (last (cells r)))
         ` {r \<in> set rows. \<not> (\<not> is_table crate \<and> wkt r = None)}"
  define K1 where "K1 = (if \<not> is_table crate \<and> wkt row = None then {}
        else {str_value py (last (cells row))})"
  have a: "fst ` set (adds (changes (fst (hash_loop py crate nr rows s1 w1))))
     \<union> fst ` set (unchanged (changes (fst (hash_loop py crate nr rows s1 w1))))
   \<subseteq> fst ` set (adds (changes s1)) \<union> fst ` set (unchanged (changes s1)) \<union> K"
    unfolding K_def by (rule Cons.IH)
  have b: "fst ` set (adds (changes s1)) \<union> fst ` set (unchanged (changes s1))
   \<subseteq> fst ` set (adds (changes s)) \<union> fst ` set (unchanged (changes s)) \<union> K1"
    unfolding s1_def K1_def by (rule hash_step_keys)
  have c: "K1 \<union> K = (\<lambda>r. str_value py (last (cells r)))
         ` {r \<in> set (row # rows). \<not> (\<not> is_table crate \<and> wkt r = None)}"
    unfolding K1_def K_def by auto
  have e: "hash_loop py crate nr (row # rows) s w = hash_loop py crate nr rows s1 w1"
    by (simp add: s1_def w1_def)
  show ?case
    unfolding e c[symmetric] using a b by blast
qed

lemma add_loop_shapes:
  assumes "\<not> is_table crate"
  shows "\<forall>r \<in> set (table_rows (fst (add_loop crate c flds rows t H))).
           r \<in> set (table_rows t) \<or> shape r \<noteq> None"
  using assms
proof (induction rows arbitrary: t H)
  case Nil
  then show ?case by simp
next
  case (Cons row rows)
  show ?case
  proof (cases "wkt row = None")
    case True
    then show ?thesis using Cons by simp
  next
    case False
    then have ns: "\<not> (\<not> is_table crate \<and> wkt row = None)" by simp
    show ?thesis
    proof (cases "digests_of c (primary_key row)")
      case None
      have "add_loop crate c flds (row # rows) t H = (t, H)"
        by (subst add_loop.simps, subst if_not_P[OF ns]) (simp add: None)
      then show ?thesis by simp
    next
      case (Some ds)
      define t1 where "t1 = t\<lparr>table_rows := table_rows t @
                      [\<lparr>vals = make_vals (value_fields flds) (cells row), shape = wkt row,
                        oid = next_oid t\<rparr>],
                    next_oid := Suc (next_oid t)\<rparr>"
      define H1 where "H1 = H @ [\<lparr>hash_id = str_nat (next_oid t), att_hash = Some (fst ds),
                        geom_hash = snd ds\<rparr>]"
      have e: "add_loop crate c flds (row # rows) t H = add_loop crate c flds rows t1 H1"
        by (subst add_loop.simps, subst if_not_P[OF ns]) (simp add: Some t1_def H1_def)
      have "\<forall>r \<in> set (table_rows t1). r \<in> set (table_rows t) \<or> shape r \<noteq> None"
        using False by (auto simp: t1_def)
      then show ?thesis
        unfolding e using Cons.IH[OF Cons.prems, of t1 H1] by blast
    qed
  qed
qed

lemma adds_result_frame:
  assumes "dest w = Some t" and "changes_table c = (if nr then Temp else Source)"
  shows "warnings (adds_result py crate nr c w) = warnings w
       \<and> (\<not> is_table crate \<longrightarrow>
            (\<exists>t'. dest (adds_result py crate nr c w) = Some t'
               \<and> (\<forall>r \<in> set (table_rows t'). r \<in> set (table_rows t) \<or> shape r \<noteq> None)))"
proof -
  define ac where "ac = adds_changes crate nr c"
  define w1 where "w1 = (if nr then w\<lparr>proj_tbl := map_option (project_rows w) (temp_tbl w)\<rparr>
                         else w)"
  define th where "th = add_loop crate ac (butlast (changes_fields ac)) (add_cursor_rows py ac w1)
                 t (case hash_tbl w of None \<Rightarrow> [] | Some H \<Rightarrow> H)"
  define w2 where "w2 = w1\<lparr>dest := Some (fst th), hash_tbl := Some (snd th),
                           edit_session := Some Idle\<rparr>"
  have ct: "changes_table ac = (if nr then Projected else Source)"
    using assms(2) by (simp add: ac_def adds_changes_table)
  have r: "adds_result py crate nr c w =
             (if endswith (table_path crate (changes_table ac)) reproject_temp_suffix
                 \<and> exists_in w2 (changes_table ac)
              then delete_in w2 (changes_table ac) else w2)"
    using assms(1)
    by (simp add: adds_result_def Let_def ac_def[symmetric] w1_def[symmetric] th_def w2_def)
  have d: "dest (adds_result py crate nr c w) = Some (fst th)"
    unfolding r using ct by (cases nr) (simp_all add: w2_def)
  have wn: "warnings (adds_result py crate nr c w) = warnings w"
    unfolding r using ct by (cases nr) (simp_all add: w2_def w1_def)
  show ?thesis
    using d wn
      add_loop_shapes[of crate ac "butlast (changes_fields ac)" "add_cursor_rows py ac w1" t]
    by (simp add: th_def)
qed

lemma sync_result_frame:
  assumes "dest w = Some t"
  shows "warnings (sync_result py crate w)
           = warnings (snd (hash_result py crate (needs_reproject crate) w))
       \<and> (\<not> is_table crate \<longrightarrow>
            (\<exists>t'. dest (sync_result py crate w) = Some t'
               \<and> (\<forall>r \<in> set (table_rows t'). r \<in> set (table_rows t) \<or> shape r \<noteq> None)))"
proof -
  define c where "c = sync_changes py crate w"
  define wh where "wh = snd (hash_result py crate (needs_reproject crate) w)"
  define wd where "wd = (if has_deletes c then deletes_result py crate c wh else wh)"
  obtain T W where "wh = (case hash_tbl w of
              None \<Rightarrow> w\<lparr>hash_tbl := Some [], dest := Some (t\<lparr>table_rows := []\<rparr>)\<rparr>
            | Some H \<Rightarrow> w)\<lparr>temp_tbl := T, warnings := W\<rparr>"
    using hash_result_world[OF assms, of py crate "needs_reproject crate"] unfolding wh_def by blast
  then obtain t1 where d1: "dest wh = Some t1" "set (table_rows t1) \<subseteq> set (table_rows t)"
    using assms by (cases "hash_tbl w") auto
  then obtain t2 where d2: "dest wd = Some t2" "set (table_rows t2) \<subseteq> set (table_rows t)"
    by (cases "has_deletes c") (auto simp: wd_def deletes_result_def)
  have wn: "warnings wd = warnings wh"
    by (simp add: wd_def deletes_result_def)
  have ct: "changes_table c = (if needs_reproject crate then Temp else Source)"
    unfolding c_def by (rule sync_changes_fields)
  have r: "sync_result py crate w
             = (if has_adds c then adds_result py crate (needs_reproject crate) c wd else wd)"
    by (simp add: sync_result_def Let_def c_def wh_def wd_def)
  show ?thesis
  proof (cases "has_adds c")
    case True
    show ?thesis
      unfolding r wh_def[symmetric]
      using True d2 wn adds_result_frame[OF d2(1) ct, of py crate] by auto
  next
    case False
    show ?thesis
      unfolding r wh_def[symmetric] using False d2 wn by auto
  qed
qed

lemma has_token_hash_fields:
  "\<not> is_table crate \<Longrightarrow> has_token (hash_fields crate dflds sflds)"
  by (simp add: hash_fields_def Let_def has_token_def is_token_def shape_token_def)

lemma add_row_skips:
  "\<not> is_table crate \<Longrightarrow> wkt row = None \<Longrightarrow> add_row crate c flds row u w = (Inr (), w)"
  by (simp add: add_row_def ret_def)


lemma read_row_wkt:
  "\<not> is_table crate \<Longrightarrow> wkt (read_row (hash_fields crate dflds sflds) r) = shape r"
  by (simp add: read_row_def has_token_hash_fields)

lemma filter_read_row:
  assumes "\<not> is_table crate"
  shows "filter (\<lambda>r. \<not> is_table crate \<and> wkt r = None)
           (map (read_row (hash_fields crate dflds sflds)) rows)
         = map (read_row (hash_fields crate dflds sflds)) (filter (\<lambda>r. shape r = None) rows)"
    and "length (filter (\<lambda>r. \<not> (\<not> is_table crate \<and> wkt r = None))
           (map (read_row (hash_fields crate dflds sflds)) rows))
         = length (filter (\<lambda>r. shape r \<noteq> None) rows)"
  using assms by (induction rows) (simp_all add: read_row_wkt)

text \<open>
  Claim C8. The crate is a feature class, the destination exists, the store raises nothing
  and validation passes. \<^verbatim>\<open>_hash\<close> counts in \<open>total_rows\<close> only the source records with a
  geometry, logs one warning for each record without one, and gives a key to \<open>adds\<close> or
  \<open>unchanged\<close> only for a record with a geometry. After \<^verbatim>\<open>update\<close> the warnings are there and
  every row of the destination was there before the call or has a geometry: no record with
  the null geometry was inserted. The loop of the add phase tests again: on a row without
  geometry its body does nothing, in any state.
\<close>

theorem null_geometry_skipped:
  assumes "\<not> is_table crate" and "faults w = []" and "src_exists w" and "dest w = Some t"
    and "source_primary_key crate \<in> set (field_names (src_flds w))"
    and "source_primary_key crate \<in> set (field_names (table_fields t))"
    and "w0 = w\<lparr>env_transformations := geographic_transformation crate, edit_session := None\<rparr>"
    and "validate crate validate_crate w0 = (Inr None, w0)"
    and "key = (\<lambda>r. str_value py (last (cells (read_row
                   (hash_fields crate (table_fields t) (src_flds w)) r))))"
    and "logged = map (\<lambda>r. ''Empty geometry found in '' @ source_primary_key crate @ '': ''
                            @ key r)
                    (filter (\<lambda>r. shape r = None) (src_rows w))"
  shows "(\<exists>c wh. hash py crate (needs_reproject crate) w0 = (Inr c, wh)
            \<and> total_rows c = int (length (filter (\<lambda>r. shape r \<noteq> None) (src_rows w)))
            \<and> warnings wh = warnings w @ logged
            \<and> (\<forall>k \<in> fst ` set (adds c) \<union> fst ` set (unchanged c).
                  \<exists>r \<in> set (src_rows w). shape r \<noteq> None \<and> key r = k))
       \<and> (\<exists>st w' t'. update py crate validate_crate w = (Inr st, w')
            \<and> warnings w' = warnings w @ logged
            \<and> dest w' = Some t'
            \<and> (\<forall>r \<in> set (table_rows t'). r \<in> set (table_rows t) \<or> shape r \<noteq> None))
       \<and> (\<forall>c flds row v. wkt row = None \<longrightarrow> add_row crate c flds row () v = (Inr (), v))"
proof -
  define nr where "nr = needs_reproject crate"
  define flds where "flds = hash_fields crate (table_fields t) (src_flds w)"
  have f0: "faults w0 = []" and s0: "src_exists w0" and d0: "dest w0 = Some t"
    and pk0: "source_primary_key crate \<in> set (field_names (src_flds w0))"
    and r0: "src_rows w0 = src_rows w" and fl0: "src_flds w0 = src_flds w"
    and wn0: "warnings w0 = warnings w"
    using assms(2-5) by (simp_all add: assms(7))
  have nrt: "nr \<longrightarrow> \<not> is_table crate" using assms(1) by simp
  define s1 where "s1 = \<lparr>changes = initial_changes crate nr flds,
            attribute_hashes = fst (foldl hash_lookup_row ([], [])
               (case hash_tbl (hash_prepare nr w0) of None \<Rightarrow> [] | Some rows \<Rightarrow> rows)),
            geometry_hashes = snd (foldl hash_lookup_row ([], [])
               (case hash_tbl (hash_prepare nr w0) of None \<Rightarrow> [] | Some rows \<Rightarrow> rows)),
            row_count = 0, unique_salty_id = 0\<rparr>"
  define rows where "rows = map (read_row flds) (src_rows w)"
  have res: "hash_result py crate nr w0 = hash_loop py crate nr rows s1 (hash_prepare nr w0)"
    using d0 by (simp add: hash_result_def Let_def s1_def rows_def flds_def r0 fl0)
  define s' where "s' = fst (hash_loop py crate nr rows s1 (hash_prepare nr w0))"
  define wh where "wh = snd (hash_loop py crate nr rows s1 (hash_prepare nr w0))"
  have run: "hash py crate nr w0 = (Inr (finish_changes s'), wh)"
    using hash_nofault[OF f0 s0 d0 pk0 nrt, of py] by (simp add: res s'_def wh_def)
  have total: "total_rows (finish_changes s')
                 = int (length (filter (\<lambda>r. shape r \<noteq> None) (src_rows w)))"
  proof -
    have "row_count s' = row_count s1
            + int (length (filter (\<lambda>r. \<not> (\<not> is_table crate \<and> wkt r = None)) rows))"
      unfolding s'_def by (rule hash_loop_count)
    also have "\<dots> = int (length (filter (\<lambda>r. shape r \<noteq> None) (src_rows w)))"
      unfolding rows_def flds_def filter_read_row(2)[OF assms(1)] by (simp add: s1_def)
    finally show ?thesis by (simp add: finish_changes_fields)
  qed
  have wp: "warnings (hash_prepare nr w0) = warnings w"
    by (simp add: hash_prepare_def Let_def wn0 split: option.splits)
  have warn: "warnings wh = warnings w @ logged"
    unfolding wh_def rows_def flds_def hash_loop_warnings filter_read_row(1)[OF assms(1)]
      wp assms(10) assms(9)
    by (simp add: comp_def)
  have keys: "\<forall>k \<in> fst ` set (adds (finish_changes s')) \<union> fst ` set (unchanged (finish_changes s')).
                \<exists>r \<in> set (src_rows w). shape r \<noteq> None \<and> key r = k"
  proof
    fix k
    assume "k \<in> fst ` set (adds (finish_changes s')) \<union> fst ` set (unchanged (finish_changes s'))"
    then have "k \<in> fst ` set (adds (changes s')) \<union> fst ` set (unchanged (changes s'))"
      by (simp add: finish_changes_fields)
    then have "k \<in> fst ` set (adds (changes s1)) \<union> fst ` set (unchanged (changes s1))
     \<union> (\<lambda>r. str_value py (last (cells r)))
         ` {r \<in> set rows. \<not> (\<not> is_table crate \<and> wkt r = None)}"
      using hash_loop_keys[of py crate nr rows s1 "hash_prepare nr w0"] unfolding s'_def by blast
    then obtain cr where cr: "cr \<in> set rows" "wkt cr \<noteq> None" "k = str_value py (last (cells cr))"
      using assms(1) by (auto simp: s1_def initial_changes_def)
    then obtain r where r: "r \<in> set (src_rows w)" "cr = read_row flds r"
      unfolding rows_def by auto
    have "shape r \<noteq> None"
      using cr(2) read_row_wkt[OF assms(1), of "table_fields t" "src_flds w" r]
      unfolding r(2) flds_def by simp
    moreover have "key r = k"
      unfolding assms(9) cr(3) r(2) flds_def ..
    ultimately show "\<exists>r \<in> set (src_rows w). shape r \<noteq> None \<and> key r = k"
      using r(1) by blast
  qed
  have first: "\<exists>c wh. hash py crate (needs_reproject crate) w0 = (Inr c, wh)
            \<and> total_rows c = int (length (filter (\<lambda>r. shape r \<noteq> None) (src_rows w)))
            \<and> warnings wh = warnings w @ logged
            \<and> (\<forall>k \<in> fst ` set (adds c) \<union> fst ` set (unchanged c).
                  \<exists>r \<in> set (src_rows w). shape r \<noteq> None \<and> key r = k)"
    using run total warn keys unfolding nr_def by blast
  have e: "ensure_destination crate
             (w\<lparr>env_transformations := geographic_transformation crate, edit_session := None\<rparr>)
           = (Inr (NO_CHANGES, None), w0)"
    using ensure_destination_existing[OF f0 d0, of crate] unfolding assms(7) .
  have nrt': "needs_reproject crate \<longrightarrow> \<not> is_table crate" using assms(1) by simp
  have pkd0: "source_primary_key crate \<in> set (field_names (table_fields t))" by (rule assms(6))
  note u = update_success[where py = py, OF e f0 s0 d0 pk0 pkd0 nrt' assms(8)]
  obtain t' where t': "dest (sync_result py crate w0) = Some t'"
    "\<forall>r \<in> set (table_rows t'). r \<in> set (table_rows t) \<or> shape r \<noteq> None"
    using sync_result_frame[OF d0, of py crate] assms(1) by blast
  have wr: "warnings (sync_result py crate w0) = warnings w @ logged"
  proof -
    have "warnings (snd (hash_result py crate nr w0)) = warnings w @ logged"
      unfolding res using warn unfolding wh_def .
    then show ?thesis
      using sync_result_frame[OF d0, of py crate] unfolding nr_def by simp
  qed
  have second: "\<exists>st w' t'. update py crate validate_crate w = (Inr st, w')
            \<and> warnings w' = warnings w @ logged
            \<and> dest w' = Some t'
            \<and> (\<forall>r \<in> set (table_rows t'). r \<in> set (table_rows t) \<or> shape r \<noteq> None)"
    unfolding u using t' wr by (simp add: ResetEnvironments_def)
  have third: "\<forall>c flds row v. wkt row = None \<longrightarrow> add_row crate c flds row () v = (Inr (), v)"
    using add_row_skips[OF assms(1)] by blast
  from first second third show ?thesis by blast
qed


text \<open>
  The theorem at a source with one point and one null geometry: one row counted, one
  warning, and only rows with a geometry in the destination.
\<close>

theorem null_geometry_skipped_witness:
  "(\<exists>c wh. hash ex_python ex_feature_crate False ex_feature_world = (Inr c, wh)
      \<and> total_rows c = 1
      \<and> warnings wh = [''Empty geometry found in OBJECTID: 2'']
      \<and> fst ` set (adds c) \<union> fst ` set (unchanged c) \<subseteq> {''1''})
   \<and> (\<exists>st w' t'. update ex_python ex_feature_crate ex_validator ex_feature_world = (Inr st, w')
      \<and> warnings w' = [''Empty geometry found in OBJECTID: 2'']
      \<and> dest w' = Some t'
      \<and> list_all (\<lambda>r. shape r \<noteq> None) (table_rows t'))"
proof -
  define key :: "string row \<Rightarrow> string" where
    "key = (\<lambda>r. str_value ex_python (last (cells (read_row
                   (hash_fields ex_feature_crate
                      (table_fields (new_table ex_fields :: string table))
                      (src_flds ex_feature_world)) r))))"
  define logged where
    "logged = map (\<lambda>r. ''Empty geometry found in '' @ source_primary_key ex_feature_crate
                        @ '': '' @ key r)
                (filter (\<lambda>r. shape r = None) (src_rows ex_feature_world))"
  have a: "\<not> is_table ex_feature_crate" "faults ex_feature_world = []"
    "src_exists ex_feature_world" "dest ex_feature_world = Some (new_table ex_fields)"
    "src_flds ex_feature_world = ex_fields"
    "src_rows ex_feature_world = [ex_row ''1'' ''a'' (Some ''POINT (0 0)''), ex_row ''2'' ''b'' None]"
    "warnings ex_feature_world = []"
    "needs_reproject ex_feature_crate = False"
    by (simp_all add: ex_feature_crate_def ex_feature_world_def ex_world_def ex_crate_def)
  have pks: "source_primary_key ex_feature_crate \<in> set (field_names (src_flds ex_feature_world))"
    unfolding a(5) by code_simp
  have pkd: "source_primary_key ex_feature_crate
               \<in> set (field_names (table_fields (new_table ex_fields :: string table)))"
    by code_simp
  have w0: "ex_feature_world
              = ex_feature_world\<lparr>env_transformations := geographic_transformation ex_feature_crate,
                  edit_session := None\<rparr>"
    by (simp add: ex_feature_crate_def ex_feature_world_def ex_world_def ex_crate_def)
  have cs: "compare_schema (crate_source ex_feature_crate) (src_flds ex_feature_world)
              (table_fields (new_table ex_fields :: string table)) = Inr True"
    unfolding a(5) by code_simp
  have v: "validate ex_feature_crate ex_validator ex_feature_world = (Inr None, ex_feature_world)"
    by (rule validate_passes[OF a(2,3,4)]) (simp add: ex_validator_def cs)
  have rows: "filter (\<lambda>r. shape r = None) (src_rows ex_feature_world) = [ex_row ''2'' ''b'' None]"
    "filter (\<lambda>r. shape r \<noteq> None) (src_rows ex_feature_world)
       = [ex_row ''1'' ''a'' (Some ''POINT (0 0)'')]"
    unfolding a(6) by (simp_all add: ex_row_def)
  have k: "key (ex_row ''2'' ''b'' None) = ''2''" "key (ex_row ''1'' ''a'' (Some ''POINT (0 0)'')) = ''1''"
    unfolding key_def a(5) by code_simp+
  have l: "logged = [''Empty geometry found in OBJECTID: 2'']"
    unfolding logged_def rows by (simp add: k ex_feature_crate_def ex_crate_def)
  have tr: "int (length [ex_row ''1'' ''a'' (Some ''POINT (0 0)'')]) = 1" by simp
  note n = null_geometry_skipped[where py = ex_python and validate_crate = ex_validator
      and crate = ex_feature_crate and w = ex_feature_world and t = "new_table ex_fields"
      and ?w0.0 = ex_feature_world and key = key and logged = logged,
      OF a(1,2,3,4) pks pkd w0 v key_def logged_def,
      unfolded l rows a(7) a(8) append_Nil tr]
  from n obtain c wh where h:
    "hash ex_python ex_feature_crate False ex_feature_world = (Inr c, wh)"
    "total_rows c = 1"
    "warnings wh = [''Empty geometry found in OBJECTID: 2'']"
    "\<forall>k \<in> fst ` set (adds c) \<union> fst ` set (unchanged c).
       \<exists>r \<in> set (src_rows ex_feature_world). shape r \<noteq> None \<and> key r = k"
    by blast
  from n obtain st w' t' where u:
    "update ex_python ex_feature_crate ex_validator ex_feature_world = (Inr st, w')"
    "warnings w' = [''Empty geometry found in OBJECTID: 2'']"
    "dest w' = Some t'"
    "\<forall>r \<in> set (table_rows t'). r \<in> set (table_rows (new_table ex_fields)) \<or> shape r \<noteq> None"
    by blast
  have ks: "fst ` set (adds c) \<union> fst ` set (unchanged c) \<subseteq> {''1''}"
  proof
    fix x assume "x \<in> fst ` set (adds c) \<union> fst ` set (unchanged c)"
    with h(4) obtain r where "r \<in> set (src_rows ex_feature_world)" "shape r \<noteq> None" "key r = x"
      by blast
    then show "x \<in> {''1''}"
      unfolding a(6) using k(2) by (auto simp: ex_row_def)
  qed
  have sh: "list_all (\<lambda>r. shape r \<noteq> None) (table_rows t')"
    using u(4) by (simp add: new_table_def list_all_iff)
  from h(1-3) ks u(1-3) sh show ?thesis by blast
qed


section \<open>Deletes: the identifier and the key\<close>

text \<open>
  Claim C4, at a shapefile crate. The first call creates the destination with the field
  \<^verbatim>\<open>FID\<close> and loads both records: the rows get the object ids 1 and 2, which the hash table
  keeps as identifiers, and carry the source keys 0 and 1 in \<^verbatim>\<open>FID\<close>. The first record is
  then edited, so that no record of the source has the digests stored for identifier 1. The
  second call returns \<^verbatim>\<open>UPDATED\<close>; identifier 1 leaves the hash table, but the destination
  is searched for \<^verbatim>\<open>FID\<close> 1: the row of identifier 1 stays, and the row of the record that
  did not change is deleted while its hash row stays.
\<close>

theorem update_deletes_by_source_key:
  "fst (update ex_python ex_shapefile_crate ex_validator ex_shapefile_world) = Inr (CREATED, None)
   \<and> map_option table_rows (dest ex_shapefile_loaded)
       = Some [\<lparr>vals = [(''NAME'', ''a''), (''FID'', ''0'')], shape = Some ''POINT (0 0)'', oid = 1\<rparr>,
               \<lparr>vals = [(''NAME'', ''b''), (''FID'', ''1'')], shape = Some ''POINT (1 1)'', oid = 2\<rparr>]
   \<and> hash_tbl ex_shapefile_loaded
       = Some [\<lparr>hash_id = ''1'', att_hash = Some ''(a,)1'', geom_hash = Some ''POINT (0 0)1''\<rparr>,
               \<lparr>hash_id = ''2'', att_hash = Some ''(b,)2'', geom_hash = Some ''POINT (1 1)2''\<rparr>]
   \<and> fst (update ex_python ex_shapefile_crate ex_validator ex_shapefile_edited)
       = Inr (UPDATED, None)
   \<and> map_option table_rows
         (dest (snd (update ex_python ex_shapefile_crate ex_validator ex_shapefile_edited)))
       = Some [\<lparr>vals = [(''NAME'', ''a''), (''FID'', ''0'')], shape = Some ''POINT (0 0)'', oid = 1\<rparr>,
               \<lparr>vals = [(''NAME'', ''c''), (''FID'', ''0'')], shape = Some ''POINT (5 5)'', oid = 3\<rparr>]
   \<and> hash_tbl (snd (update ex_python ex_shapefile_crate ex_validator ex_shapefile_edited))
       = Some [\<lparr>hash_id = ''2'', att_hash = Some ''(b,)2'', geom_hash = Some ''POINT (1 1)2''\<rparr>,
               \<lparr>hash_id = ''3'', att_hash = Some ''(c,)1'', geom_hash = Some ''POINT (5 5)1''\<rparr>]"
  by code_simp

end
